(* ===== verification/Prelude.thy ===== *)
theory Prelude
  imports Complex_Main "HOL-Library.Word"
begin

text \<open>
  What every component of the model shares: the representation of Go's basic types, the
  string functions of the standard library that the backend calls, and generic lemmas on
  lists and sums. The \<open>named_theorems\<close> collections at the top are filled by the later
  theories and carry their proofs.

  \<^item> A UUID is a natural number; \<open>uuid.Nil\<close> is 0. Only equality, the order of the bytes
    (\<open>ORDER BY id\<close>) and the test for \<open>uuid.Nil\<close> are used by the code.
  \<^item> A \<open>time.Time\<close> is the number of nanoseconds since the instant of Go's zero \<open>Time\<close>
    (1 January of year 1, UTC), so that \<open>t.IsZero()\<close> is \<open>t = 0\<close>. Zones are only a matter of
    display, so \<open>t.UTC()\<close> is the identity.
  \<^item> An \<open>int32\<close> is a 32-bit word read with \<open>sint\<close>; its addition wraps as Go's does.
  \<^item> A \<open>decimal.Decimal\<close> is the rational number it denotes: the package is documented to add
    and multiply without loss of precision.
  \<^item> A Go string is its list of bytes, a \<open>char\<close> being a byte.
\<close>

section \<open>Collections of facts\<close>

named_theorems readonly_intros \<open>operations that leave the database as it is\<close>
named_theorems quiet_intros \<open>operations that start no goroutine\<close>
named_theorems evolve_intros \<open>operations under which the orders and the ledger evolve\<close>
named_theorems keeps_intros \<open>operations that keep a property of the database\<close>

section \<open>Basic types\<close>

type_synonym uuid = nat
type_synonym gotime = int
type_synonym int32 = "32 word"
type_synonym decimal = rat

definition uuid_Nil :: uuid where
  "uuid_Nil = 0"

definition IsZero :: "gotime \<Rightarrow> bool" where
  "IsZero t \<longleftrightarrow> t = 0"

text \<open>The range of a 32-bit signed integer, of Go's \<open>int32\<close> and of an \<open>INT\<close> column.\<close>

definition int4_range :: "int \<Rightarrow> bool" where
  "int4_range n \<longleftrightarrow> - (2 ^ 31) \<le> n \<and> n < 2 ^ 31"

lemma int4_range_sint [simp]: "int4_range (sint (n :: int32))"
  using sint_range_size [of n] by (simp add: int4_range_def word_size)

lemma sint_of_int32: "int4_range k \<Longrightarrow> sint (word_of_int k :: int32) = k"
  unfolding int4_range_def by transfer (simp add: signed_take_bit_int_eq_self)

section \<open>Strings of the standard library\<close>

text \<open>
  \<open>strings.TrimSpace\<close> strips the runes of \<open>unicode.IsSpace\<close>: these are their UTF-8 encodings.
  Stripping an encoding that is a prefix (or a suffix) of the bytes is what decoding the first
  (the last) rune and testing it does, since UTF-8 is self-synchronising.
\<close>

definition space_runes :: "string list" where
  "space_runes =
    [[CHR 0x20], [CHR 0x09], [CHR 0x0A], [CHR 0x0B], [CHR 0x0C], [CHR 0x0D],
     [CHR 0xC2, CHR 0x85], [CHR 0xC2, CHR 0xA0], [CHR 0xE1, CHR 0x9A, CHR 0x80],
     [CHR 0xE2, CHR 0x80, CHR 0x80], [CHR 0xE2, CHR 0x80, CHR 0x81], [CHR 0xE2, CHR 0x80, CHR 0x82],
     [CHR 0xE2, CHR 0x80, CHR 0x83], [CHR 0xE2, CHR 0x80, CHR 0x84], [CHR 0xE2, CHR 0x80, CHR 0x85],
     [CHR 0xE2, CHR 0x80, CHR 0x86], [CHR 0xE2, CHR 0x80, CHR 0x87], [CHR 0xE2, CHR 0x80, CHR 0x88],
     [CHR 0xE2, CHR 0x80, CHR 0x89], [CHR 0xE2, CHR 0x80, CHR 0x8A], [CHR 0xE2, CHR 0x80, CHR 0xA8],
     [CHR 0xE2, CHR 0x80, CHR 0xA9], [CHR 0xE2, CHR 0x80, CHR 0xAF], [CHR 0xE2, CHR 0x81, CHR 0x9F],
     [CHR 0xE3, CHR 0x80, CHR 0x80]]"

fun has_prefix :: "'a list \<Rightarrow> 'a list \<Rightarrow> bool" where
  "has_prefix [] ys = True"
| "has_prefix (x # xs) [] = False"
| "has_prefix (x # xs) (y # ys) = (x = y \<and> has_prefix xs ys)"

text \<open>
  Each turn of the loop drops one whole encoding; its length is counted from the second byte,
  so the loop is seen to shrink the string whatever the list of encodings is.
\<close>

function strip_left :: "string list \<Rightarrow> string \<Rightarrow> string" where
  "strip_left sps [] = []"
| "strip_left sps (c # s) =
     (case find (\<lambda>p. p \<noteq> [] \<and> has_prefix p (c # s)) sps of
        None \<Rightarrow> c # s
      | Some p \<Rightarrow> strip_left sps (drop (length p - 1) s))"
  by pat_completeness auto
termination
  by (relation "measure (\<lambda>(sps, s). length s)") auto

definition TrimSpace :: "string \<Rightarrow> string" where
  "TrimSpace s = rev (strip_left (map rev space_runes) (rev (strip_left space_runes s)))"

text \<open>
  \<open>strings.ToLower\<close> and \<open>strings.ToUpper\<close> have a path of their own for ASCII strings. On the
  others they map every rune through the Unicode tables, which are an argument of the model.
\<close>

definition is_ascii :: "string \<Rightarrow> bool" where
  "is_ascii s \<longleftrightarrow> list_all (\<lambda>c. of_char c < (128 :: nat)) s"

definition ascii_lower :: "char \<Rightarrow> char" where
  "ascii_lower c = (let n = of_char c :: nat in if 65 \<le> n \<and> n \<le> 90 then char_of (n + 32) else c)"

definition ascii_upper :: "char \<Rightarrow> char" where
  "ascii_upper c = (let n = of_char c :: nat in if 97 \<le> n \<and> n \<le> 122 then char_of (n - 32) else c)"

definition ToLower :: "(string \<Rightarrow> string) \<Rightarrow> string \<Rightarrow> string" where
  "ToLower lc s = (if is_ascii s then map ascii_lower s else lc s)"

definition ToUpper :: "(string \<Rightarrow> string) \<Rightarrow> string \<Rightarrow> string" where
  "ToUpper uc s = (if is_ascii s then map ascii_upper s else uc s)"

lemma ascii_upper_idem [simp]: "ascii_upper (ascii_upper c) = ascii_upper c"
proof (cases "97 \<le> (of_char c :: nat) \<and> (of_char c :: nat) \<le> 122")
  case True
  then have "((of_char c :: nat) - 32) mod 256 = of_char c - 32" by (intro mod_less) linarith
  with True show ?thesis by (auto simp: ascii_upper_def Let_def)
qed (auto simp: ascii_upper_def Let_def)

lemma ascii_upper_ascii: "of_char c < (128 :: nat) \<Longrightarrow> of_char (ascii_upper c) < (128 :: nat)"
  by (auto simp: ascii_upper_def Let_def of_char_of)

section \<open>Lists\<close>

text \<open>A table is a list of rows. \<open>UPDATE\<close> with a \<open>WHERE\<close> clause is a conditional map.\<close>

definition upd_where :: "('r \<Rightarrow> bool) \<Rightarrow> ('r \<Rightarrow> 'r) \<Rightarrow> 'r list \<Rightarrow> 'r list" where
  "upd_where P f t = map (\<lambda>r. if P r then f r else r) t"

lemma length_upd_where [simp]: "length (upd_where P f t) = length t"
  by (simp add: upd_where_def)

lemma set_upd_where: "set (upd_where P f t) = (\<lambda>r. if P r then f r else r) ` set t"
  by (auto simp: upd_where_def)

lemma map_upd_where: "(\<And>r. P r \<Longrightarrow> g (f r) = g r) \<Longrightarrow> map g (upd_where P f t) = map g t"
  by (auto simp: upd_where_def)

lemma upd_where_none: "(\<And>r. r \<in> set t \<Longrightarrow> \<not> P r) \<Longrightarrow> upd_where P f t = t"
  by (simp add: upd_where_def map_idI)

text \<open>A query for one row takes the first that matches.\<close>

lemma find_key_unique:
  "distinct (map k t) \<Longrightarrow> r \<in> set t \<Longrightarrow> find (\<lambda>x. k x = k r) t = Some r"
  by (induction t) force+

lemma find_SomeD: "find P xs = Some x \<Longrightarrow> x \<in> set xs \<and> P x"
  by (auto simp: find_Some_iff)

lemma find_NoneD: "find P xs = None \<Longrightarrow> x \<in> set xs \<Longrightarrow> \<not> P x"
  by (simp add: find_None_iff)

lemma distinct_map_inj: "distinct (map k t) \<Longrightarrow> r \<in> set t \<Longrightarrow> r' \<in> set t \<Longrightarrow> k r = k r' \<Longrightarrow> r = r'"
  by (auto simp: distinct_map dest: inj_onD)

text \<open>Sums of a column over the rows that match, the \<open>SUM\<close> of SQL.\<close>

definition sum_where :: "('r \<Rightarrow> bool) \<Rightarrow> ('r \<Rightarrow> int) \<Rightarrow> 'r list \<Rightarrow> int" where
  "sum_where P f t = sum_list (map f (filter P t))"

lemma sum_where_Nil [simp]: "sum_where P f [] = 0"
  by (simp add: sum_where_def)

lemma sum_where_Cons: "sum_where P f (r # t) = (if P r then f r else 0) + sum_where P f t"
  by (simp add: sum_where_def)

lemma sum_where_append: "sum_where P f (s @ t) = sum_where P f s + sum_where P f t"
  by (simp add: sum_where_def)

lemma sum_where_cong:
  "(\<And>r. r \<in> set t \<Longrightarrow> P r = Q r) \<Longrightarrow> sum_where P f t = sum_where Q f t"
  by (simp add: sum_where_def cong: filter_cong)

lemma sum_where_none: "(\<And>r. r \<in> set t \<Longrightarrow> \<not> P r) \<Longrightarrow> sum_where P f t = 0"
  by (induction t) (auto simp: sum_where_Cons)

lemma sum_where_split:
  "sum_where P f t = sum_where (\<lambda>r. P r \<and> Q r) f t + sum_where (\<lambda>r. P r \<and> \<not> Q r) f t"
  by (induction t) (auto simp: sum_where_Cons)

lemma sum_where_nonneg: "(\<And>r. r \<in> set t \<Longrightarrow> P r \<Longrightarrow> 0 \<le> f r) \<Longrightarrow> 0 \<le> sum_where P f t"
  by (induction t) (auto simp: sum_where_Cons)

end
