(* ===== verification/Errors.thy ===== *)
theory Errors
  imports Prelude
begin

text \<open>
  Errors as values: the \<open>apperr\<close> package, Go's error chains with \<open>errors.Is\<close> and \<open>errors.As\<close>,
  and the error half of the \<open>httpx\<close> package, which turns any error into the one envelope the
  API promises.

  A formatted message keeps its format string and its operands; rendering it is
  \<open>fmt.Sprintf\<close>'s business and nothing in the code branches on the result.
\<close>

section \<open>Messages and error values\<close>

datatype fmtarg = ArgS string | ArgI int | ArgU uuid

datatype message = Msg (msg_format: string) (msg_args: "fmtarg list")

abbreviation text_msg :: "string \<Rightarrow> message" where
  "text_msg s \<equiv> Msg s []"

text \<open>
  \<open>Sentinel\<close> is the value of a package-level \<open>errors.New\<close>, named by its text (the texts of the
  backend's sentinels are pairwise different). \<open>Errorf\<close> is \<open>fmt.Errorf\<close> with the errors that its
  \<open>%w\<close> verbs wrap. \<open>PgError\<close> is a \<open>*pgconn.PgError\<close> with its SQLSTATE, \<open>DriverError\<close> any other
  failure of the driver, the network or the context, and \<open>HTTPError\<close> an \<open>*echo.HTTPError\<close> with
  its message, when that is a string, and its internal cause.
\<close>

datatype goerror =
    AppError (HTTPStatus: int) (Code: string) (Message: message) (Err: "goerror option")
  | Sentinel string
  | Errorf message "goerror list"
  | PgError string
  | DriverError string
  | HTTPError int "string option" "goerror option"

section \<open>Error chains\<close>

text \<open>The errors that \<open>Unwrap\<close> reaches, in the depth-first order of the \<open>errors\<close> package.\<close>

fun error_tree :: "goerror \<Rightarrow> goerror list" where
  "error_tree (AppError st code msg cause) =
     AppError st code msg cause # (case cause of None \<Rightarrow> [] | Some e \<Rightarrow> error_tree e)"
| "error_tree (Errorf msg es) = Errorf msg es # concat (map error_tree es)"
| "error_tree (HTTPError st msg cause) =
     HTTPError st msg cause # (case cause of None \<Rightarrow> [] | Some e \<Rightarrow> error_tree e)"
| "error_tree (Sentinel s) = [Sentinel s]"
| "error_tree (PgError c) = [PgError c]"
| "error_tree (DriverError s) = [DriverError s]"

definition errors_Is :: "goerror \<Rightarrow> goerror \<Rightarrow> bool" where
  "errors_Is err target = List.member (error_tree err) target"

definition errors_As :: "(goerror \<Rightarrow> bool) \<Rightarrow> goerror \<Rightarrow> goerror option" where
  "errors_As is_target err = find is_target (error_tree err)"

fun is_AppErr :: "goerror \<Rightarrow> bool" where
  "is_AppErr (AppError st code msg cause) = True"
| "is_AppErr _ = False"

fun is_EchoErr :: "goerror \<Rightarrow> bool" where
  "is_EchoErr (HTTPError st msg cause) = True"
| "is_EchoErr _ = False"

fun is_PgErr :: "goerror \<Rightarrow> bool" where
  "is_PgErr (PgError c) = True"
| "is_PgErr _ = False"

text \<open>The same helper is declared in the event, order and ticket repositories.\<close>

abbreviation uniqueViolation :: string where
  "uniqueViolation \<equiv> ''23505''"

definition isUniqueViolation :: "goerror \<Rightarrow> bool" where
  "isUniqueViolation err = (errors_As is_PgErr err = Some (PgError uniqueViolation))"

lemma errors_Is_self [simp]: "errors_Is e e"
  by (cases e) (auto simp: errors_Is_def)

lemma errors_Is_simps [simp]:
  "errors_Is (Sentinel s) t = (t = Sentinel s)"
  "errors_Is (PgError c) t = (t = PgError c)"
  "errors_Is (DriverError s) t = (t = DriverError s)"
  "errors_Is (Errorf m es) t = (t = Errorf m es \<or> list_ex (\<lambda>e. errors_Is e t) es)"
  "errors_Is (AppError st code msg cause) t =
     (t = AppError st code msg cause \<or> (case cause of None \<Rightarrow> False | Some e \<Rightarrow> errors_Is e t))"
  by (auto simp: errors_Is_def list_ex_iff split: option.splits)

lemma isUniqueViolation_simps [simp]:
  "isUniqueViolation (PgError c) = (c = uniqueViolation)"
  "\<not> isUniqueViolation (Sentinel s)"
  "\<not> isUniqueViolation (DriverError s)"
  by (auto simp: isUniqueViolation_def errors_As_def)

section \<open>Package apperr\<close>

text \<open>The machine-readable codes.\<close>

abbreviation CodeValidation :: string where "CodeValidation \<equiv> ''VALIDATION_ERROR''"
abbreviation CodeInsufficientQuota :: string where "CodeInsufficientQuota \<equiv> ''INSUFFICIENT_QUOTA''"
abbreviation CodeAttendeeCountMismatch :: string where
  "CodeAttendeeCountMismatch \<equiv> ''ATTENDEE_COUNT_MISMATCH''"
abbreviation CodeTicketTypeNotOnSale :: string where
  "CodeTicketTypeNotOnSale \<equiv> ''TICKET_TYPE_NOT_ON_SALE''"
abbreviation CodeTicketTypeNotFound :: string where
  "CodeTicketTypeNotFound \<equiv> ''TICKET_TYPE_NOT_FOUND''"
abbreviation CodeEventNotFound :: string where "CodeEventNotFound \<equiv> ''EVENT_NOT_FOUND''"
abbreviation CodePaymentInitiationFailed :: string where
  "CodePaymentInitiationFailed \<equiv> ''PAYMENT_INITIATION_FAILED''"
abbreviation CodePaymentStatusUnavailable :: string where
  "CodePaymentStatusUnavailable \<equiv> ''PAYMENT_STATUS_UNAVAILABLE''"
abbreviation CodeTicketNotFound :: string where "CodeTicketNotFound \<equiv> ''TICKET_NOT_FOUND''"
abbreviation CodeRateLimited :: string where "CodeRateLimited \<equiv> ''RATE_LIMITED''"
abbreviation CodeInvalidSignature :: string where "CodeInvalidSignature \<equiv> ''INVALID_SIGNATURE''"
abbreviation CodeInvalidCredentials :: string where "CodeInvalidCredentials \<equiv> ''INVALID_CREDENTIALS''"
abbreviation CodeUnauthorized :: string where "CodeUnauthorized \<equiv> ''UNAUTHORIZED''"
abbreviation CodeSlugNotUnique :: string where "CodeSlugNotUnique \<equiv> ''SLUG_NOT_UNIQUE''"
abbreviation CodeInvalidDateRange :: string where "CodeInvalidDateRange \<equiv> ''INVALID_DATE_RANGE''"
abbreviation CodeEventHasOrders :: string where "CodeEventHasOrders \<equiv> ''EVENT_HAS_ORDERS''"
abbreviation CodeTicketTypeHasOrders :: string where
  "CodeTicketTypeHasOrders \<equiv> ''TICKET_TYPE_HAS_ORDERS''"
abbreviation CodeAlreadyUsed :: string where "CodeAlreadyUsed \<equiv> ''ALREADY_USED''"
abbreviation CodeOrderNotPaid :: string where "CodeOrderNotPaid \<equiv> ''ORDER_NOT_PAID''"
abbreviation CodeOrderNotFound :: string where "CodeOrderNotFound \<equiv> ''ORDER_NOT_FOUND''"
abbreviation CodeNotFound :: string where "CodeNotFound \<equiv> ''NOT_FOUND''"
abbreviation CodeInternal :: string where "CodeInternal \<equiv> ''INTERNAL_ERROR''"

record Body =
  ErrorCode :: string
  BodyMessage :: message

text \<open>\<open>Response\<close> is a method of \<open>*apperr.Error\<close>; on other errors it has no meaning.\<close>

fun Response :: "goerror \<Rightarrow> Body option" where
  "Response (AppError st code msg cause) = Some \<lparr>ErrorCode = code, BodyMessage = msg\<rparr>"
| "Response _ = None"

definition New :: "int \<Rightarrow> string \<Rightarrow> message \<Rightarrow> goerror" where
  "New status code msg = AppError status code msg None"

definition Wrap :: "goerror \<Rightarrow> int \<Rightarrow> string \<Rightarrow> message \<Rightarrow> goerror" where
  "Wrap err status code msg = AppError status code msg (Some err)"

definition BadRequest :: "string \<Rightarrow> message \<Rightarrow> goerror" where
  "BadRequest code msg = New 400 code msg"

definition Unauthorized :: "string \<Rightarrow> message \<Rightarrow> goerror" where
  "Unauthorized code msg = New 401 code msg"

definition NotFound :: "string \<Rightarrow> message \<Rightarrow> goerror" where
  "NotFound code msg = New 404 code msg"

definition Conflict :: "string \<Rightarrow> message \<Rightarrow> goerror" where
  "Conflict code msg = New 409 code msg"

definition Internal :: "string \<Rightarrow> message \<Rightarrow> goerror" where
  "Internal code msg = New 500 code msg"

definition BadGateway :: "string \<Rightarrow> message \<Rightarrow> goerror" where
  "BadGateway code msg = New 502 code msg"

lemmas apperr_defs = New_def Wrap_def BadRequest_def Unauthorized_def NotFound_def Conflict_def
  Internal_def BadGateway_def

section \<open>Package httpx: the error handler\<close>

definition codeForStatus :: "int \<Rightarrow> string" where
  "codeForStatus status =
     (if status = 400 then CodeValidation
      else if status = 401 then CodeUnauthorized
      else if status = 404 then CodeNotFound
      else if status = 429 then CodeRateLimited
      else if status \<ge> 500 then CodeInternal
      else CodeValidation)"

text \<open>\<open>http.StatusText\<close> is a table of the standard library, an argument here.\<close>

definition messageForStatus :: "(int \<Rightarrow> string) \<Rightarrow> int \<Rightarrow> string option \<Rightarrow> message" where
  "messageForStatus StatusText code msg =
     (if code \<ge> 500 then text_msg ''An unexpected error occurred.''
      else case msg of
        Some m \<Rightarrow> if m \<noteq> '''' then text_msg m else text_msg (StatusText code)
      | None \<Rightarrow> text_msg (StatusText code))"

definition toAppError :: "(int \<Rightarrow> string) \<Rightarrow> goerror \<Rightarrow> goerror" where
  "toAppError StatusText err =
     (case errors_As is_AppErr err of
        Some e \<Rightarrow> e
      | None \<Rightarrow>
          (case errors_As is_EchoErr err of
             Some (HTTPError code msg cause) \<Rightarrow>
               New code (codeForStatus code) (messageForStatus StatusText code msg)
           | _ \<Rightarrow> Internal CodeInternal (text_msg ''An unexpected error occurred.'')))"

text \<open>
  What \<open>ErrorHandler\<close> writes: nothing when a response was already committed, otherwise the
  status of the application error with its body, which a \<open>HEAD\<close> request does not get. The level
  of its log line depends on the status alone.
\<close>

datatype level = LevelDebug | LevelInfo | LevelWarn | LevelError

record http_response =
  resp_status :: int
  resp_body :: "Body option"

definition ErrorHandler ::
  "(int \<Rightarrow> string) \<Rightarrow> goerror \<Rightarrow> bool \<Rightarrow> string \<Rightarrow> (http_response \<times> level) option" where
  "ErrorHandler StatusText err committed method =
     (if committed then None
      else let appErr = toAppError StatusText err in
        Some (\<lparr>resp_status = HTTPStatus appErr,
               resp_body = (if method = ''HEAD'' then None else Response appErr)\<rparr>,
              if HTTPStatus appErr \<ge> 500 then LevelError else LevelWarn))"

text \<open>The levels are ordered by severity, as \<open>slog\<close>'s integers are.\<close>

fun level_num :: "level \<Rightarrow> int" where
  "level_num LevelDebug = - 4"
| "level_num LevelInfo = 0"
| "level_num LevelWarn = 4"
| "level_num LevelError = 8"

instantiation level :: linorder
begin

definition less_eq_level :: "level \<Rightarrow> level \<Rightarrow> bool" where
  "less_eq_level a b \<longleftrightarrow> level_num a \<le> level_num b"

definition less_level :: "level \<Rightarrow> level \<Rightarrow> bool" where
  "less_level a b \<longleftrightarrow> level_num a < level_num b"

instance
proof
  fix a b :: level
  assume "a \<le> b" "b \<le> a"
  then show "a = b" by (cases a; cases b) (auto simp: less_eq_level_def)
qed (auto simp: less_eq_level_def less_level_def)

end

definition ParseLevel :: "(string \<Rightarrow> string) \<Rightarrow> string \<Rightarrow> level" where
  "ParseLevel lc s =
     (let v = ToLower lc (TrimSpace s) in
      if v = ''debug'' then LevelDebug
      else if v = ''warn'' \<or> v = ''warning'' then LevelWarn
      else if v = ''error'' then LevelError
      else LevelInfo)"

subsection \<open>What the error handler can disclose\<close>

lemma find_AppErr: "find is_AppErr xs = Some e \<Longrightarrow> \<exists>st code msg cause. e = AppError st code msg cause"
  by (cases e) (auto dest: find_SomeD)

lemma find_EchoErr: "find is_EchoErr xs = Some e \<Longrightarrow> \<exists>st msg cause. e = HTTPError st msg cause"
  by (cases e) (auto dest: find_SomeD)

lemma toAppError_is_AppErr: "is_AppErr (toAppError st err)"
  by (auto simp: toAppError_def errors_As_def apperr_defs split: option.splits goerror.splits
      dest: find_AppErr find_EchoErr)

lemma toAppError_AppError [simp]:
  "toAppError st (AppError s code msg cause) = AppError s code msg cause"
  by (simp add: toAppError_def errors_As_def)

lemma toAppError_opaque:
  "errors_As is_AppErr err = None \<Longrightarrow> errors_As is_EchoErr err = None \<Longrightarrow>
   toAppError st err = AppError 500 CodeInternal (text_msg ''An unexpected error occurred.'') None"
  by (simp add: toAppError_def apperr_defs)

end
