(* ===== verification/Database.thy ===== *)
theory Database
  imports Errors
begin

text \<open>
  The PostgreSQL schema of \<open>backend/migrations\<close> as one state record, a table being the list of
  its rows; a query meets them in an order of its own (\<open>scanned\<close> in \<open>Runtime\<close>). The row types carry the columns of the generated
  \<open>*sql/models.go\<close> structs. \<open>schema_ok\<close> collects the schema's constraints (primary and unique
  keys, foreign keys, checks); the statements of the later theories enforce them with the
  SQLSTATEs PostgreSQL answers, and keep them.

  The length limits of the \<open>VARCHAR\<close> columns and the precision of the \<open>NUMERIC\<close> ones are not
  enforced: a statement that breaks them fails, and any statement of the model may fail.
  The database's collation orders texts by \<open>collate\<close>, any function into a dense order.
\<close>

section \<open>Rows\<close>

record admin_row =
  ad_id :: uuid
  ad_email :: string
  ad_password_hash :: string

record event_row =
  ev_id :: uuid
  ev_name :: string
  ev_slug :: string
  ev_description :: "string option"
  ev_venue :: string
  ev_address :: string
  ev_start :: gotime
  ev_end :: gotime
  ev_banner :: "string option"
  ev_status :: string
  ev_created_at :: "gotime option"
  ev_updated_at :: "gotime option"

record ticket_type_row =
  tt_id :: uuid
  tt_event :: uuid
  tt_name :: string
  tt_price :: decimal
  tt_quota :: int
  tt_sales_start :: gotime
  tt_sales_end :: gotime
  tt_created_at :: "gotime option"
  tt_updated_at :: "gotime option"

record order_row =
  ord_id :: uuid
  ord_number :: string
  ord_buyer_name :: string
  ord_buyer_email :: string
  ord_buyer_phone :: string
  ord_total :: decimal
  ord_status :: string
  ord_provider :: "string option"
  ord_payment_url :: "string option"
  ord_email_sent :: "bool option"
  ord_created_at :: "gotime option"
  ord_updated_at :: "gotime option"
  ord_qr_string :: "string option"
  ord_expires_at :: "gotime option"

record item_row =
  it_id :: uuid
  it_order :: uuid
  it_type :: uuid
  it_qty :: int
  it_price :: decimal

record attendee_row =
  at_id :: uuid
  at_order :: uuid
  at_type :: uuid
  at_name :: string
  at_email :: string

record ticket_row =
  tk_id :: uuid
  tk_code :: string
  tk_order :: uuid
  tk_attendee :: uuid
  tk_status :: string
  tk_created_at :: "gotime option"
  tk_updated_at :: "gotime option"

record payment_row =
  pay_id :: uuid
  pay_order :: uuid
  pay_provider :: string
  pay_transaction :: string
  pay_type :: "string option"
  pay_status :: string
  pay_raw :: string
  pay_created_at :: "gotime option"

record database =
  admins :: "admin_row list"
  events :: "event_row list"
  ticket_types :: "ticket_type_row list"
  orders :: "order_row list"
  order_items :: "item_row list"
  attendees :: "attendee_row list"
  tickets :: "ticket_row list"
  payments :: "payment_row list"
  collate :: "string \<Rightarrow> rat"

definition empty_database :: database where
  "empty_database = \<lparr>admins = [], events = [], ticket_types = [], orders = [], order_items = [],
     attendees = [], tickets = [], payments = [], collate = (\<lambda>_. 0)\<rparr>"

section \<open>Status values\<close>

abbreviation OrderStatusPending :: string where "OrderStatusPending \<equiv> ''PENDING''"
abbreviation OrderStatusPaid :: string where "OrderStatusPaid \<equiv> ''PAID''"
abbreviation OrderStatusCancelled :: string where "OrderStatusCancelled \<equiv> ''CANCELLED''"
abbreviation OrderStatusExpired :: string where "OrderStatusExpired \<equiv> ''EXPIRED''"

abbreviation StatusDraft :: string where "StatusDraft \<equiv> ''DRAFT''"
abbreviation StatusPublished :: string where "StatusPublished \<equiv> ''PUBLISHED''"
abbreviation StatusCompleted :: string where "StatusCompleted \<equiv> ''COMPLETED''"

abbreviation StatusActive :: string where "StatusActive \<equiv> ''ACTIVE''"
abbreviation StatusUsed :: string where "StatusUsed \<equiv> ''USED''"
abbreviation StatusRevoked :: string where "StatusRevoked \<equiv> ''REVOKED''"

definition order_statuses :: "string list" where
  "order_statuses = [OrderStatusPending, OrderStatusPaid, OrderStatusCancelled, OrderStatusExpired]"

definition event_statuses :: "string list" where
  "event_statuses = [StatusDraft, StatusPublished, StatusCompleted]"

definition ticket_statuses :: "string list" where
  "ticket_statuses = [StatusActive, StatusUsed, StatusRevoked]"

section \<open>SQLSTATEs\<close>

abbreviation unique_violation :: goerror where "unique_violation \<equiv> PgError ''23505''"
abbreviation foreign_key_violation :: goerror where "foreign_key_violation \<equiv> PgError ''23503''"
abbreviation check_violation :: goerror where "check_violation \<equiv> PgError ''23514''"
abbreviation out_of_range :: goerror where "out_of_range \<equiv> PgError ''22003''"
abbreviation ErrNoRows :: goerror where "ErrNoRows \<equiv> Sentinel ''no rows in result set''"

definition has_key :: "('r \<Rightarrow> 'k) \<Rightarrow> 'k \<Rightarrow> 'r list \<Rightarrow> bool" where
  "has_key k v t = list_ex (\<lambda>r. k r = v) t"

lemma has_key_iff: "has_key k v t \<longleftrightarrow> v \<in> k ` set t"
  by (auto simp: has_key_def list_ex_iff)

section \<open>The schema's constraints\<close>

definition keys_ok :: "database \<Rightarrow> bool" where
  "keys_ok d \<longleftrightarrow>
     distinct (map ad_id (admins d)) \<and> distinct (map ad_email (admins d)) \<and>
     distinct (map ev_id (events d)) \<and> distinct (map ev_slug (events d)) \<and>
     distinct (map tt_id (ticket_types d)) \<and>
     distinct (map ord_id (orders d)) \<and> distinct (map ord_number (orders d)) \<and>
     distinct (map it_id (order_items d)) \<and> distinct (map at_id (attendees d)) \<and>
     distinct (map tk_id (tickets d)) \<and> distinct (map tk_code (tickets d)) \<and>
     distinct (map pay_id (payments d))"

definition fks_ok :: "database \<Rightarrow> bool" where
  "fks_ok d \<longleftrightarrow>
     tt_event ` set (ticket_types d) \<subseteq> ev_id ` set (events d) \<and>
     it_order ` set (order_items d) \<subseteq> ord_id ` set (orders d) \<and>
     it_type ` set (order_items d) \<subseteq> tt_id ` set (ticket_types d) \<and>
     at_order ` set (attendees d) \<subseteq> ord_id ` set (orders d) \<and>
     at_type ` set (attendees d) \<subseteq> tt_id ` set (ticket_types d) \<and>
     tk_order ` set (tickets d) \<subseteq> ord_id ` set (orders d) \<and>
     tk_attendee ` set (tickets d) \<subseteq> at_id ` set (attendees d) \<and>
     pay_order ` set (payments d) \<subseteq> ord_id ` set (orders d)"

definition checks_ok :: "database \<Rightarrow> bool" where
  "checks_ok d \<longleftrightarrow>
     (\<forall>r \<in> set (events d). ev_status r \<in> set event_statuses) \<and>
     (\<forall>r \<in> set (ticket_types d). 0 \<le> tt_quota r \<and> int4_range (tt_quota r)) \<and>
     (\<forall>r \<in> set (orders d). ord_status r \<in> set order_statuses) \<and>
     (\<forall>r \<in> set (order_items d). int4_range (it_qty r)) \<and>
     (\<forall>r \<in> set (tickets d). tk_status r \<in> set ticket_statuses)"

definition schema_ok :: "database \<Rightarrow> bool" where
  "schema_ok d \<longleftrightarrow> keys_ok d \<and> fks_ok d \<and> checks_ok d"

lemma schema_ok_empty: "schema_ok empty_database"
  by (simp add: schema_ok_def keys_ok_def fks_ok_def checks_ok_def empty_database_def)

lemmas schema_defs = schema_ok_def keys_ok_def fks_ok_def checks_ok_def has_key_iff

text \<open>
  A statement writes one table. What the new table has to satisfy, the other tables being as they
  were, is its own constraints and the foreign keys onto it.
\<close>

lemma schema_ok_events:
  assumes "schema_ok d" and "distinct (map ev_id t)" and "distinct (map ev_slug t)"
    and "tt_event ` set (ticket_types d) \<subseteq> ev_id ` set t"
    and "\<forall>r \<in> set t. ev_status r \<in> set event_statuses"
  shows "schema_ok (d\<lparr>events := t\<rparr>)"
  using assms by (simp add: schema_defs)

lemma schema_ok_ticket_types:
  assumes "schema_ok d" and "distinct (map tt_id t)"
    and "tt_event ` set t \<subseteq> ev_id ` set (events d)"
    and "it_type ` set (order_items d) \<subseteq> tt_id ` set t" and "at_type ` set (attendees d) \<subseteq> tt_id ` set t"
    and "\<forall>r \<in> set t. 0 \<le> tt_quota r \<and> int4_range (tt_quota r)"
  shows "schema_ok (d\<lparr>ticket_types := t\<rparr>)"
  using assms by (simp add: schema_defs)

lemma schema_ok_orders:
  assumes "schema_ok d" and "distinct (map ord_id t)" and "distinct (map ord_number t)"
    and "ord_id ` set (orders d) \<subseteq> ord_id ` set t"
    and "\<forall>r \<in> set t. ord_status r \<in> set order_statuses"
  shows "schema_ok (d\<lparr>orders := t\<rparr>)"
  using assms by (simp add: schema_defs) (meson subset_trans)

lemma schema_ok_order_items:
  assumes "schema_ok d" and "distinct (map it_id t)"
    and "it_order ` set t \<subseteq> ord_id ` set (orders d)"
    and "it_type ` set t \<subseteq> tt_id ` set (ticket_types d)"
    and "\<forall>r \<in> set t. int4_range (it_qty r)"
  shows "schema_ok (d\<lparr>order_items := t\<rparr>)"
  using assms by (simp add: schema_defs)

lemma schema_ok_attendees:
  assumes "schema_ok d" and "distinct (map at_id t)"
    and "at_order ` set t \<subseteq> ord_id ` set (orders d)"
    and "at_type ` set t \<subseteq> tt_id ` set (ticket_types d)"
    and "at_id ` set (attendees d) \<subseteq> at_id ` set t"
  shows "schema_ok (d\<lparr>attendees := t\<rparr>)"
  using assms by (simp add: schema_defs) (meson subset_trans)

lemma schema_ok_tickets:
  assumes "schema_ok d" and "distinct (map tk_id t)" and "distinct (map tk_code t)"
    and "tk_order ` set t \<subseteq> ord_id ` set (orders d)"
    and "tk_attendee ` set t \<subseteq> at_id ` set (attendees d)"
    and "\<forall>r \<in> set t. tk_status r \<in> set ticket_statuses"
  shows "schema_ok (d\<lparr>tickets := t\<rparr>)"
  using assms by (simp add: schema_defs)

lemma schema_ok_payments:
  assumes "schema_ok d" and "distinct (map pay_id t)"
    and "pay_order ` set t \<subseteq> ord_id ` set (orders d)"
  shows "schema_ok (d\<lparr>payments := t\<rparr>)"
  using assms by (simp add: schema_defs)

text \<open>Primary keys give at most one row for an identifier.\<close>

lemma schema_find_order:
  "schema_ok d \<Longrightarrow> r \<in> set (orders d) \<Longrightarrow> find (\<lambda>x. ord_id x = ord_id r) (orders d) = Some r"
  by (auto simp: schema_ok_def keys_ok_def intro: find_key_unique)

lemma schema_find_type:
  "schema_ok d \<Longrightarrow> r \<in> set (ticket_types d) \<Longrightarrow>
   find (\<lambda>x. tt_id x = tt_id r) (ticket_types d) = Some r"
  by (auto simp: schema_ok_def keys_ok_def intro: find_key_unique)

lemma schema_order_unique:
  "schema_ok d \<Longrightarrow> r \<in> set (orders d) \<Longrightarrow> r' \<in> set (orders d) \<Longrightarrow> ord_id r = ord_id r' \<Longrightarrow> r = r'"
  by (auto simp: schema_ok_def keys_ok_def dest: distinct_map_inj)

lemma schema_type_unique:
  "schema_ok d \<Longrightarrow> r \<in> set (ticket_types d) \<Longrightarrow> r' \<in> set (ticket_types d) \<Longrightarrow> tt_id r = tt_id r' \<Longrightarrow> r = r'"
  by (auto simp: schema_ok_def keys_ok_def dest: distinct_map_inj)

text \<open>The foreign keys onto orders and attendees.\<close>

lemma schema_refers:
  assumes "schema_ok d"
  shows "r \<in> set (order_items d) \<Longrightarrow> it_order r \<in> ord_id ` set (orders d)"
    and "a \<in> set (attendees d) \<Longrightarrow> at_order a \<in> ord_id ` set (orders d)"
    and "k \<in> set (tickets d) \<Longrightarrow> tk_order k \<in> ord_id ` set (orders d)"
    and "k \<in> set (tickets d) \<Longrightarrow> tk_attendee k \<in> at_id ` set (attendees d)"
    and "r \<in> set (order_items d) \<Longrightarrow> it_type r \<in> tt_id ` set (ticket_types d)"
  using assms by (simp_all add: schema_defs image_subset_iff)

section \<open>Derived quantities\<close>

text \<open>The remaining quota of a ticket type, the counter the checkout decrements.\<close>

definition quota_of :: "database \<Rightarrow> uuid \<Rightarrow> int option" where
  "quota_of d t = map_option tt_quota (find (\<lambda>r. tt_id r = t) (ticket_types d))"

definition order_status :: "database \<Rightarrow> uuid \<Rightarrow> string option" where
  "order_status d i = map_option ord_status (find (\<lambda>r. ord_id r = i) (orders d))"

text \<open>
  An order holds its seats while it is pending and once it is paid. \<open>held\<close> is the number of
  seats of a ticket type that such orders hold.
\<close>

definition holds_seats :: "database \<Rightarrow> uuid \<Rightarrow> bool" where
  "holds_seats d i = (order_status d i = Some OrderStatusPending \<or> order_status d i = Some OrderStatusPaid)"

definition held :: "database \<Rightarrow> uuid \<Rightarrow> int" where
  "held d t = sum_where (\<lambda>r. it_type r = t \<and> holds_seats d (it_order r)) it_qty (order_items d)"

text \<open>The seats of one ticket type on the lines of one order.\<close>

definition seats_of_order :: "database \<Rightarrow> uuid \<Rightarrow> uuid \<Rightarrow> int" where
  "seats_of_order d i t = sum_where (\<lambda>r. it_type r = t \<and> it_order r = i) it_qty (order_items d)"

text \<open>
  What deducting and restoring quota do to the database, the contract between the event and the
  order domain: the counter of one ticket type moves by \<open>delta\<close> and stays non-negative, and
  nothing else changes but the row's timestamp.
\<close>

definition catalogue :: "database \<Rightarrow> ticket_type_row list" where
  "catalogue d = map (\<lambda>r. r\<lparr>tt_quota := 0, tt_updated_at := None\<rparr>) (ticket_types d)"

definition quota_moved :: "uuid \<Rightarrow> int \<Rightarrow> database \<Rightarrow> database \<Rightarrow> bool" where
  "quota_moved t delta d d' \<longleftrightarrow>
     (\<exists>n. quota_of d t = Some n \<and> 0 \<le> n + delta \<and> quota_of d' = (quota_of d)(t \<mapsto> n + delta)) \<and>
     catalogue d' = catalogue d \<and> d' = d\<lparr>ticket_types := ticket_types d'\<rparr>"

lemma quota_of_row:
  "schema_ok d \<Longrightarrow> r \<in> set (ticket_types d) \<Longrightarrow> quota_of d (tt_id r) = Some (tt_quota r)"
  by (simp add: quota_of_def schema_find_type)

lemma quota_of_SomeD:
  "quota_of d t = Some n \<Longrightarrow> \<exists>r \<in> set (ticket_types d). tt_id r = t \<and> tt_quota r = n"
  by (auto simp: quota_of_def dest: find_SomeD)

lemma quota_of_NoneD: "quota_of d t = None \<Longrightarrow> r \<in> set (ticket_types d) \<Longrightarrow> tt_id r \<noteq> t"
  by (auto simp: quota_of_def dest: find_NoneD)

lemma quota_of_nonneg: "schema_ok d \<Longrightarrow> quota_of d t = Some n \<Longrightarrow> 0 \<le> n \<and> int4_range n"
  by (auto simp: schema_defs dest!: quota_of_SomeD)

lemma quota_of_update:
  assumes "schema_ok d" and "\<And>r. tt_id (f r) = tt_id r"
    and "r \<in> set (ticket_types d)" and "P r"
    and "\<And>x. x \<in> set (ticket_types d) \<Longrightarrow> P x \<Longrightarrow> tt_id x = tt_id r"
  shows "quota_of (d\<lparr>ticket_types := upd_where P f (ticket_types d)\<rparr>) =
    (quota_of d)(tt_id r \<mapsto> tt_quota (f r))"
proof -
  have find: "find (\<lambda>x. tt_id x = i) (upd_where P f t) =
      map_option (\<lambda>x. if P x then f x else x) (find (\<lambda>x. tt_id x = i) t)" for i t
    by (induction t) (auto simp: upd_where_def assms(2))
  show ?thesis
  proof (rule ext)
    fix i
    show "quota_of (d\<lparr>ticket_types := upd_where P f (ticket_types d)\<rparr>) i =
        ((quota_of d)(tt_id r \<mapsto> tt_quota (f r))) i"
    proof (cases "i = tt_id r")
      case True
      then show ?thesis
        using schema_find_type [OF assms(1,3)] assms(4) by (simp add: quota_of_def find)
    next
      case False
      have "\<not> P x" if "find (\<lambda>x. tt_id x = i) (ticket_types d) = Some x" for x
        using find_SomeD [OF that] assms(5) [of x] False by auto
      with False show ?thesis
        by (cases "find (\<lambda>x. tt_id x = i) (ticket_types d)") (auto simp: quota_of_def find)
    qed
  qed
qed

lemma catalogue_update:
  "(\<And>r. (f r)\<lparr>tt_quota := 0, tt_updated_at := None\<rparr> = r\<lparr>tt_quota := 0, tt_updated_at := None\<rparr>) \<Longrightarrow>
   catalogue (d\<lparr>ticket_types := upd_where P f (ticket_types d)\<rparr>) = catalogue d"
  by (simp add: catalogue_def map_upd_where)

end
