(* ===== verification/Runtime.thy ===== *)
theory Runtime
  imports Database "HOL-Library.Multiset"
begin

text \<open>
  The run of a Go function: it takes the world and returns its result, an error or a value,
  with the new world. Besides the database, the world holds what a handler reads from its
  surroundings, one oracle per source, indexed by a counter of the reads so that two reads may
  differ: whether a statement fails (\<open>faults\<close>), the clock, the random source and the UUIDs the
  database generates, and the order in which a query meets the rows of its table (\<open>scans\<close>).
  Nothing is assumed of them. It also records the log and the goroutines the payment service has
  started.

  \<open>InTx\<close> is \<open>pkg/db\<close>'s transaction helper. Statements are atomic; a \<open>COMMIT\<close> that fails has not
  committed. The row locks and guarded updates of PostgreSQL make most transactions of the code
  atomic too, although they run at its default level \<open>READ COMMITTED\<close>. For the transactions whose
  guard locks nothing, \<open>InTx_amid\<close> is the same helper with other transactions committing between the
  statements.

  The second half is the reasoning about all of this: the locale \<open>guarantee\<close> of reflexive,
  transitive relations between the database before and after an operation, with one rule per
  construct. Invariants and \<open>read-only\<close> are instances of it.
\<close>

section \<open>The world\<close>

record world =
  wdb :: database
  tick :: nat
  faults :: "nat \<Rightarrow> bool"
  clock :: "nat \<Rightarrow> gotime"
  entropy :: "nat \<Rightarrow> nat option"
  newid :: "nat \<Rightarrow> uuid"
  logs :: "(level \<times> string) list"
  fulfillment :: "uuid list"
  scans :: "nat \<Rightarrow> uuid \<Rightarrow> nat"

type_synonym 'a go = "world \<Rightarrow> (goerror + 'a) \<times> world"

type_synonym 'a sql = "uuid \<Rightarrow> gotime \<Rightarrow> database \<Rightarrow> goerror + 'a \<times> database"

section \<open>Sequencing\<close>

definition ret :: "'a \<Rightarrow> 'a go" where
  "ret x = (\<lambda>w. (Inr x, w))"

definition fail :: "goerror \<Rightarrow> 'a go" where
  "fail e = (\<lambda>w. (Inl e, w))"

text \<open>\<open>x, err := m; if err != nil { return h(err) }; k(x)\<close>, and the common case of \<open>return err\<close>.\<close>

definition handle :: "'a go \<Rightarrow> (goerror \<Rightarrow> 'b go) \<Rightarrow> ('a \<Rightarrow> 'b go) \<Rightarrow> 'b go" where
  "handle m h k = (\<lambda>w. case m w of (Inl e, w') \<Rightarrow> h e w' | (Inr x, w') \<Rightarrow> k x w')"

definition bind :: "'a go \<Rightarrow> ('a \<Rightarrow> 'b go) \<Rightarrow> 'b go" where
  "bind m k = handle m fail k"

text \<open>A call of a function that cannot touch the world.\<close>

definition lift :: "goerror + 'a \<Rightarrow> 'a go" where
  "lift v = (case v of Inl e \<Rightarrow> fail e | Inr x \<Rightarrow> ret x)"

text \<open>\<open>for _, x := range xs { if err := f(x); err != nil { return err } }\<close>, with a loop variable.\<close>

fun fold_each :: "'a list \<Rightarrow> ('s \<Rightarrow> 'a \<Rightarrow> 's go) \<Rightarrow> 's \<Rightarrow> 's go" where
  "fold_each [] f s = ret s"
| "fold_each (x # xs) f s = bind (f s x) (\<lambda>s'. fold_each xs f s')"

fun for_each :: "'a list \<Rightarrow> ('a \<Rightarrow> unit go) \<Rightarrow> unit go" where
  "for_each [] f = ret ()"
| "for_each (x # xs) f = bind (f x) (\<lambda>_. for_each xs f)"

section \<open>The surroundings\<close>

definition step_tick :: "world \<Rightarrow> world" where
  "step_tick w = w\<lparr>tick := Suc (tick w)\<rparr>"

definition now :: "gotime go" where
  "now = (\<lambda>w. (Inr (clock w (tick w)), step_tick w))"

text \<open>\<open>rand.Int(rand.Reader, max)\<close>: a number below \<open>max\<close>, or an error of the source.\<close>

definition rand_Int :: "nat \<Rightarrow> nat go" where
  "rand_Int mx = (\<lambda>w. case entropy w (tick w) of
      None \<Rightarrow> (Inl (DriverError ''entropy''), step_tick w)
    | Some n \<Rightarrow> (Inr (n mod mx), step_tick w))"

definition log :: "level \<Rightarrow> string \<Rightarrow> unit go" where
  "log l s = (\<lambda>w. (Inr (), w\<lparr>logs := logs w @ [(l, s)]\<rparr>))"

text \<open>\<open>s.fulfillment.Add(1); go func() { ... }()\<close>: the order whose goroutine was started.\<close>

definition spawn :: "uuid \<Rightarrow> unit go" where
  "spawn i = (\<lambda>w. (Inr (), w\<lparr>fulfillment := fulfillment w @ [i]\<rparr>))"

text \<open>
  One SQL statement. It fails for reasons of its own (no row, a violated constraint) or because
  the database is not reachable; either way it leaves the database as it was.
\<close>

definition stmt :: "'a sql \<Rightarrow> 'a go" where
  "stmt f = (\<lambda>w.
     if faults w (tick w) then (Inl (DriverError ''database''), step_tick w)
     else case f (newid w (tick w)) (clock w (tick w)) (wdb w) of
        Inl e \<Rightarrow> (Inl e, step_tick w)
      | Inr (x, d) \<Rightarrow> (Inr x, (step_tick w)\<lparr>wdb := d\<rparr>))"

definition query :: "(database \<Rightarrow> 'a) \<Rightarrow> 'a go" where
  "query q = stmt (\<lambda>_ _ d. Inr (q d, d))"

text \<open>
  A query that returns many rows meets those of its table in no particular order: \<open>ORDER BY\<close> sorts
  what it has met, and leaves ties as they came. A position for each row, by its primary key, says
  which order it is this time.
\<close>

type_synonym scan = "uuid \<Rightarrow> nat"

definition scanned :: "scan \<Rightarrow> ('r \<Rightarrow> uuid) \<Rightarrow> 'r list \<Rightarrow> 'r list" where
  "scanned s key t = sort_key (\<lambda>r. s (key r)) t"

definition query_rows :: "(scan \<Rightarrow> database \<Rightarrow> 'a) \<Rightarrow> 'a go" where
  "query_rows q = (\<lambda>w. query (q (scans w (tick w))) w)"

text \<open>\<open>QueryRow\<close>: \<open>pgx.ErrNoRows\<close> when there is no row.\<close>

definition query_row :: "(database \<Rightarrow> 'a option) \<Rightarrow> 'a go" where
  "query_row q = stmt (\<lambda>_ _ d. case q d of None \<Rightarrow> Inl ErrNoRows | Some x \<Rightarrow> Inr (x, d))"

section \<open>Transactions\<close>

definition begin_tx :: "unit go" where
  "begin_tx = (\<lambda>w.
     if faults w (tick w)
     then (Inl (Errorf (text_msg ''begin transaction: %w'') [DriverError ''database'']), step_tick w)
     else (Inr (), step_tick w))"

definition commit_tx :: "unit go" where
  "commit_tx = (\<lambda>w.
     if faults w (tick w)
     then (Inl (Errorf (text_msg ''commit transaction: %w'') [DriverError ''database'']), step_tick w)
     else (Inr (), step_tick w))"

text \<open>Rolling back puts the database back; clock, log and the other sources have moved on.\<close>

definition InTx :: "'a go \<Rightarrow> 'a go" where
  "InTx fn = (\<lambda>w.
     case begin_tx w of
       (Inl e, w1) \<Rightarrow> (Inl e, w1)
     | (Inr _, w1) \<Rightarrow>
        (case fn w1 of
           (Inl e, w2) \<Rightarrow> (Inl e, w2\<lparr>wdb := wdb w1\<rparr>)
         | (Inr x, w2) \<Rightarrow>
            (case commit_tx w2 of
               (Inl e, w3) \<Rightarrow> (Inl e, w3\<lparr>wdb := wdb w1\<rparr>)
             | (Inr _, w3) \<Rightarrow> (Inr x, w3))))"

text \<open>
  A transaction at \<open>READ COMMITTED\<close> with what others commit between its statements. It runs on its own
  view of the database, which holds its uncommitted writes, and next to it the database is kept as
  the others see it: what they commit reaches both, and rolling back leaves the second.
\<close>

type_synonym 'a tx = "database \<Rightarrow> world \<Rightarrow> (goerror + 'a) \<times> database \<times> world"

definition own :: "'a go \<Rightarrow> 'a tx" where
  "own m = (\<lambda>d w. case m w of (r, w') \<Rightarrow> (r, d, w'))"

definition others :: "(database \<Rightarrow> database) \<Rightarrow> unit tx" where
  "others F = (\<lambda>d w. (Inr (), F d, w\<lparr>wdb := F (wdb w)\<rparr>))"

definition tx_bind :: "'a tx \<Rightarrow> ('a \<Rightarrow> 'b tx) \<Rightarrow> 'b tx" where
  "tx_bind m k = (\<lambda>d w. case m d w of
      (Inl e, d', w') \<Rightarrow> (Inl e, d', w')
    | (Inr x, d', w') \<Rightarrow> k x d' w')"

definition InTx_amid :: "'a tx \<Rightarrow> 'a go" where
  "InTx_amid fn = (\<lambda>w.
     case begin_tx w of
       (Inl e, w1) \<Rightarrow> (Inl e, w1)
     | (Inr _, w1) \<Rightarrow>
        (case fn (wdb w1) w1 of
           (Inl e, d, w2) \<Rightarrow> (Inl e, w2\<lparr>wdb := d\<rparr>)
         | (Inr x, d, w2) \<Rightarrow>
            (case commit_tx w2 of
               (Inl e, w3) \<Rightarrow> (Inl e, w3\<lparr>wdb := d\<rparr>)
             | (Inr _, w3) \<Rightarrow> (Inr x, w3))))"

section \<open>Error wrapping of the repositories\<close>

text \<open>\<open>if err != nil { return fmt.Errorf("...: %w", err) }\<close>\<close>

definition wrapping :: "string \<Rightarrow> 'a go \<Rightarrow> 'a go" where
  "wrapping what m = handle m (\<lambda>err. fail (Errorf (text_msg what) [err])) ret"

text \<open>The same, with \<open>if errors.Is(err, pgx.ErrNoRows) { return sentinel }\<close> before it.\<close>

definition row_or :: "goerror \<Rightarrow> string \<Rightarrow> 'a go \<Rightarrow> 'a go" where
  "row_or sentinel what m =
     handle m
       (\<lambda>err. if errors_Is err ErrNoRows then fail sentinel else fail (Errorf (text_msg what) [err]))
       ret"

section \<open>Equations\<close>

lemma ret_run [simp]: "ret x w = (Inr x, w)"
  by (simp add: ret_def)

lemma fail_run [simp]: "fail e w = (Inl e, w)"
  by (simp add: fail_def)

lemma bind_run: "bind m k w = (case m w of (Inl e, w') \<Rightarrow> (Inl e, w') | (Inr x, w') \<Rightarrow> k x w')"
  by (simp add: bind_def handle_def split: prod.splits sum.splits)

lemma bind_Inr: "bind m k w = (Inr y, w') \<longleftrightarrow> (\<exists>x w1. m w = (Inr x, w1) \<and> k x w1 = (Inr y, w'))"
  by (auto simp: bind_run split: prod.splits sum.splits)

lemma bind_InrE:
  assumes "bind m k w = (Inr y, w')"
  obtains x w1 where "m w = (Inr x, w1)" and "k x w1 = (Inr y, w')"
  using assms by (auto simp: bind_Inr)

lemma wdb_step_tick [simp]: "wdb (step_tick w) = wdb w"
  by (simp add: step_tick_def)

lemma fulfillment_step_tick [simp]: "fulfillment (step_tick w) = fulfillment w"
  by (simp add: step_tick_def)

lemma log_run [simp]: "log l s w = (Inr (), w\<lparr>logs := logs w @ [(l, s)]\<rparr>)"
  by (simp add: log_def)

lemma bind_ret_unit [simp]: "bind m (\<lambda>_. ret ()) = m" for m :: "unit go"
  by (rule ext) (auto simp: bind_run split: prod.splits sum.splits)

lemma InTx_Inl: "InTx fn w = (Inl e, w') \<Longrightarrow> wdb w' = wdb w"
  by (auto simp: InTx_def begin_tx_def split: prod.splits sum.splits if_splits)

lemma InTx_Inr:
  assumes "InTx fn w = (Inr x, w')"
  obtains w1 w2 where "wdb w1 = wdb w" and "fulfillment w1 = fulfillment w"
    and "fn w1 = (Inr x, w2)" and "wdb w' = wdb w2" and "fulfillment w' = fulfillment w2"
proof -
  from assms obtain w2 where "fn (step_tick w) = (Inr x, w2)" and "w' = step_tick w2"
    by (auto simp: InTx_def begin_tx_def commit_tx_def split: prod.splits sum.splits if_splits)
  then show thesis by (intro that [of "step_tick w" w2]) simp_all
qed

text \<open>A transaction fails because its body does, or because it cannot be begun or committed.\<close>

lemma InTx_Inl_cases:
  assumes "InTx fn w = (Inl e, w')"
  obtains (unreachable) msg where "e = Errorf (text_msg msg) [DriverError ''database'']"
    | (body) w1 w2 where "wdb w1 = wdb w" and "fn w1 = (Inl e, w2)"
proof -
  from assms consider "\<exists>msg. e = Errorf (text_msg msg) [DriverError ''database'']"
    | w2 where "fn (step_tick w) = (Inl e, w2)"
    by (auto simp: InTx_def begin_tx_def commit_tx_def split: prod.splits sum.splits if_splits)
  then show thesis using that wdb_step_tick by cases blast+
qed

lemma stmt_Inr:
  assumes "stmt f w = (Inr x, w')"
  obtains i t where "f i t (wdb w) = Inr (x, wdb w')" and "fulfillment w' = fulfillment w"
  using assms by (auto simp: stmt_def split: if_splits sum.splits)

lemma stmt_Inl: "stmt f w = (Inl e, w') \<Longrightarrow> wdb w' = wdb w"
  by (auto simp: stmt_def split: if_splits sum.splits)

lemma query_Inr: "query q w = (Inr x, w') \<Longrightarrow> x = q (wdb w) \<and> wdb w' = wdb w"
  by (auto simp: query_def stmt_def split: if_splits)

lemma query_rows_Inr:
  "query_rows q w = (Inr x, w') \<Longrightarrow> \<exists>s. x = q s (wdb w) \<and> wdb w' = wdb w"
  by (auto simp: query_rows_def dest: query_Inr)

lemma query_row_Inr: "query_row q w = (Inr x, w') \<Longrightarrow> q (wdb w) = Some x \<and> wdb w' = wdb w"
  by (auto simp: query_row_def stmt_def split: if_splits option.splits)

lemma handle_Inr:
  "handle m h k w = (Inr y, w') \<longleftrightarrow>
   (\<exists>x w1. m w = (Inr x, w1) \<and> k x w1 = (Inr y, w')) \<or> (\<exists>e w1. m w = (Inl e, w1) \<and> h e w1 = (Inr y, w'))"
  by (auto simp: handle_def split: prod.splits sum.splits)

lemma wrapping_Inr [simp]: "wrapping what m w = (Inr x, w') \<longleftrightarrow> m w = (Inr x, w')"
  by (auto simp: wrapping_def handle_def split: prod.splits sum.splits)

lemma row_or_Inr [simp]: "row_or sentinel what m w = (Inr x, w') \<longleftrightarrow> m w = (Inr x, w')"
  by (auto simp: row_or_def handle_def split: prod.splits sum.splits)

lemma wrapping_Inl:
  "wrapping what m w = (Inl e, w') \<longleftrightarrow> (\<exists>e'. m w = (Inl e', w') \<and> e = Errorf (text_msg what) [e'])"
  by (auto simp: wrapping_def handle_def split: prod.splits sum.splits)

lemma row_or_Inl:
  "row_or sentinel what m w = (Inl e, w') \<longleftrightarrow>
   (\<exists>e'. m w = (Inl e', w') \<and> e = (if errors_Is e' ErrNoRows then sentinel else Errorf (text_msg what) [e']))"
  by (auto simp: row_or_def handle_def split: prod.splits sum.splits)

lemma bind_Inl:
  "bind m k w = (Inl e, w') \<longleftrightarrow>
   m w = (Inl e, w') \<or> (\<exists>x w1. m w = (Inr x, w1) \<and> k x w1 = (Inl e, w'))"
  by (auto simp: bind_run split: prod.splits sum.splits)

text \<open>Why a statement fails: the database cannot be reached, or the statement's own answer.\<close>

lemma stmt_Inl_cases:
  assumes "stmt f w = (Inl e, w')"
  obtains (unreachable) "e = DriverError ''database''"
    | (refused) i t where "f i t (wdb w) = Inl e"
  using assms by (auto simp: stmt_def split: if_splits sum.splits)

lemma stmt_refused:
  "stmt f w = (Inl e, w') \<Longrightarrow> wdb w' = wdb w \<and> (e = DriverError ''database'' \<or> (\<exists>i t. f i t (wdb w) = Inl e))"
  by (auto simp: stmt_def split: if_splits sum.splits)

lemma query_run:
  "query q w = (if faults w (tick w) then (Inl (DriverError ''database''), step_tick w)
                else (Inr (q (wdb w)), step_tick w))"
  by (simp add: query_def stmt_def step_tick_def)

lemma query_rows_run:
  "query_rows q w = (if faults w (tick w) then (Inl (DriverError ''database''), step_tick w)
                     else (Inr (q (scans w (tick w)) (wdb w)), step_tick w))"
  by (simp add: query_rows_def query_run)

lemma query_row_Inl:
  "query_row q w = (Inl e, w') \<Longrightarrow> e = DriverError ''database'' \<or> e = ErrNoRows \<and> q (wdb w) = None"
  by (auto simp: query_row_def stmt_def split: if_splits option.splits)

section \<open>The rows a scan meets\<close>

lemma mset_scanned [simp]: "mset (scanned s key t) = mset t"
  by (simp add: scanned_def)

lemma set_scanned [simp]: "set (scanned s key t) = set t"
  by (simp add: scanned_def)

lemma scanned_Nil [simp]: "scanned s key t = [] \<longleftrightarrow> t = []"
  by (metis mset_scanned mset_zero_iff)

lemma distinct_map_mset: "mset xs = mset ys \<Longrightarrow> distinct (map f xs) = distinct (map f ys)"
  by (metis mset_eq_imp_distinct_iff mset_map)

lemma distinct_scanned [simp]: "distinct (map f (scanned s key t)) = distinct (map f t)"
  by (rule distinct_map_mset) simp

section \<open>Transactions amid others\<close>

lemma InTx_amid_own: "InTx_amid (own m) = InTx m"
  by (rule ext) (auto simp: InTx_amid_def own_def InTx_def begin_tx_def commit_tx_def
      split: prod.splits sum.splits if_splits)

lemma tx_bind_own: "tx_bind (own m) (\<lambda>x. own (k x)) = own (bind m k)"
  by (intro ext) (auto simp: tx_bind_def own_def bind_run split: prod.splits sum.splits)

lemma others_none [simp]: "tx_bind (others (\<lambda>d. d)) k = k ()"
  by (intro ext) (simp add: tx_bind_def others_def)

lemma others_then [simp]: "tx_bind (others F) k d w = k () (F d) (w\<lparr>wdb := F (wdb w)\<rparr>)"
  by (simp add: tx_bind_def others_def)

lemma own_then:
  "tx_bind (own m) k d w = (case m w of (Inl e, w') \<Rightarrow> (Inl e, d, w') | (Inr x, w') \<Rightarrow> k x d w')"
  by (simp add: tx_bind_def own_def split: prod.split sum.split)

lemma tx_bind_cases:
  assumes "tx_bind m k d w = (r, d', w')"
  obtains (fails) e where "m d w = (Inl e, d', w')" "r = Inl e"
    | (goes_on) x d1 w1 where "m d w = (Inr x, d1, w1)" "k x d1 w1 = (r, d', w')"
  using assms by (auto simp: tx_bind_def split: prod.splits sum.splits)

lemma own_run: "own m d w = (r, d', w') \<longleftrightarrow> m w = (r, w') \<and> d' = d"
  by (auto simp: own_def split: prod.splits)

text \<open>Such a transaction commits its view, or fails and leaves what the others have made.\<close>

lemma InTx_amid_cases:
  assumes "InTx_amid fn w = (r, w')"
  obtains (unbegun) msg where "r = Inl (Errorf (text_msg msg) [DriverError ''database''])" "wdb w' = wdb w"
    | (failed) e w1 w2 where "fn (wdb w) w1 = (Inl e, wdb w', w2)" "wdb w1 = wdb w" "r = Inl e"
    | (uncommitted) msg x w1 w2 where "fn (wdb w) w1 = (Inr x, wdb w', w2)" "wdb w1 = wdb w"
        "r = Inl (Errorf (text_msg msg) [DriverError ''database''])"
    | (committed) x d w1 w2 where "fn (wdb w) w1 = (Inr x, d, w2)" "wdb w1 = wdb w" "r = Inr x" "wdb w' = wdb w2"
proof -
  have start: "wdb (step_tick w) = wdb w" by simp
  obtain q d w2 where body: "fn (wdb w) (step_tick w) = (q, d, w2)" by (metis prod_cases3)
  show thesis
  proof (cases "faults w (tick w)")
    case True
    with assms unbegun show ?thesis by (auto simp: InTx_amid_def begin_tx_def)
  next
    case False
    show ?thesis
    proof (cases q)
      case (Inl e)
      with assms False body have "wdb w' = d" "r = Inl e" by (auto simp: InTx_amid_def begin_tx_def)
      with failed body start Inl show ?thesis by metis
    next
      case (Inr x)
      show ?thesis
      proof (cases "faults w2 (tick w2)")
        case True
        with assms False body Inr have "wdb w' = d"
          "r = Inl (Errorf (text_msg ''commit transaction: %w'') [DriverError ''database''])"
          by (auto simp: InTx_amid_def begin_tx_def commit_tx_def)
        with uncommitted body start Inr show ?thesis by metis
      next
        case no_fault: False
        with assms False body Inr have "wdb w' = wdb w2" "r = Inr x"
          by (auto simp: InTx_amid_def begin_tx_def commit_tx_def)
        with committed body start Inr show ?thesis by metis
      qed
    qed
  qed
qed

section \<open>Loops\<close>

text \<open>A loop that returns has kept an invariant that speaks of the elements it has done.\<close>

lemma fold_each_invariant:
  assumes "fold_each xs f s w = (Inr s', w')" and "P [] s w"
    and "\<And>xs x s w s' w'. P xs s w \<Longrightarrow> f s x w = (Inr s', w') \<Longrightarrow> P (xs @ [x]) s' w'"
  shows "P xs s' w'"
proof -
  have "P (ys @ xs) s' w'" if "P ys s w" for ys
    using assms(1) that
  proof (induction xs arbitrary: ys s w)
    case (Cons x xs)
    then obtain s1 w1 where "f s x w = (Inr s1, w1)" "fold_each xs f s1 w1 = (Inr s', w')"
      by (auto simp: bind_Inr)
    with Cons assms(3) [of ys s w x s1 w1] show ?case by fastforce
  qed simp
  from this [of "[]"] assms(2) show ?thesis by simp
qed

lemma for_each_invariant:
  assumes "for_each xs f w = (Inr u, w')" and "P [] w"
    and "\<And>xs x w u w'. P xs w \<Longrightarrow> f x w = (Inr u, w') \<Longrightarrow> P (xs @ [x]) w'"
  shows "P xs w'"
proof -
  have "P (ys @ xs) w'" if "P ys w" for ys
    using assms(1) that
  proof (induction xs arbitrary: ys w)
    case (Cons x xs)
    then obtain w1 where "f x w = (Inr (), w1)" "for_each xs f w1 = (Inr u, w')"
      by (auto simp: bind_Inr)
    with Cons assms(3) [of ys w x "()" w1] show ?case by fastforce
  qed simp
  from this [of "[]"] assms(2) show ?thesis by simp
qed

section \<open>Operations that start no goroutine\<close>

definition quiet :: "'a go \<Rightarrow> bool" where
  "quiet m \<longleftrightarrow> (\<forall>w. fulfillment (snd (m w)) = fulfillment w)"

lemma quietD: "quiet m \<Longrightarrow> m w = (r, w') \<Longrightarrow> fulfillment w' = fulfillment w"
  by (metis quiet_def snd_conv)

lemma quietI: "(\<And>w r w'. m w = (r, w') \<Longrightarrow> fulfillment w' = fulfillment w) \<Longrightarrow> quiet m"
  by (metis quiet_def prod.collapse)

lemma quiet_simple [quiet_intros]:
  "quiet (ret x)" "quiet (fail e)" "quiet now" "quiet (rand_Int n)" "quiet (log l s)" "quiet (stmt f)"
  "quiet (query q)" "quiet (query_row r)" "quiet (query_rows p)"
  by (auto simp: quiet_def now_def rand_Int_def stmt_def query_def query_row_def query_rows_def step_tick_def
      split: option.split sum.split)

lemma quiet_handle [quiet_intros]:
  assumes "quiet m" and "\<And>e. quiet (h e)" and "\<And>x. quiet (k x)"
  shows "quiet (handle m h k)"
proof (rule quietI)
  fix w r w'
  assume run: "handle m h k w = (r, w')"
  obtain q w1 where m: "m w = (q, w1)" by fastforce
  then have "fulfillment w1 = fulfillment w" using assms(1) by (rule quietD [rotated])
  then show "fulfillment w' = fulfillment w"
    using run m by (cases q) (auto simp: handle_def dest!: quietD [OF assms(2)] quietD [OF assms(3)])
qed

lemma quiet_bind [quiet_intros]: "quiet m \<Longrightarrow> (\<And>x. quiet (k x)) \<Longrightarrow> quiet (bind m k)"
  by (simp add: bind_def quiet_intros)

lemma quiet_wrapping [quiet_intros]: "quiet m \<Longrightarrow> quiet (wrapping what m)"
  by (simp add: wrapping_def quiet_intros)

lemma quiet_row_or [quiet_intros]: "quiet m \<Longrightarrow> quiet (row_or sentinel what m)"
  by (simp add: row_or_def quiet_intros)

lemma quiet_fold_each [quiet_intros]: "(\<And>s x. quiet (f s x)) \<Longrightarrow> quiet (fold_each xs f s)"
  by (induction xs arbitrary: s) (auto intro: quiet_intros)

lemma quiet_for_each [quiet_intros]: "(\<And>x. quiet (f x)) \<Longrightarrow> quiet (for_each xs f)"
  by (induction xs) (auto intro: quiet_intros)

lemma quiet_InTx [quiet_intros]:
  assumes "quiet fn"
  shows "quiet (InTx fn)"
proof (rule quietI)
  fix w r w'
  assume run: "InTx fn w = (r, w')"
  obtain q w1 where "fn (step_tick w) = (q, w1)" by fastforce
  moreover from this assms have "fulfillment w1 = fulfillment w" by (auto dest: quietD)
  ultimately show "fulfillment w' = fulfillment w"
    using run by (cases q) (auto simp: InTx_def begin_tx_def commit_tx_def split: if_splits)
qed

lemma quiet_if [quiet_intros]: "quiet a \<Longrightarrow> quiet b \<Longrightarrow> quiet (if c then a else b)"
  by simp

lemma quiet_option [quiet_intros]:
  "quiet a \<Longrightarrow> (\<And>x. quiet (b x)) \<Longrightarrow> quiet (case v of None \<Rightarrow> a | Some x \<Rightarrow> b x)"
  by (cases v) auto

lemma quiet_sum [quiet_intros]:
  "(\<And>e. quiet (a e)) \<Longrightarrow> (\<And>x. quiet (b x)) \<Longrightarrow> quiet (case v of Inl e \<Rightarrow> a e | Inr x \<Rightarrow> b x)"
  by (cases v) auto

lemma quiet_lift [quiet_intros]: "quiet (lift v)"
  by (auto simp: lift_def intro: quiet_intros split: sum.split)

lemma lift_run [simp]: "lift (Inl e) w = (Inl e, w)" "lift (Inr x) w = (Inr x, w)"
  by (simp_all add: lift_def)

section \<open>Guarantees\<close>

definition ensures :: "(database \<Rightarrow> database \<Rightarrow> bool) \<Rightarrow> 'a go \<Rightarrow> bool" where
  "ensures G m \<longleftrightarrow> (\<forall>w. G (wdb w) (wdb (snd (m w))))"

lemma ensuresD: "ensures G m \<Longrightarrow> m w = (r, w') \<Longrightarrow> G (wdb w) (wdb w')"
  by (metis ensures_def snd_conv)

lemma ensuresI: "(\<And>w r w'. m w = (r, w') \<Longrightarrow> G (wdb w) (wdb w')) \<Longrightarrow> ensures G m"
  by (metis ensures_def prod.collapse)

text \<open>
  The contract of a relation that operations may guarantee: it lets an operation do nothing and
  follow one guaranteed step by another. Everything built from guaranteed statements then
  guarantees it, transactions included, since rolling back is doing nothing.
\<close>

locale guarantee =
  fixes G :: "database \<Rightarrow> database \<Rightarrow> bool"
  assumes G_refl: "G d d"
    and G_trans: "G a b \<Longrightarrow> G b c \<Longrightarrow> G a c"
begin

lemma ensures_ret: "ensures G (ret x)"
  by (simp add: ensures_def G_refl)

lemma ensures_fail: "ensures G (fail e)"
  by (simp add: ensures_def G_refl)

lemma ensures_handle:
  assumes "ensures G m" and "\<And>e. ensures G (h e)" and "\<And>x. ensures G (k x)"
  shows "ensures G (handle m h k)"
proof (rule ensuresI)
  fix w r w'
  assume run: "handle m h k w = (r, w')"
  obtain q w1 where m: "m w = (q, w1)" by fastforce
  then have "G (wdb w) (wdb w1)" using assms(1) by (auto dest: ensuresD)
  moreover have "G (wdb w1) (wdb w')"
    using run m assms(2,3) by (cases q) (auto simp: handle_def dest: ensuresD)
  ultimately show "G (wdb w) (wdb w')" by (rule G_trans)
qed

lemma ensures_bind: "ensures G m \<Longrightarrow> (\<And>x. ensures G (k x)) \<Longrightarrow> ensures G (bind m k)"
  by (simp add: bind_def ensures_handle ensures_fail)

lemma ensures_now: "ensures G now"
  by (simp add: ensures_def now_def G_refl)

lemma ensures_rand_Int: "ensures G (rand_Int n)"
  by (simp add: ensures_def rand_Int_def G_refl split: option.split)

lemma ensures_log: "ensures G (log l s)"
  by (simp add: ensures_def G_refl)

lemma ensures_spawn: "ensures G (spawn i)"
  by (simp add: ensures_def spawn_def G_refl)

lemma ensures_stmt:
  assumes "\<And>i t d x d'. f i t d = Inr (x, d') \<Longrightarrow> G d d'"
  shows "ensures G (stmt f)"
  by (rule ensuresI) (auto simp: stmt_def G_refl assms split: if_splits sum.splits)

lemma ensures_query: "ensures G (query q)"
  by (auto simp: query_def G_refl intro: ensures_stmt)

lemma ensures_query_rows: "ensures G (query_rows q)"
  by (simp add: ensures_def query_rows_run G_refl)

lemma ensures_query_row: "ensures G (query_row q)"
  by (auto simp: query_row_def G_refl split: option.splits intro: ensures_stmt)

lemma ensures_fold_each: "(\<And>s x. ensures G (f s x)) \<Longrightarrow> ensures G (fold_each xs f s)"
  by (induction xs arbitrary: s) (auto intro: ensures_ret ensures_bind)

lemma ensures_for_each: "(\<And>x. ensures G (f x)) \<Longrightarrow> ensures G (for_each xs f)"
  by (induction xs) (auto intro: ensures_ret ensures_bind)

lemma ensures_InTx:
  assumes "ensures G fn"
  shows "ensures G (InTx fn)"
proof (rule ensuresI)
  fix w r w'
  assume run: "InTx fn w = (r, w')"
  show "G (wdb w) (wdb w')"
  proof (cases r)
    case (Inl e)
    with run show ?thesis by (simp add: InTx_Inl G_refl)
  next
    case (Inr x)
    with run obtain w1 w2 where "wdb w1 = wdb w" "fn w1 = (Inr x, w2)" "wdb w' = wdb w2"
      by (auto elim: InTx_Inr)
    with assms show ?thesis by (metis ensuresD)
  qed
qed

text \<open>A transaction only has to guarantee the relation when its body succeeds.\<close>

lemma ensures_InTx_success:
  assumes "\<And>w x w'. fn w = (Inr x, w') \<Longrightarrow> G (wdb w) (wdb w')"
  shows "ensures G (InTx fn)"
proof (rule ensuresI)
  fix w r w'
  assume run: "InTx fn w = (r, w')"
  show "G (wdb w) (wdb w')"
  proof (cases r)
    case (Inl e)
    with run show ?thesis by (simp add: InTx_Inl G_refl)
  next
    case (Inr x)
    with run obtain w1 w2 where "wdb w1 = wdb w" "fn w1 = (Inr x, w2)" "wdb w' = wdb w2"
      by (auto elim: InTx_Inr)
    with assms show ?thesis by metis
  qed
qed

lemma ensures_wrapping: "ensures G m \<Longrightarrow> ensures G (wrapping what m)"
  by (simp add: wrapping_def ensures_handle ensures_fail ensures_ret)

lemma ensures_row_or: "ensures G m \<Longrightarrow> ensures G (row_or sentinel what m)"
  by (auto simp: row_or_def intro!: ensures_handle ensures_fail ensures_ret)

lemma ensures_if:
  "(c \<Longrightarrow> ensures G a) \<Longrightarrow> (\<not> c \<Longrightarrow> ensures G b) \<Longrightarrow> ensures G (if c then a else b)"
  by simp

lemma ensures_option:
  "ensures G a \<Longrightarrow> (\<And>x. ensures G (b x)) \<Longrightarrow> ensures G (case v of None \<Rightarrow> a | Some x \<Rightarrow> b x)"
  by (cases v) auto

lemma ensures_sum:
  "(\<And>e. ensures G (a e)) \<Longrightarrow> (\<And>x. ensures G (b x)) \<Longrightarrow>
   ensures G (case v of Inl e \<Rightarrow> a e | Inr x \<Rightarrow> b x)"
  by (cases v) auto

lemma ensures_lift: "ensures G (lift v)"
  by (auto simp: lift_def intro: ensures_ret ensures_fail split: sum.split)

lemmas ensures_rules = ensures_ret ensures_fail ensures_handle ensures_bind ensures_now
  ensures_rand_Int ensures_log ensures_spawn ensures_query ensures_query_row ensures_query_rows
  ensures_fold_each ensures_for_each ensures_InTx ensures_wrapping ensures_row_or
  ensures_if ensures_option ensures_sum ensures_lift

end

subsection \<open>Reading only\<close>

interpretation ro: guarantee "\<lambda>d d'. d' = d"
  by unfold_locales auto

abbreviation readonly :: "'a go \<Rightarrow> bool" where
  "readonly m \<equiv> ensures (\<lambda>d d'. d' = d) m"

lemmas [readonly_intros] = ro.ensures_rules

lemma readonlyD: "readonly m \<Longrightarrow> m w = (r, w') \<Longrightarrow> wdb w' = wdb w"
  by (auto dest: ensuresD)

subsection \<open>Invariants\<close>

definition kept :: "(database \<Rightarrow> bool) \<Rightarrow> database \<Rightarrow> database \<Rightarrow> bool" where
  "kept I d d' \<longleftrightarrow> (I d \<longrightarrow> I d')"

interpretation inv: guarantee "kept I" for I
  by unfold_locales (auto simp: kept_def)

lemmas [keeps_intros] = inv.ensures_rules

lemma ensures_kept_D: "ensures (kept I) m \<Longrightarrow> m w = (r, w') \<Longrightarrow> I (wdb w) \<Longrightarrow> I (wdb w')"
  by (auto simp: kept_def dest: ensuresD)

lemma readonly_kept: "readonly m \<Longrightarrow> ensures (kept I) m"
  by (auto simp: ensures_def kept_def)

end
