(* ===== verification/Codes.thy ===== *)
theory Codes
  imports Runtime
begin

text \<open>
  Random codes: \<open>pkg/randcode\<close>, the order numbers of \<open>internal/order/order_number.go\<close> and the
  ticket codes of \<open>internal/ticket/normalize.go\<close>, with the two pieces of the standard library
  they use, decimal digits and the calendar date of an instant.
\<close>

section \<open>Package randcode\<close>

definition Alphabet :: string where
  "Alphabet = ''23456789ABCDEFGHJKLMNPQRSTUVWXYZ''"

text \<open>The loop of \<open>New\<close>; \<open>sb\<close> is the string builder.\<close>

fun randcode_loop :: "nat \<Rightarrow> string \<Rightarrow> string go" where
  "randcode_loop 0 sb = ret sb"
| "randcode_loop (Suc n) sb =
     handle (rand_Int (length Alphabet))
       (\<lambda>_. fail (Sentinel ''randcode: no entropy available''))
       (\<lambda>i. randcode_loop n (sb @ [Alphabet ! i]))"

definition randcode_New :: "int \<Rightarrow> string go" where
  "randcode_New len =
     (if len \<le> 0 then fail (Sentinel ''randcode: length must be positive'')
      else randcode_loop (nat len) [])"

lemma length_Alphabet: "length Alphabet = 32"
  by (simp add: Alphabet_def)

lemma distinct_Alphabet: "distinct Alphabet"
  by (simp add: Alphabet_def)

lemma Alphabet_unambiguous: "set Alphabet \<inter> {CHR ''I'', CHR ''O'', CHR ''0'', CHR ''1''} = {}"
  by (simp add: Alphabet_def)

lemma randcode_loop_result:
  "randcode_loop n sb w = (Inr s, w') \<Longrightarrow>
   \<exists>c. s = sb @ c \<and> length c = n \<and> set c \<subseteq> set Alphabet"
proof (induction n arbitrary: sb w)
  case 0
  then show ?case by simp
next
  case (Suc n)
  then obtain i w1 where i: "rand_Int (length Alphabet) w = (Inr i, w1)"
    and rest: "randcode_loop n (sb @ [Alphabet ! i]) w1 = (Inr s, w')"
    by (auto simp: handle_def split: prod.splits sum.splits)
  from i have "i < length Alphabet"
    by (auto simp: rand_Int_def length_Alphabet split: option.splits)
  moreover from Suc.IH [OF rest] obtain c where
    "s = (sb @ [Alphabet ! i]) @ c" "length c = n" "set c \<subseteq> set Alphabet" by auto
  ultimately show ?case by (intro exI [of _ "Alphabet ! i # c"]) auto
qed

lemma randcode_New_result:
  "randcode_New len w = (Inr s, w') \<Longrightarrow> 0 < len \<and> length s = nat len \<and> set s \<subseteq> set Alphabet"
  by (fastforce simp: randcode_New_def dest: randcode_loop_result split: if_splits)

lemma readonly_randcode_loop: "readonly (randcode_loop n sb)"
  by (induction n arbitrary: sb) (auto intro!: readonly_intros)

lemma readonly_randcode_New [readonly_intros]: "readonly (randcode_New len)"
  by (auto simp: randcode_New_def intro: readonly_randcode_loop readonly_intros)

lemma quiet_randcode_loop: "quiet (randcode_loop n sb)"
  by (induction n arbitrary: sb) (auto intro!: quiet_intros)

lemma quiet_randcode_New [quiet_intros]: "quiet (randcode_New len)"
  by (auto simp: randcode_New_def intro: quiet_randcode_loop quiet_intros)

section \<open>Decimal digits and dates\<close>

fun decimal_digits :: "nat \<Rightarrow> string" where
  "decimal_digits n =
     (if n < 10 then [char_of (48 + n)] else decimal_digits (n div 10) @ [char_of (48 + n mod 10)])"

declare decimal_digits.simps [simp del]

text \<open>\<open>%0*d\<close> of a number that is not negative.\<close>

definition pad_zero :: "nat \<Rightarrow> string \<Rightarrow> string" where
  "pad_zero k s = replicate (k - length s) CHR ''0'' @ s"

text \<open>
  The date of an instant in UTC, in the proleptic Gregorian calendar, the way package \<open>time\<close>
  computes it: the days since 1 January of year 1 are split into cycles of 400, 100 and 4 years
  and single years (the last of 4 centuries and the last of 4 years are one day longer), and the
  day of the year into months.
\<close>

definition is_leap :: "int \<Rightarrow> bool" where
  "is_leap y \<longleftrightarrow> y mod 4 = 0 \<and> (y mod 100 \<noteq> 0 \<or> y mod 400 = 0)"

definition year_day :: "int \<Rightarrow> int \<times> int" where
  "year_day days =
     (let n400 = days div 146097; d400 = days mod 146097;
          n100 = d400 div 36524 - d400 div 36524 div 4; d100 = d400 - 36524 * n100;
          n4 = d100 div 1461; d4 = d100 mod 1461;
          n1 = d4 div 365 - d4 div 365 div 4
      in (400 * n400 + 100 * n100 + 4 * n4 + n1 + 1, d4 - 365 * n1))"

fun month_day :: "int list \<Rightarrow> int \<Rightarrow> int \<Rightarrow> int \<times> int" where
  "month_day [] m day = (m, day + 1)"
| "month_day (l # ls) m day = (if day < l then (m, day + 1) else month_day ls (m + 1) (day - l))"

definition civil_date :: "gotime \<Rightarrow> int \<times> int \<times> int" where
  "civil_date t =
     (case year_day (t div (86400 * 1000000000)) of (y, yday) \<Rightarrow>
        (y, month_day [31, if is_leap y then 29 else 28, 31, 30, 31, 30, 31, 31, 30, 31, 30] 1 yday))"

text \<open>\<open>at.UTC().Format("20060102")\<close>.\<close>

definition format_yyyymmdd :: "gotime \<Rightarrow> string" where
  "format_yyyymmdd t =
     (case civil_date t of (y, m, d) \<Rightarrow>
        pad_zero 4 (decimal_digits (nat y)) @ pad_zero 2 (decimal_digits (nat m)) @
        pad_zero 2 (decimal_digits (nat d)))"

text \<open>Printing a number loses nothing: reading its digits gives it back.\<close>

definition digits_value :: "string \<Rightarrow> nat" where
  "digits_value s = foldl (\<lambda>n c. 10 * n + (of_char c - 48)) 0 s"

lemma digits_value_snoc: "digits_value (s @ [c]) = 10 * digits_value s + (of_char c - 48)"
  by (simp add: digits_value_def)

lemma digits_value_decimal_digits [simp]: "digits_value (decimal_digits n) = n"
proof (induction n rule: decimal_digits.induct)
  case (1 n)
  show ?case
  proof (cases "n < 10")
    case True
    then show ?thesis by (simp add: decimal_digits.simps [of n] digits_value_def)
  next
    case False
    then show ?thesis using 1 by (subst decimal_digits.simps) (simp add: digits_value_snoc)
  qed
qed

lemma decimal_digits_inject [simp]: "decimal_digits m = decimal_digits n \<longleftrightarrow> m = n"
  by (metis digits_value_decimal_digits)

lemma decimal_digits_range: "c \<in> set (decimal_digits n) \<Longrightarrow> (48::nat) \<le> of_char c \<and> of_char c < (58::nat)"
proof (induction n rule: decimal_digits.induct)
  case (1 n)
  then show ?case by (cases "n < 10") (auto simp: decimal_digits.simps [of n])
qed

lemma length_decimal_digits: "n < 10 ^ k \<Longrightarrow> 0 < k \<Longrightarrow> length (decimal_digits n) \<le> k"
proof (induction n arbitrary: k rule: decimal_digits.induct)
  case (1 n)
  show ?case
  proof (cases "n < 10")
    case True
    with "1.prems" show ?thesis by (simp add: decimal_digits.simps)
  next
    case False
    with "1.prems" obtain j where k: "k = Suc j" "0 < j"
      by (cases k; cases "k - 1") auto
    then have "n div 10 < 10 ^ j" using "1.prems" by auto
    with "1.IH" False k show ?thesis by (subst decimal_digits.simps) auto
  qed
qed

lemma length_pad_zero: "length s \<le> k \<Longrightarrow> length (pad_zero k s) = k"
  by (simp add: pad_zero_def)

lemma year_day_range: "year_day n = (y, yday) \<Longrightarrow> 0 \<le> yday \<and> yday \<le> 365"
proof -
  assume run: "year_day n = (y, yday)"
  define d400 where "d400 = n mod 146097"
  define n100 where "n100 = d400 div 36524 - d400 div 36524 div 4"
  define d4 where "d4 = (d400 - 36524 * n100) mod 1461"
  define q where "q = d4 div 365"
  have "0 \<le> d4" "d4 < 1461" by (simp_all add: d4_def)
  have "d4 = 365 * q + d4 mod 365" unfolding q_def by (rule mult_div_mod_eq [symmetric])
  moreover have "0 \<le> d4 mod 365" by (rule pos_mod_sign) simp
  moreover have "d4 mod 365 < 365" by (rule pos_mod_bound) simp
  ultimately have "365 * q \<le> d4" "d4 < 365 * q + 365" by linarith+
  with \<open>0 \<le> d4\<close> \<open>d4 < 1461\<close> have q: "0 \<le> q" "q \<le> 4" by linarith+
  have "yday = d4 - 365 * (q - q div 4)"
    using run unfolding year_day_def Let_def d400_def [symmetric] n100_def [symmetric]
      d4_def [symmetric] q_def [symmetric] by (rule Pair_inject) (rule sym)
  moreover have "q div 4 = (if q = 4 then 1 else 0)" using q by simp
  ultimately show ?thesis
    using \<open>365 * q \<le> d4\<close> \<open>d4 < 365 * q + 365\<close> \<open>d4 < 1461\<close> by (cases "q = 4") auto
qed

lemma month_day_range:
  "month_day ls m day = (m', d) \<Longrightarrow> 0 \<le> day \<Longrightarrow> day \<le> sum_list ls + 31 \<Longrightarrow>
   \<forall>l \<in> set ls. l \<le> 31 \<Longrightarrow> m \<le> m' \<and> m' \<le> m + int (length ls) \<and> 1 \<le> d \<and> d \<le> 32"
  by (induction ls arbitrary: m day) (fastforce split: if_splits)+

lemma civil_date_month_day:
  assumes "civil_date t = (y, m, d)"
  shows "1 \<le> m \<and> m \<le> 12 \<and> 1 \<le> d \<and> d \<le> 32"
proof -
  obtain yday where yd: "year_day (t div (86400 * 1000000000)) = (y, yday)"
    and md: "month_day [31, if is_leap y then 29 else 28, 31, 30, 31, 30, 31, 31, 30, 31, 30] 1 yday = (m, d)"
    using assms by (auto simp: civil_date_def split: prod.splits)
  from year_day_range [OF yd] have "0 \<le> yday" "yday \<le> 365" by auto
  with month_day_range [OF md] show ?thesis by simp
qed

lemma length_format_yyyymmdd:
  assumes "civil_date t = (y, m, d)" and "0 \<le> y" and "y < 10000"
  shows "length (format_yyyymmdd t) = 8"
proof -
  from civil_date_month_day [OF assms(1)] have "nat m < 10 ^ 2" "nat d < 10 ^ 2" by auto
  moreover from assms(3) have "nat y < 10 ^ 4" by auto
  ultimately show ?thesis
    by (simp add: format_yyyymmdd_def assms(1) length_pad_zero length_decimal_digits)
qed

section \<open>Order numbers and ticket codes\<close>

abbreviation orderNumberSuffixLength :: int where
  "orderNumberSuffixLength \<equiv> 6"

definition GenerateOrderNumber :: "gotime \<Rightarrow> string go" where
  "GenerateOrderNumber t =
     handle (randcode_New orderNumberSuffixLength)
       (\<lambda>err. fail (Errorf (text_msg ''generate order number: %w'') [err]))
       (\<lambda>suffix. ret (''ORD-'' @ format_yyyymmdd t @ ''-'' @ suffix))"

abbreviation CodeLength :: int where
  "CodeLength \<equiv> 10"

definition NormalizeCode :: "(string \<Rightarrow> string) \<Rightarrow> string \<Rightarrow> string" where
  "NormalizeCode uc input = ToUpper uc (TrimSpace input)"

definition GenerateCode :: "string go" where
  "GenerateCode =
     handle (randcode_New CodeLength)
       (\<lambda>err. fail (Errorf (text_msg ''generate ticket code: %w'') [err]))
       (\<lambda>code. ret code)"

lemma readonly_GenerateOrderNumber [readonly_intros]: "readonly (GenerateOrderNumber t)"
  unfolding GenerateOrderNumber_def by (intro readonly_intros)

lemma readonly_GenerateCode [readonly_intros]: "readonly GenerateCode"
  unfolding GenerateCode_def by (intro readonly_intros)

lemma GenerateOrderNumber_Inr:
  assumes "GenerateOrderNumber t w = (Inr s, w')"
  obtains c where "s = ''ORD-'' @ format_yyyymmdd t @ ''-'' @ c" "length c = 6" "set c \<subseteq> set Alphabet"
  using assms
  by (auto simp: GenerateOrderNumber_def handle_def split: prod.splits sum.splits
      dest!: randcode_New_result)

lemma quiet_GenerateOrderNumber [quiet_intros]: "quiet (GenerateOrderNumber t)"
  unfolding GenerateOrderNumber_def by (intro quiet_intros)

lemma quiet_GenerateCode [quiet_intros]: "quiet GenerateCode"
  unfolding GenerateCode_def by (intro quiet_intros)

lemma GenerateCode_Inr:
  "GenerateCode w = (Inr c, w') \<Longrightarrow> length c = 10 \<and> set c \<subseteq> set Alphabet"
  by (auto simp: GenerateCode_def handle_def split: prod.splits sum.splits
      dest!: randcode_New_result)

subsection \<open>A generated code is its own canonical form\<close>

lemma Alphabet_ascii: "c \<in> set Alphabet \<Longrightarrow> of_char c < (128 :: nat)"
  by (auto simp: Alphabet_def)

lemma Alphabet_upper: "c \<in> set Alphabet \<Longrightarrow> ascii_upper c = c"
  by (auto simp: Alphabet_def ascii_upper_def)

text \<open>No white space begins or ends with the byte of a visible ASCII character.\<close>

definition graphic :: "char \<Rightarrow> bool" where
  "graphic c \<longleftrightarrow> 33 \<le> (of_char c :: nat) \<and> (of_char c :: nat) < 127"

lemma Alphabet_graphic: "c \<in> set Alphabet \<Longrightarrow> graphic c"
  by (auto simp: Alphabet_def graphic_def)

lemma space_runes_ends: "list_all (\<lambda>p. \<not> graphic (hd p) \<and> \<not> graphic (hd (rev p))) space_runes"
  by code_simp

lemma has_prefix_hd: "p \<noteq> [] \<Longrightarrow> has_prefix p (c # s) \<Longrightarrow> hd p = c"
  by (cases p) auto

lemma strip_left_graphic:
  assumes "graphic c"
  shows "strip_left space_runes (c # s) = c # s" and "strip_left (map rev space_runes) (c # s) = c # s"
proof -
  have "p = [] \<or> \<not> has_prefix p (c # s)" "p = [] \<or> \<not> has_prefix (rev p) (c # s)"
    if "p \<in> set space_runes" for p
    using that assms space_runes_ends has_prefix_hd [of p c s] has_prefix_hd [of "rev p" c s]
    by (auto simp: list_all_iff)
  then have "find (\<lambda>p. p \<noteq> [] \<and> has_prefix p (c # s)) space_runes = None"
    and "find (\<lambda>p. p \<noteq> [] \<and> has_prefix p (c # s)) (map rev space_runes) = None"
    by (auto simp: find_None_iff)
  then show "strip_left space_runes (c # s) = c # s" and "strip_left (map rev space_runes) (c # s) = c # s"
    by simp_all
qed

lemma TrimSpace_graphic:
  assumes "s \<noteq> [] \<Longrightarrow> graphic (hd s) \<and> graphic (last s)"
  shows "TrimSpace s = s"
proof (cases s)
  case (Cons c r)
  with assms have "strip_left space_runes s = s" by (simp add: strip_left_graphic del: strip_left.simps)
  moreover have "strip_left (map rev space_runes) (rev s) = rev s"
  proof (cases "rev s")
    case (Cons l t)
    then have "l = last s" by (metis hd_rev list.sel(1))
    with assms \<open>s = c # r\<close> show ?thesis unfolding Cons by (intro strip_left_graphic) simp
  qed simp
  ultimately show ?thesis by (simp add: TrimSpace_def del: strip_left.simps)
qed (simp add: TrimSpace_def)

lemma TrimSpace_Alphabet: "set s \<subseteq> set Alphabet \<Longrightarrow> TrimSpace s = s"
  by (intro TrimSpace_graphic) (auto intro!: Alphabet_graphic)

lemma NormalizeCode_Alphabet:
  assumes "set s \<subseteq> set Alphabet"
  shows "NormalizeCode uc s = s"
proof -
  have "is_ascii s" using assms by (auto simp: is_ascii_def list_all_iff intro: Alphabet_ascii)
  moreover have "map ascii_upper s = s" using assms by (auto intro!: map_idI Alphabet_upper)
  ultimately show ?thesis by (simp add: NormalizeCode_def ToUpper_def TrimSpace_Alphabet assms)
qed

end
