(* ===== verification/Event_Sql.thy ===== *)
theory Event_Sql
  imports Codes "HOL-Library.Product_Lexorder"
begin

text \<open>
  The SQL statements of the event domain (\<open>internal/event/queries/event.sql\<close>, generated into
  \<open>eventsql/event.sql.go\<close>), over the tables \<open>events\<close> and \<open>ticket_types\<close>. Each one enforces the
  constraints of the schema it can break and is shown to keep \<open>schema_ok\<close>. A list query takes the
  order in which it meets the rows (\<open>scanned\<close>), on which unsorted answers and ties depend. A write of an integer
  column raises \<open>out of range\<close> as PostgreSQL does.
\<close>

section \<open>Reads\<close>

definition sql_ListPublishedEvents :: "scan \<Rightarrow> database \<Rightarrow> event_row list" where
  "sql_ListPublishedEvents s d =
     sort_key ev_start (filter (\<lambda>e. ev_status e = StatusPublished) (scanned s ev_id (events d)))"

definition sql_GetPublishedEventBySlug :: "string \<Rightarrow> database \<Rightarrow> event_row option" where
  "sql_GetPublishedEventBySlug slug d =
     find (\<lambda>e. ev_slug e = slug \<and> ev_status e = StatusPublished) (events d)"

definition sql_ListTicketTypesByEventID :: "uuid \<Rightarrow> scan \<Rightarrow> database \<Rightarrow> ticket_type_row list" where
  "sql_ListTicketTypesByEventID eventID s d =
     sort_key (\<lambda>r. (tt_price r, collate d (tt_name r)))
       (filter (\<lambda>r. tt_event r = eventID) (scanned s tt_id (ticket_types d)))"

definition sql_GetTicketTypeByID :: "uuid \<Rightarrow> database \<Rightarrow> ticket_type_row option" where
  "sql_GetTicketTypeByID i d = find (\<lambda>r. tt_id r = i) (ticket_types d)"

definition sql_ListTicketTypeIDsByEventID :: "uuid \<Rightarrow> scan \<Rightarrow> database \<Rightarrow> uuid list" where
  "sql_ListTicketTypeIDsByEventID eventID s d =
     map tt_id (filter (\<lambda>r. tt_event r = eventID) (scanned s tt_id (ticket_types d)))"

definition sql_ListTicketTypeNamesByIDs :: "uuid list \<Rightarrow> scan \<Rightarrow> database \<Rightarrow> (uuid \<times> string) list" where
  "sql_ListTicketTypeNamesByIDs ids s d =
     map (\<lambda>r. (tt_id r, tt_name r))
       (filter (\<lambda>r. List.member ids (tt_id r)) (scanned s tt_id (ticket_types d)))"

definition sql_ListTicketTypeDisplaysByIDs ::
  "uuid list \<Rightarrow> scan \<Rightarrow> database \<Rightarrow> (uuid \<times> string \<times> string \<times> string) list" where
  "sql_ListTicketTypeDisplaysByIDs ids s d =
     concat (map (\<lambda>r. map (\<lambda>e. (tt_id r, tt_name r, ev_name e, ev_slug e))
                        (filter (\<lambda>e. ev_id e = tt_event r) (events d)))
               (filter (\<lambda>r. List.member ids (tt_id r)) (scanned s tt_id (ticket_types d))))"

definition sql_ListEvents :: "scan \<Rightarrow> database \<Rightarrow> event_row list" where
  "sql_ListEvents s d = sort_key (\<lambda>e. - ev_start e) (scanned s ev_id (events d))"

definition sql_GetEventByID :: "uuid \<Rightarrow> database \<Rightarrow> event_row option" where
  "sql_GetEventByID i d = find (\<lambda>e. ev_id e = i) (events d)"

text \<open>\<open>ORDER BY created_at ASC\<close> puts \<open>NULL\<close>s last.\<close>

definition nulls_last :: "gotime option \<Rightarrow> bool \<times> gotime" where
  "nulls_last v = (case v of None \<Rightarrow> (True, 0) | Some t \<Rightarrow> (False, t))"

definition sql_ListTicketTypesAdmin :: "uuid \<Rightarrow> scan \<Rightarrow> database \<Rightarrow> ticket_type_row list" where
  "sql_ListTicketTypesAdmin eventID s d =
     sort_key (\<lambda>r. nulls_last (tt_created_at r))
       (filter (\<lambda>r. tt_event r = eventID) (scanned s tt_id (ticket_types d)))"

definition sql_GetTicketTypeAdmin :: "uuid \<Rightarrow> database \<Rightarrow> ticket_type_row option" where
  "sql_GetTicketTypeAdmin i d = find (\<lambda>r. tt_id r = i) (ticket_types d)"

section \<open>The quota counter\<close>

text \<open>
  The guarded decrement matches no row when the remaining quota is too low or the ticket type
  does not exist; either way \<open>RETURNING\<close> yields no row.
\<close>

definition sql_CheckAndDeductQuota :: "int \<Rightarrow> uuid \<Rightarrow> int sql" where
  "sql_CheckAndDeductQuota qty i = (\<lambda>_ t d.
     case find (\<lambda>r. tt_id r = i \<and> tt_quota r \<ge> qty) (ticket_types d) of
       None \<Rightarrow> Inl ErrNoRows
     | Some r \<Rightarrow>
         if \<not> int4_range (tt_quota r - qty) then Inl out_of_range
         else Inr (tt_quota r - qty,
           d\<lparr>ticket_types := upd_where (\<lambda>x. tt_id x = i \<and> tt_quota x \<ge> qty)
               (\<lambda>x. x\<lparr>tt_quota := tt_quota x - qty, tt_updated_at := Some t\<rparr>) (ticket_types d)\<rparr>))"

definition sql_RestoreQuota :: "int \<Rightarrow> uuid \<Rightarrow> int sql" where
  "sql_RestoreQuota qty i = (\<lambda>_ t d.
     case find (\<lambda>r. tt_id r = i) (ticket_types d) of
       None \<Rightarrow> Inl ErrNoRows
     | Some r \<Rightarrow>
         if \<not> int4_range (tt_quota r + qty) then Inl out_of_range
         else if tt_quota r + qty < 0 then Inl check_violation
         else Inr (tt_quota r + qty,
           d\<lparr>ticket_types := upd_where (\<lambda>x. tt_id x = i)
               (\<lambda>x. x\<lparr>tt_quota := tt_quota x + qty, tt_updated_at := Some t\<rparr>) (ticket_types d)\<rparr>))"

section \<open>Admin writes\<close>

record AdminEventParams =
  ep_name :: string
  ep_slug :: string
  ep_description :: "string option"
  ep_venue :: string
  ep_address :: string
  ep_start :: gotime
  ep_end :: gotime
  ep_banner :: "string option"
  ep_status :: string

record AdminTicketTypeParams =
  tp_event :: uuid
  tp_name :: string
  tp_price :: decimal
  tp_quota :: int32
  tp_sales_start :: gotime
  tp_sales_end :: gotime

definition sql_CreateEvent :: "AdminEventParams \<Rightarrow> event_row sql" where
  "sql_CreateEvent p = (\<lambda>i t d.
     if has_key ev_id i (events d) \<or> has_key ev_slug (ep_slug p) (events d) then Inl unique_violation
     else if \<not> List.member event_statuses (ep_status p) then Inl check_violation
     else let r = \<lparr>ev_id = i, ev_name = ep_name p, ev_slug = ep_slug p,
                   ev_description = ep_description p, ev_venue = ep_venue p,
                   ev_address = ep_address p, ev_start = ep_start p, ev_end = ep_end p,
                   ev_banner = ep_banner p, ev_status = ep_status p,
                   ev_created_at = Some t, ev_updated_at = Some t\<rparr>
          in Inr (r, d\<lparr>events := events d @ [r]\<rparr>))"

definition set_event :: "AdminEventParams \<Rightarrow> gotime \<Rightarrow> event_row \<Rightarrow> event_row" where
  "set_event p t e =
     e\<lparr>ev_name := ep_name p, ev_slug := ep_slug p, ev_description := ep_description p,
       ev_venue := ep_venue p, ev_address := ep_address p, ev_start := ep_start p,
       ev_end := ep_end p, ev_banner := ep_banner p, ev_status := ep_status p,
       ev_updated_at := Some t\<rparr>"

definition sql_UpdateEvent :: "uuid \<Rightarrow> AdminEventParams \<Rightarrow> event_row sql" where
  "sql_UpdateEvent i p = (\<lambda>_ t d.
     case find (\<lambda>e. ev_id e = i) (events d) of
       None \<Rightarrow> Inl ErrNoRows
     | Some e \<Rightarrow>
         if has_key ev_slug (ep_slug p) (filter (\<lambda>x. ev_id x \<noteq> i) (events d)) then Inl unique_violation
         else if \<not> List.member event_statuses (ep_status p) then Inl check_violation
         else Inr (set_event p t e,
                d\<lparr>events := upd_where (\<lambda>x. ev_id x = i) (set_event p t) (events d)\<rparr>))"

text \<open>Both foreign keys onto \<open>ticket_types\<close> are \<open>ON DELETE RESTRICT\<close>, as is the one onto \<open>events\<close>.\<close>

definition type_referenced :: "database \<Rightarrow> uuid \<Rightarrow> bool" where
  "type_referenced d i \<longleftrightarrow> has_key it_type i (order_items d) \<or> has_key at_type i (attendees d)"

definition sql_DeleteTicketTypesByEventID :: "uuid \<Rightarrow> nat sql" where
  "sql_DeleteTicketTypesByEventID eventID = (\<lambda>_ t d.
     let gone = filter (\<lambda>r. tt_event r = eventID) (ticket_types d) in
     if list_ex (\<lambda>r. type_referenced d (tt_id r)) gone then Inl foreign_key_violation
     else Inr (length gone,
            d\<lparr>ticket_types := filter (\<lambda>r. tt_event r \<noteq> eventID) (ticket_types d)\<rparr>))"

definition sql_DeleteEvent :: "uuid \<Rightarrow> nat sql" where
  "sql_DeleteEvent i = (\<lambda>_ t d.
     if has_key ev_id i (events d) \<and> has_key tt_event i (ticket_types d)
     then Inl foreign_key_violation
     else Inr (length (filter (\<lambda>e. ev_id e = i) (events d)),
            d\<lparr>events := filter (\<lambda>e. ev_id e \<noteq> i) (events d)\<rparr>))"

definition sql_CreateTicketType :: "AdminTicketTypeParams \<Rightarrow> ticket_type_row sql" where
  "sql_CreateTicketType p = (\<lambda>i t d.
     if has_key tt_id i (ticket_types d) then Inl unique_violation
     else if \<not> has_key ev_id (tp_event p) (events d) then Inl foreign_key_violation
     else if sint (tp_quota p) < 0 then Inl check_violation
     else let r = \<lparr>tt_id = i, tt_event = tp_event p, tt_name = tp_name p, tt_price = tp_price p,
                   tt_quota = sint (tp_quota p), tt_sales_start = tp_sales_start p,
                   tt_sales_end = tp_sales_end p, tt_created_at = Some t, tt_updated_at = Some t\<rparr>
          in Inr (r, d\<lparr>ticket_types := ticket_types d @ [r]\<rparr>))"

definition set_type :: "AdminTicketTypeParams \<Rightarrow> gotime \<Rightarrow> ticket_type_row \<Rightarrow> ticket_type_row" where
  "set_type p t r =
     r\<lparr>tt_name := tp_name p, tt_price := tp_price p, tt_quota := sint (tp_quota p),
       tt_sales_start := tp_sales_start p, tt_sales_end := tp_sales_end p, tt_updated_at := Some t\<rparr>"

definition sql_UpdateTicketType :: "uuid \<Rightarrow> AdminTicketTypeParams \<Rightarrow> ticket_type_row sql" where
  "sql_UpdateTicketType i p = (\<lambda>_ t d.
     case find (\<lambda>r. tt_id r = i) (ticket_types d) of
       None \<Rightarrow> Inl ErrNoRows
     | Some r \<Rightarrow>
         if sint (tp_quota p) < 0 then Inl check_violation
         else Inr (set_type p t r,
                d\<lparr>ticket_types := upd_where (\<lambda>x. tt_id x = i) (set_type p t) (ticket_types d)\<rparr>))"

definition sql_DeleteTicketType :: "uuid \<Rightarrow> nat sql" where
  "sql_DeleteTicketType i = (\<lambda>_ t d.
     if has_key tt_id i (ticket_types d) \<and> type_referenced d i then Inl foreign_key_violation
     else Inr (length (filter (\<lambda>r. tt_id r = i) (ticket_types d)),
            d\<lparr>ticket_types := filter (\<lambda>r. tt_id r \<noteq> i) (ticket_types d)\<rparr>))"

section \<open>The statements keep the schema\<close>

lemma image_upd_where:
  assumes "\<And>r. k (f r) = k r"
  shows "k ` set (upd_where P f t) = k ` set t"
  by (metis assms list.set_map map_upd_where)

lemma upd_where_key_distinct:
  "(\<And>r. k (f r) = k r) \<Longrightarrow> distinct (map k (upd_where P f t)) = distinct (map k t)"
  by (simp add: map_upd_where)

text \<open>An update of ticket types that leaves their keys alone only has to store good quotas.\<close>

lemma schema_update_types:
  assumes "schema_ok d" and "\<And>r. tt_id (f r) = tt_id r" and "\<And>r. tt_event (f r) = tt_event r"
    and "\<And>r. r \<in> set (ticket_types d) \<Longrightarrow> P r \<Longrightarrow> 0 \<le> tt_quota (f r) \<and> int4_range (tt_quota (f r))"
  shows "schema_ok (d\<lparr>ticket_types := upd_where P f (ticket_types d)\<rparr>)"
proof (rule schema_ok_ticket_types [OF assms(1)])
  show "distinct (map tt_id (upd_where P f (ticket_types d)))"
    using assms(1,2) by (simp add: upd_where_key_distinct schema_defs)
  show "\<forall>r \<in> set (upd_where P f (ticket_types d)). 0 \<le> tt_quota r \<and> int4_range (tt_quota r)"
    using assms(1,4) by (auto simp: set_upd_where schema_defs)
qed (use assms(1-3) in \<open>simp_all add: image_upd_where schema_defs\<close>)

lemma schema_CheckAndDeductQuota:
  assumes "sql_CheckAndDeductQuota qty i u t d = Inr (x, d')" and "schema_ok d"
  shows "schema_ok d'"
proof -
  from assms(1) obtain r where r: "r \<in> set (ticket_types d)" "tt_id r = i" "qty \<le> tt_quota r"
    and range: "int4_range (tt_quota r - qty)"
    and d': "d' = d\<lparr>ticket_types := upd_where (\<lambda>x. tt_id x = i \<and> tt_quota x \<ge> qty)
       (\<lambda>x. x\<lparr>tt_quota := tt_quota x - qty, tt_updated_at := Some t\<rparr>) (ticket_types d)\<rparr>"
    by (auto simp: sql_CheckAndDeductQuota_def split: option.splits if_splits dest!: find_SomeD)
  show ?thesis
    unfolding d' using assms(2) r range
    by (intro schema_update_types) (auto dest: schema_type_unique)
qed

lemma schema_RestoreQuota:
  assumes "sql_RestoreQuota qty i u t d = Inr (x, d')" and "schema_ok d"
  shows "schema_ok d'"
proof -
  from assms(1) obtain r where r: "r \<in> set (ticket_types d)" "tt_id r = i"
    and range: "int4_range (tt_quota r + qty)" "0 \<le> tt_quota r + qty"
    and d': "d' = d\<lparr>ticket_types := upd_where (\<lambda>x. tt_id x = i)
       (\<lambda>x. x\<lparr>tt_quota := tt_quota x + qty, tt_updated_at := Some t\<rparr>) (ticket_types d)\<rparr>"
    by (auto simp: sql_RestoreQuota_def split: option.splits if_splits dest!: find_SomeD)
  show ?thesis
    unfolding d' using assms(2) r range
    by (intro schema_update_types) (auto dest: schema_type_unique)
qed

lemma schema_CreateEvent:
  "sql_CreateEvent p u t d = Inr (x, d') \<Longrightarrow> schema_ok d \<Longrightarrow> schema_ok d'"
  by (auto simp: sql_CreateEvent_def Let_def has_key_iff split: if_splits
      intro!: schema_ok_events) (auto simp: schema_defs)

lemma schema_UpdateEvent:
  assumes run: "sql_UpdateEvent i p u t d = Inr (x, d')" and ok: "schema_ok d"
  shows "schema_ok d'"
proof -
  let ?t = "upd_where (\<lambda>x. ev_id x = i) (set_event p t) (events d)"
  from run obtain e where e: "e \<in> set (events d)" "ev_id e = i"
    and slug: "\<And>x. x \<in> set (events d) \<Longrightarrow> ev_id x \<noteq> i \<Longrightarrow> ep_slug p \<noteq> ev_slug x"
    and st: "ep_status p \<in> set event_statuses" and d': "d' = d\<lparr>events := ?t\<rparr>"
    by (auto simp: sql_UpdateEvent_def has_key_iff split: option.splits if_splits dest!: find_SomeD)
  have keep: "\<And>r. ev_id (set_event p t r) = ev_id r" by (simp add: set_event_def)
  have ids: "distinct (map ev_id (events d))" and slugs: "distinct (map ev_slug (events d))"
    using ok by (auto simp: schema_defs)
  have "inj_on ev_slug (set ?t)"
  proof (rule inj_onI)
    fix a b
    assume "a \<in> set ?t" "b \<in> set ?t" and eq: "ev_slug a = ev_slug b"
    then obtain a' b' where a: "a' \<in> set (events d)" "a = (if ev_id a' = i then set_event p t a' else a')"
      and b: "b' \<in> set (events d)" "b = (if ev_id b' = i then set_event p t b' else b')"
      by (auto simp: set_upd_where)
    show "a = b"
    proof (cases "ev_id a' = i \<longleftrightarrow> ev_id b' = i")
      case True
      then show ?thesis
        using a b eq distinct_map_inj [OF ids a(1) b(1)] distinct_map_inj [OF slugs a(1) b(1)]
        by (cases "ev_id a' = i") auto
    next
      case False
      then show ?thesis
        using a b eq slug [OF a(1)] slug [OF b(1)] by (auto simp: set_event_def split: if_splits)
    qed
  qed
  moreover have "distinct ?t"
    using ids keep upd_where_key_distinct by (metis distinct_map)
  ultimately have "distinct (map ev_slug ?t)" by (simp add: distinct_map)
  moreover have "\<forall>r \<in> set ?t. ev_status r \<in> set event_statuses"
    using ok st by (auto simp: set_upd_where set_event_def schema_defs)
  ultimately show ?thesis
    unfolding d' using ok keep
    by (intro schema_ok_events) (simp_all add: upd_where_key_distinct image_upd_where schema_defs)
qed

text \<open>A delete of ticket types only has to spare the referenced ones.\<close>

lemma schema_delete_types:
  assumes "schema_ok d"
    and "\<And>r. r \<in> set (ticket_types d) \<Longrightarrow> type_referenced d (tt_id r) \<Longrightarrow> P r"
  shows "schema_ok (d\<lparr>ticket_types := filter P (ticket_types d)\<rparr>)"
proof (rule schema_ok_ticket_types [OF assms(1)])
  let ?t = "filter P (ticket_types d)"
  have "i \<in> tt_id ` set ?t" if "type_referenced d i" "i \<in> tt_id ` set (ticket_types d)" for i
    using that assms(2) by auto
  then show "it_type ` set (order_items d) \<subseteq> tt_id ` set ?t" "at_type ` set (attendees d) \<subseteq> tt_id ` set ?t"
    using assms(1) by (auto simp: schema_defs type_referenced_def image_subset_iff)
qed (use assms(1) in \<open>auto simp: schema_defs distinct_map_filter\<close>)

lemma schema_DeleteTicketTypesByEventID:
  assumes "sql_DeleteTicketTypesByEventID i u t d = Inr (x, d')" and "schema_ok d"
  shows "schema_ok d'"
proof -
  from assms(1) have "d' = d\<lparr>ticket_types := filter (\<lambda>r. tt_event r \<noteq> i) (ticket_types d)\<rparr>"
    and "\<And>r. r \<in> set (ticket_types d) \<Longrightarrow> type_referenced d (tt_id r) \<Longrightarrow> tt_event r \<noteq> i"
    by (simp_all add: sql_DeleteTicketTypesByEventID_def Let_def list_ex_iff split: if_splits) blast
  with assms(2) show ?thesis by (simp add: schema_delete_types)
qed

lemma schema_DeleteEvent:
  assumes "sql_DeleteEvent i u t d = Inr (x, d')" and ok: "schema_ok d"
  shows "schema_ok d'"
proof -
  from assms(1) have d': "d' = d\<lparr>events := filter (\<lambda>e. ev_id e \<noteq> i) (events d)\<rparr>"
    and "i \<notin> ev_id ` set (events d) \<or> i \<notin> tt_event ` set (ticket_types d)"
    by (auto simp: sql_DeleteEvent_def has_key_iff split: if_splits)
  moreover from ok have "tt_event ` set (ticket_types d) \<subseteq> ev_id ` set (events d)"
    by (simp add: schema_defs)
  ultimately have "i \<notin> tt_event ` set (ticket_types d)" by blast
  moreover have "tt_event ` set (ticket_types d) \<subseteq> ev_id ` set (events d)"
    using ok by (simp add: schema_defs)
  moreover have "ev_id ` set (filter (\<lambda>e. ev_id e \<noteq> i) (events d)) = ev_id ` set (events d) - {i}"
    by auto
  ultimately have "tt_event ` set (ticket_types d) \<subseteq> ev_id ` set (filter (\<lambda>e. ev_id e \<noteq> i) (events d))"
    by blast
  with ok show ?thesis
    unfolding d' by (intro schema_ok_events) (simp_all add: schema_defs distinct_map_filter)
qed

lemma schema_CreateTicketType:
  "sql_CreateTicketType p u t d = Inr (x, d') \<Longrightarrow> schema_ok d \<Longrightarrow> schema_ok d'"
  by (auto simp: sql_CreateTicketType_def Let_def has_key_iff split: if_splits
      intro!: schema_ok_ticket_types) (auto simp: schema_defs)

lemma schema_UpdateTicketType:
  "sql_UpdateTicketType i p u t d = Inr (x, d') \<Longrightarrow> schema_ok d \<Longrightarrow> schema_ok d'"
  by (auto simp: sql_UpdateTicketType_def set_type_def split: if_splits option.splits
      intro!: schema_update_types)

lemma schema_DeleteTicketType:
  "sql_DeleteTicketType i u t d = Inr (x, d') \<Longrightarrow> schema_ok d \<Longrightarrow> schema_ok d'"
  by (auto simp: sql_DeleteTicketType_def has_key_iff split: if_splits intro!: schema_delete_types)

lemmas schema_event_sql = schema_CheckAndDeductQuota schema_RestoreQuota schema_CreateEvent
  schema_UpdateEvent schema_DeleteTicketTypesByEventID schema_DeleteEvent schema_CreateTicketType
  schema_UpdateTicketType schema_DeleteTicketType

section \<open>The quota statements move the counter\<close>

lemma CheckAndDeductQuota_moved:
  assumes run: "sql_CheckAndDeductQuota qty i u t d = Inr (x, d')" and ok: "schema_ok d"
  shows "quota_moved i (- qty) d d'"
proof -
  from run obtain r where r: "r \<in> set (ticket_types d)" "tt_id r = i" "qty \<le> tt_quota r"
    and d': "d' = d\<lparr>ticket_types := upd_where (\<lambda>x. tt_id x = i \<and> tt_quota x \<ge> qty)
       (\<lambda>x. x\<lparr>tt_quota := tt_quota x - qty, tt_updated_at := Some t\<rparr>) (ticket_types d)\<rparr>"
    by (auto simp: sql_CheckAndDeductQuota_def split: option.splits if_splits dest!: find_SomeD)
  have "quota_of d' = (quota_of d)(tt_id r \<mapsto> tt_quota r - qty)"
    unfolding d' by (subst quota_of_update [OF ok, where r = r]) (use r in auto)
  moreover have "catalogue d' = catalogue d" unfolding d' by (rule catalogue_update) simp
  ultimately show ?thesis
    using r quota_of_row [OF ok r(1)] by (simp add: quota_moved_def) (simp add: d')
qed

lemma RestoreQuota_moved:
  assumes run: "sql_RestoreQuota qty i u t d = Inr (x, d')" and ok: "schema_ok d"
  shows "quota_moved i qty d d'"
proof -
  from run obtain r where r: "r \<in> set (ticket_types d)" "tt_id r = i" "0 \<le> tt_quota r + qty"
    and d': "d' = d\<lparr>ticket_types := upd_where (\<lambda>x. tt_id x = i)
       (\<lambda>x. x\<lparr>tt_quota := tt_quota x + qty, tt_updated_at := Some t\<rparr>) (ticket_types d)\<rparr>"
    by (auto simp: sql_RestoreQuota_def split: option.splits if_splits dest!: find_SomeD)
  have "quota_of d' = (quota_of d)(tt_id r \<mapsto> tt_quota r + qty)"
    unfolding d' by (subst quota_of_update [OF ok, where r = r]) (use r in auto)
  moreover have "catalogue d' = catalogue d" unfolding d' by (rule catalogue_update) simp
  ultimately show ?thesis
    using r quota_of_row [OF ok r(1)] by (simp add: quota_moved_def) (simp add: d')
qed

text \<open>The guard matches no row exactly when the type is unknown or has too little quota left.\<close>

lemma CheckAndDeductQuota_ErrNoRows:
  assumes "schema_ok d"
  shows "sql_CheckAndDeductQuota qty i u t d = Inl ErrNoRows \<longleftrightarrow>
    (case quota_of d i of None \<Rightarrow> True | Some n \<Rightarrow> n < qty)"
proof (cases "quota_of d i")
  case None
  then have "find (\<lambda>r. tt_id r = i \<and> tt_quota r \<ge> qty) (ticket_types d) = None"
    by (auto simp: find_None_iff dest: quota_of_NoneD)
  with None show ?thesis by (simp add: sql_CheckAndDeductQuota_def)
next
  case (Some n)
  show ?thesis
  proof (cases "find (\<lambda>r. tt_id r = i \<and> tt_quota r \<ge> qty) (ticket_types d)")
    case None
    with Some have "n < qty" by (fastforce dest: quota_of_SomeD find_NoneD)
    with None Some show ?thesis by (simp add: sql_CheckAndDeductQuota_def)
  next
    case (Some r)
    then have "r \<in> set (ticket_types d)" "tt_id r = i" "qty \<le> tt_quota r" by (auto dest: find_SomeD)
    with quota_of_row [OF assms this(1)] Some \<open>quota_of d i = Some n\<close> show ?thesis
      by (simp add: sql_CheckAndDeductQuota_def)
  qed
qed

end
