(* ===== verification/Event_Repo.thy ===== *)
theory Event_Repo
  imports Event_Sql
begin

text \<open>
  \<open>internal/event/repository.go\<close> and \<open>admin_repository.go\<close>: one definition per repository method.
  A method runs a statement, maps \<open>pgx.ErrNoRows\<close> and unique violations to the sentinels of the
  domain and copies the row into the struct the service works with. Methods that take a \<open>tx\<close>
  are the same function whether they run alone or inside \<open>InTx\<close>.
\<close>

section \<open>Records\<close>

abbreviation ErrNotFound :: goerror where "ErrNotFound \<equiv> Sentinel ''event: not found''"
abbreviation ErrInsufficientQuota :: goerror where
  "ErrInsufficientQuota \<equiv> Sentinel ''event: insufficient quota''"
abbreviation ErrSlugTaken :: goerror where "ErrSlugTaken \<equiv> Sentinel ''event: slug already taken''"

record TicketTypeRow =
  ttr_id :: uuid
  ttr_event :: uuid
  ttr_name :: string
  ttr_price :: decimal
  ttr_quota :: int32
  ttr_sales_start :: gotime
  ttr_sales_end :: gotime

record EventSummary =
  es_id :: uuid
  es_name :: string
  es_slug :: string
  es_venue :: string
  es_address :: string
  es_start :: gotime
  es_end :: gotime
  es_banner :: "string option"

record TicketTypeSummary =
  ts_id :: uuid
  ts_name :: string
  ts_price :: decimal
  ts_quota_remaining :: int32
  ts_sales_start :: gotime
  ts_sales_end :: gotime

record EventDetail =
  ed_id :: uuid
  ed_name :: string
  ed_slug :: string
  ed_description :: "string option"
  ed_venue :: string
  ed_address :: string
  ed_start :: gotime
  ed_end :: gotime
  ed_banner :: "string option"
  ed_ticket_types :: "TicketTypeSummary list"

record EventAdminView =
  av_id :: uuid
  av_name :: string
  av_slug :: string
  av_description :: "string option"
  av_venue :: string
  av_address :: string
  av_start :: gotime
  av_end :: gotime
  av_banner :: "string option"
  av_status :: string
  av_created_at :: "gotime option"
  av_updated_at :: "gotime option"

record TicketTypeDisplayRecord =
  td_type_name :: string
  td_event_name :: string
  td_event_slug :: string

definition toTicketTypeRow :: "ticket_type_row \<Rightarrow> TicketTypeRow" where
  "toTicketTypeRow r =
     \<lparr>ttr_id = tt_id r, ttr_event = tt_event r, ttr_name = tt_name r, ttr_price = tt_price r,
      ttr_quota = word_of_int (tt_quota r), ttr_sales_start = tt_sales_start r,
      ttr_sales_end = tt_sales_end r\<rparr>"

definition toAdminView :: "event_row \<Rightarrow> EventAdminView" where
  "toAdminView r =
     \<lparr>av_id = ev_id r, av_name = ev_name r, av_slug = ev_slug r, av_description = ev_description r,
      av_venue = ev_venue r, av_address = ev_address r, av_start = ev_start r, av_end = ev_end r,
      av_banner = ev_banner r, av_status = ev_status r, av_created_at = ev_created_at r,
      av_updated_at = ev_updated_at r\<rparr>"

section \<open>Guest-facing reads\<close>

definition event_ListPublishedEvents :: "EventSummary list go" where
  "event_ListPublishedEvents =
     bind (wrapping ''list published events: %w'' (query_rows sql_ListPublishedEvents)) (\<lambda>rows.
     ret (map (\<lambda>row. \<lparr>es_id = ev_id row, es_name = ev_name row, es_slug = ev_slug row,
       es_venue = ev_venue row, es_address = ev_address row, es_start = ev_start row,
       es_end = ev_end row, es_banner = ev_banner row\<rparr>) rows))"

definition event_GetPublishedEventBySlug :: "string \<Rightarrow> EventDetail go" where
  "event_GetPublishedEventBySlug slug =
     bind (row_or ErrNotFound ''get published event by slug: %w''
             (query_row (sql_GetPublishedEventBySlug slug))) (\<lambda>row.
     ret \<lparr>ed_id = ev_id row, ed_name = ev_name row, ed_slug = ev_slug row,
       ed_description = ev_description row, ed_venue = ev_venue row, ed_address = ev_address row,
       ed_start = ev_start row, ed_end = ev_end row, ed_banner = ev_banner row,
       ed_ticket_types = []\<rparr>)"

definition event_ListTicketTypesByEventID :: "uuid \<Rightarrow> TicketTypeRow list go" where
  "event_ListTicketTypesByEventID eventID =
     bind (wrapping ''list ticket types: %w'' (query_rows (sql_ListTicketTypesByEventID eventID))) (\<lambda>rows.
     ret (map toTicketTypeRow rows))"

definition event_GetTicketTypeByID :: "uuid \<Rightarrow> TicketTypeRow go" where
  "event_GetTicketTypeByID i =
     bind (row_or ErrNotFound ''get ticket type: %w'' (query_row (sql_GetTicketTypeByID i))) (\<lambda>row.
     ret (toTicketTypeRow row))"

section \<open>Quota\<close>

definition event_CheckAndDeductQuota :: "uuid \<Rightarrow> int32 \<Rightarrow> unit go" where
  "event_CheckAndDeductQuota ticketTypeID qty =
     bind (row_or ErrInsufficientQuota ''deduct quota: %w''
             (stmt (sql_CheckAndDeductQuota (sint qty) ticketTypeID))) (\<lambda>_. ret ())"

definition event_RestoreQuota :: "uuid \<Rightarrow> int32 \<Rightarrow> unit go" where
  "event_RestoreQuota ticketTypeID qty =
     bind (row_or ErrNotFound ''restore quota: %w''
             (stmt (sql_RestoreQuota (sint qty) ticketTypeID))) (\<lambda>_. ret ())"

section \<open>Admin reads\<close>

definition event_ListEvents :: "EventAdminView list go" where
  "event_ListEvents =
     bind (wrapping ''list events: %w'' (query_rows sql_ListEvents)) (\<lambda>rows. ret (map toAdminView rows))"

definition event_GetEventByID :: "uuid \<Rightarrow> EventAdminView go" where
  "event_GetEventByID i =
     bind (row_or ErrNotFound ''get event: %w'' (query_row (sql_GetEventByID i))) (\<lambda>row.
     ret (toAdminView row))"

definition event_ListTicketTypeIDsByEventID :: "uuid \<Rightarrow> uuid list go" where
  "event_ListTicketTypeIDsByEventID eventID =
     wrapping ''list ticket type ids: %w'' (query_rows (sql_ListTicketTypeIDsByEventID eventID))"

text \<open>Both lookups fill a Go map row by row; nothing is asked of the database for no ids.\<close>

definition event_TicketTypeNamesByIDs :: "uuid list \<Rightarrow> (uuid \<rightharpoonup> string) go" where
  "event_TicketTypeNamesByIDs ids =
     (if ids = [] then ret Map.empty
      else bind (wrapping ''list ticket type names: %w'' (query_rows (sql_ListTicketTypeNamesByIDs ids)))
        (\<lambda>rows. ret (fold (\<lambda>(i, name) m. m(i \<mapsto> name)) rows Map.empty)))"

definition event_TicketTypeDisplaysByIDs :: "uuid list \<Rightarrow> (uuid \<rightharpoonup> TicketTypeDisplayRecord) go" where
  "event_TicketTypeDisplaysByIDs ids =
     (if ids = [] then ret Map.empty
      else bind (wrapping ''list ticket type displays: %w''
                   (query_rows (sql_ListTicketTypeDisplaysByIDs ids))) (\<lambda>rows.
        ret (fold (\<lambda>(i, name, event_name, slug) m.
               m(i \<mapsto> \<lparr>td_type_name = name, td_event_name = event_name, td_event_slug = slug\<rparr>))
             rows Map.empty)))"

definition event_ListTicketTypesAdmin :: "uuid \<Rightarrow> TicketTypeRow list go" where
  "event_ListTicketTypesAdmin eventID =
     bind (wrapping ''list ticket types: %w'' (query_rows (sql_ListTicketTypesAdmin eventID))) (\<lambda>rows.
     ret (map toTicketTypeRow rows))"

definition event_GetTicketTypeAdmin :: "uuid \<Rightarrow> TicketTypeRow go" where
  "event_GetTicketTypeAdmin i =
     bind (row_or ErrNotFound ''get ticket type: %w'' (query_row (sql_GetTicketTypeAdmin i))) (\<lambda>row.
     ret (toTicketTypeRow row))"

section \<open>Admin writes\<close>

definition event_CreateEvent :: "AdminEventParams \<Rightarrow> EventAdminView go" where
  "event_CreateEvent p =
     handle (stmt (sql_CreateEvent p))
       (\<lambda>err. if isUniqueViolation err then fail ErrSlugTaken
              else fail (Errorf (text_msg ''create event: %w'') [err]))
       (\<lambda>row. ret (toAdminView row))"

definition event_UpdateEvent :: "uuid \<Rightarrow> AdminEventParams \<Rightarrow> EventAdminView go" where
  "event_UpdateEvent i p =
     handle (stmt (sql_UpdateEvent i p))
       (\<lambda>err. if isUniqueViolation err then fail ErrSlugTaken
              else if errors_Is err ErrNoRows then fail ErrNotFound
              else fail (Errorf (text_msg ''update event: %w'') [err]))
       (\<lambda>row. ret (toAdminView row))"

definition event_DeleteTicketTypesByEventID :: "uuid \<Rightarrow> unit go" where
  "event_DeleteTicketTypesByEventID eventID =
     bind (wrapping ''delete ticket types: %w'' (stmt (sql_DeleteTicketTypesByEventID eventID)))
       (\<lambda>_. ret ())"

definition event_DeleteEvent :: "uuid \<Rightarrow> bool go" where
  "event_DeleteEvent eventID =
     bind (wrapping ''delete event: %w'' (stmt (sql_DeleteEvent eventID))) (\<lambda>affected.
     ret (affected > 0))"

definition event_CreateTicketType :: "AdminTicketTypeParams \<Rightarrow> TicketTypeRow go" where
  "event_CreateTicketType p =
     bind (wrapping ''create ticket type: %w'' (stmt (sql_CreateTicketType p))) (\<lambda>row.
     ret (toTicketTypeRow row))"

definition event_UpdateTicketType :: "uuid \<Rightarrow> AdminTicketTypeParams \<Rightarrow> TicketTypeRow go" where
  "event_UpdateTicketType i p =
     bind (row_or ErrNotFound ''update ticket type: %w'' (stmt (sql_UpdateTicketType i p))) (\<lambda>row.
     ret (toTicketTypeRow row))"

definition event_DeleteTicketType :: "uuid \<Rightarrow> bool go" where
  "event_DeleteTicketType i =
     bind (wrapping ''delete ticket type: %w'' (stmt (sql_DeleteTicketType i))) (\<lambda>affected.
     ret (affected > 0))"
end
