(* ===== verification/Regexp.thy ===== *)
theory Regexp
  imports Prelude
begin

text \<open>
  The part of Go's \<open>regexp\<close> package the backend uses: a pattern of one-byte classes, sequences,
  repetitions and alternatives, anchored at both ends, matched by derivatives. \<open>slugPattern\<close> of
  \<open>internal/event/admin_dto.go\<close> is written down literally, and \<open>slug_words\<close> says which strings it
  accepts without mentioning regular expressions.
\<close>

section \<open>Patterns\<close>

datatype pattern =
    Nothing
  | Empty
  | Class "char \<Rightarrow> bool"
  | Either pattern pattern
  | Seq pattern pattern
  | Star pattern

abbreviation Plus :: "pattern \<Rightarrow> pattern" where
  "Plus p \<equiv> Seq p (Star p)"

fun nullable :: "pattern \<Rightarrow> bool" where
  "nullable Nothing = False"
| "nullable Empty = True"
| "nullable (Class k) = False"
| "nullable (Either p q) = (nullable p \<or> nullable q)"
| "nullable (Seq p q) = (nullable p \<and> nullable q)"
| "nullable (Star p) = True"

fun after :: "char \<Rightarrow> pattern \<Rightarrow> pattern" where
  "after c Nothing = Nothing"
| "after c Empty = Nothing"
| "after c (Class k) = (if k c then Empty else Nothing)"
| "after c (Either p q) = Either (after c p) (after c q)"
| "after c (Seq p q) =
     (if nullable p then Either (Seq (after c p) q) (after c q) else Seq (after c p) q)"
| "after c (Star p) = Seq (after c p) (Star p)"

definition MatchString :: "pattern \<Rightarrow> string \<Rightarrow> bool" where
  "MatchString p s = nullable (fold after s p)"

text \<open>What a pattern means.\<close>

inductive matches :: "pattern \<Rightarrow> string \<Rightarrow> bool" where
  matches_Empty: "matches Empty []"
| matches_Class: "k c \<Longrightarrow> matches (Class k) [c]"
| matches_left: "matches p s \<Longrightarrow> matches (Either p q) s"
| matches_right: "matches q s \<Longrightarrow> matches (Either p q) s"
| matches_Seq: "matches p s \<Longrightarrow> matches q t \<Longrightarrow> matches (Seq p q) (s @ t)"
| matches_Star_done: "matches (Star p) []"
| matches_Star_more: "matches p s \<Longrightarrow> matches (Star p) t \<Longrightarrow> matches (Star p) (s @ t)"

inductive_simps matches_simps [simp]:
  "matches Nothing s"
  "matches Empty s"
  "matches (Class k) s"
  "matches (Either p q) s"

inductive_simps matches_SeqD: "matches (Seq p q) s"

inductive_cases matches_StarE: "matches (Star p) s"

lemma nullable_matches: "nullable p \<longleftrightarrow> matches p []"
  by (induction p) (auto simp: matches_SeqD intro: matches_Star_done)

text \<open>A non-empty match of a repetition begins with a non-empty match of the pattern.\<close>

lemma matches_Star_Cons:
  "matches (Star p) (c # s) \<longleftrightarrow> (\<exists>u v. s = u @ v \<and> matches p (c # u) \<and> matches (Star p) v)"
proof
  assume "matches (Star p) (c # s)"
  then show "\<exists>u v. s = u @ v \<and> matches p (c # u) \<and> matches (Star p) v"
  proof (induction "Star p" "c # s" rule: matches.induct)
    case (matches_Star_more u v)
    then show ?case by (cases u) auto
  qed
next
  assume "\<exists>u v. s = u @ v \<and> matches p (c # u) \<and> matches (Star p) v"
  then show "matches (Star p) (c # s)"
    by (metis append_Cons matches_Star_more)
qed

lemma matches_Seq_Cons:
  "matches (Seq p q) (c # s) \<longleftrightarrow>
   (\<exists>u v. s = u @ v \<and> matches p (c # u) \<and> matches q v) \<or> matches p [] \<and> matches q (c # s)"
  by (simp add: matches_SeqD Cons_eq_append_conv) blast

lemma after_matches: "matches (after c p) s \<longleftrightarrow> matches p (c # s)"
proof (induction p arbitrary: s)
  case (Seq p q)
  have "matches (Seq (after c p) q) s \<longleftrightarrow> (\<exists>u v. s = u @ v \<and> matches p (c # u) \<and> matches q v)"
    by (auto simp: matches_SeqD Seq.IH)
  then show ?case
    by (auto simp: matches_Seq_Cons nullable_matches Seq.IH)
next
  case (Star p)
  then show ?case by (auto simp: matches_SeqD matches_Star_Cons)
qed auto

lemma MatchString_iff: "MatchString p s \<longleftrightarrow> matches p s"
proof (induction s arbitrary: p)
  case Nil
  then show ?case by (simp add: MatchString_def nullable_matches)
next
  case (Cons c s)
  then show ?case by (simp add: MatchString_def after_matches)
qed

section \<open>Slugs\<close>

definition slug_char :: "char \<Rightarrow> bool" where
  "slug_char c \<longleftrightarrow> List.member ''abcdefghijklmnopqrstuvwxyz0123456789'' c"

definition slugPattern :: pattern where
  "slugPattern = Seq (Plus (Class slug_char)) (Star (Seq (Class (\<lambda>c. c = CHR ''-'')) (Plus (Class slug_char))))"

lemma matches_Star_Class: "matches (Star (Class k)) s \<longleftrightarrow> list_all k s"
  by (induction s) (auto simp: matches_Star_Cons intro: matches_Star_done)

lemma matches_Seq_Class:
  "matches (Seq (Class k) q) s \<longleftrightarrow> (\<exists>c t. s = c # t \<and> k c \<and> matches q t)"
proof
  assume "matches (Seq (Class k) q) s"
  then show "\<exists>c t. s = c # t \<and> k c \<and> matches q t" by (auto simp: matches_SeqD)
next
  assume "\<exists>c t. s = c # t \<and> k c \<and> matches q t"
  then obtain c t where "s = [c] @ t" "k c" "matches q t" by auto
  then show "matches (Seq (Class k) q) s" by (simp only: matches_Seq matches_Class)
qed

lemma matches_Plus_Class: "matches (Plus (Class k)) s \<longleftrightarrow> s \<noteq> [] \<and> list_all k s"
  by (cases s) (auto simp: matches_Seq_Class matches_Star_Class)

text \<open>A slug is a sequence of words of lower-case letters and digits joined by single hyphens.\<close>

definition hyphenate :: "string list \<Rightarrow> string" where
  "hyphenate ws = concat (map (\<lambda>w. CHR ''-'' # w) ws)"

lemma matches_hyphenated:
  "matches (Star (Seq (Class (\<lambda>c. c = CHR ''-'')) (Plus (Class slug_char)))) s \<longleftrightarrow>
   (\<exists>ws. s = hyphenate ws \<and> list_all (\<lambda>w. w \<noteq> [] \<and> list_all slug_char w) ws)"
  (is "matches (Star ?p) s \<longleftrightarrow> ?R s")
proof
  assume "matches (Star ?p) s"
  then show "?R s"
  proof (induction "Star ?p" s rule: matches.induct)
    case matches_Star_done
    then show ?case by (intro exI [of _ "[]"]) (simp add: hyphenate_def)
  next
    case (matches_Star_more u v)
    from matches_Star_more.hyps(1) obtain w where "u = CHR ''-'' # w" "w \<noteq> []" "list_all slug_char w"
      by (auto simp: matches_Seq_Class [of "\<lambda>c. c = CHR ''-''"] matches_Plus_Class)
    moreover obtain ws where "v = hyphenate ws" "list_all (\<lambda>w. w \<noteq> [] \<and> list_all slug_char w) ws"
      using matches_Star_more.hyps by blast
    ultimately show ?case by (intro exI [of _ "w # ws"]) (simp add: hyphenate_def)
  qed
next
  have word: "matches ?p (CHR ''-'' # w)" if "w \<noteq> []" "list_all slug_char w" for w
    using matches_Seq [OF matches_Class [where c = "CHR ''-''"], where t = w] that
    by (simp add: matches_Plus_Class)
  assume "?R s"
  then obtain ws where "s = hyphenate ws" and "list_all (\<lambda>w. w \<noteq> [] \<and> list_all slug_char w) ws" by blast
  then show "matches (Star ?p) s"
  proof (induction ws arbitrary: s)
    case Nil
    then show ?case by (simp add: hyphenate_def matches_Star_done)
  next
    case (Cons w ws)
    then show ?case
      using matches_Star_more [OF word [of w]] by (simp add: hyphenate_def)
  qed
qed

lemma slug_words:
  "MatchString slugPattern s \<longleftrightarrow>
   (\<exists>w ws. s = w @ hyphenate ws \<and> list_all (\<lambda>w. w \<noteq> [] \<and> list_all slug_char w) (w # ws))"
  by (auto simp: MatchString_iff slugPattern_def matches_SeqD [of "Plus _"] matches_Plus_Class
      matches_hyphenated)

end
