(* ===== verification/Event_Service.thy ===== *)
theory Event_Service
  imports Event_Repo Regexp
begin

text \<open>
  \<open>internal/event/service.go\<close>, \<open>admin_service.go\<close> and the request validation of \<open>admin_dto.go\<close>.
  What the service needs of the order domain is the interface \<open>OrderChecker\<close>, a record of
  functions; the service holds it or \<open>nil\<close>. The locale \<open>order_checker\<close> states the contract of the
  two delete guards, and the delete operations are proved against it: with a checker that keeps
  the contract, no delete ever runs into a foreign key.
\<close>

section \<open>Requests\<close>

record EventRequest =
  er_name :: string
  er_slug :: string
  er_description :: "string option"
  er_venue :: string
  er_address :: string
  er_start :: gotime
  er_end :: gotime
  er_banner :: "string option"
  er_status :: string

record TicketTypeRequest =
  tr_event :: uuid
  tr_name :: string
  tr_price :: decimal
  tr_quota :: int32
  tr_sales_start :: gotime
  tr_sales_end :: gotime

definition EventRequest_Validate :: "EventRequest \<Rightarrow> goerror option" where
  "EventRequest_Validate r =
     (if TrimSpace (er_name r) = [] then Some (BadRequest CodeValidation (text_msg ''name is required.''))
      else if TrimSpace (er_slug r) = [] then Some (BadRequest CodeValidation (text_msg ''slug is required.''))
      else if \<not> MatchString slugPattern (er_slug r) then
        Some (BadRequest CodeValidation (text_msg
          ''slug must be lowercase letters, digits, and single hyphens (for example \"jazz-night-2026\").''))
      else if TrimSpace (er_venue r) = [] then Some (BadRequest CodeValidation (text_msg ''venue is required.''))
      else if TrimSpace (er_address r) = [] then Some (BadRequest CodeValidation (text_msg ''address is required.''))
      else if IsZero (er_start r) \<or> IsZero (er_end r) then
        Some (BadRequest CodeValidation (text_msg ''start_date and end_date are required.''))
      else if er_end r < er_start r then
        Some (BadRequest CodeInvalidDateRange (text_msg ''end_date must not be before start_date.''))
      else if er_status r = StatusDraft \<or> er_status r = StatusPublished \<or> er_status r = StatusCompleted
      then None
      else Some (BadRequest CodeValidation (Msg ''status must be one of %s, %s, or %s.''
             [ArgS StatusDraft, ArgS StatusPublished, ArgS StatusCompleted])))"

definition TicketTypeRequest_Validate :: "TicketTypeRequest \<Rightarrow> bool \<Rightarrow> goerror option" where
  "TicketTypeRequest_Validate r requireEventID =
     (if requireEventID \<and> tr_event r = uuid_Nil then
        Some (BadRequest CodeValidation (text_msg ''event_id is required.''))
      else if TrimSpace (tr_name r) = [] then Some (BadRequest CodeValidation (text_msg ''name is required.''))
      else if tr_price r < 0 then
        Some (BadRequest CodeValidation (text_msg ''price must not be negative.''))
      else if tr_quota r <s 0 then
        Some (BadRequest CodeValidation (text_msg ''quota must not be negative.''))
      else if IsZero (tr_sales_start r) \<or> IsZero (tr_sales_end r) then
        Some (BadRequest CodeValidation (text_msg ''sales_start and sales_end are required.''))
      else if tr_sales_end r < tr_sales_start r then
        Some (BadRequest CodeInvalidDateRange (text_msg ''sales_end must not be before sales_start.''))
      else None)"

text \<open>\<open>if err := req.Validate(); err != nil { return err }\<close>\<close>

definition check :: "goerror option \<Rightarrow> unit go" where
  "check v = (case v of None \<Rightarrow> ret () | Some e \<Rightarrow> fail e)"

section \<open>Interface to the order domain\<close>

record OrderChecker =
  HasOrdersForTicketType :: "uuid \<Rightarrow> bool go"
  HasOrdersForTicketTypes :: "uuid list \<Rightarrow> bool go"
  SoldCountByTicketType :: "uuid list \<Rightarrow> (uuid \<rightharpoonup> int) go"

record TicketTypeAdminView =
  ta_id :: uuid
  ta_event :: uuid
  ta_name :: string
  ta_price :: decimal
  ta_quota :: int32
  ta_sold :: int
  ta_sales_start :: gotime
  ta_sales_end :: gotime

record EventAdminDetail =
  EventAdminView_of :: EventAdminView
  ad_ticket_types :: "TicketTypeAdminView list"

section \<open>Guest-facing operations\<close>

definition ListPublishedEvents :: "EventSummary list go" where
  "ListPublishedEvents = bind event_ListPublishedEvents ret"

definition toTicketTypeSummary :: "TicketTypeRow \<Rightarrow> TicketTypeSummary" where
  "toTicketTypeSummary row =
     \<lparr>ts_id = ttr_id row, ts_name = ttr_name row, ts_price = ttr_price row,
      ts_quota_remaining = ttr_quota row, ts_sales_start = ttr_sales_start row,
      ts_sales_end = ttr_sales_end row\<rparr>"

definition GetPublishedEventBySlug :: "string \<Rightarrow> EventDetail go" where
  "GetPublishedEventBySlug slug =
     handle (event_GetPublishedEventBySlug slug)
       (\<lambda>err. if errors_Is err ErrNotFound
              then fail (NotFound CodeEventNotFound (text_msg ''Event not found.'')) else fail err)
       (\<lambda>detail.
     bind (event_ListTicketTypesByEventID (ed_id detail)) (\<lambda>rows.
     ret (detail\<lparr>ed_ticket_types := map toTicketTypeSummary rows\<rparr>)))"

section \<open>Quota contract\<close>

definition CheckAndDeductQuota :: "uuid \<Rightarrow> int32 \<Rightarrow> unit go" where
  "CheckAndDeductQuota ticketTypeID qty = event_CheckAndDeductQuota ticketTypeID qty"

definition RestoreQuota :: "uuid \<Rightarrow> int32 \<Rightarrow> unit go" where
  "RestoreQuota ticketTypeID qty = event_RestoreQuota ticketTypeID qty"

definition GetTicketTypeForCheckout :: "uuid \<Rightarrow> TicketTypeRow go" where
  "GetTicketTypeForCheckout i =
     handle (event_GetTicketTypeByID i)
       (\<lambda>err. if errors_Is err ErrNotFound
              then fail (BadRequest CodeTicketTypeNotFound (Msg ''Ticket type %s does not exist.'' [ArgU i]))
              else fail err)
       ret"

section \<open>Sold counts\<close>

definition toTicketTypeView :: "TicketTypeRow \<Rightarrow> int \<Rightarrow> TicketTypeAdminView" where
  "toTicketTypeView row sold =
     \<lparr>ta_id = ttr_id row, ta_event = ttr_event row, ta_name = ttr_name row, ta_price = ttr_price row,
      ta_quota = ttr_quota row, ta_sold = sold, ta_sales_start = ttr_sales_start row,
      ta_sales_end = ttr_sales_end row\<rparr>"

definition withSoldCounts :: "OrderChecker option \<Rightarrow> TicketTypeRow list \<Rightarrow> TicketTypeAdminView list go" where
  "withSoldCounts s_orders rows =
     (if rows = [] then ret []
      else bind (case s_orders of
                   None \<Rightarrow> ret Map.empty
                 | Some oc \<Rightarrow> SoldCountByTicketType oc (map ttr_id rows)) (\<lambda>sold.
        ret (map (\<lambda>row. toTicketTypeView row (case sold (ttr_id row) of None \<Rightarrow> 0 | Some n \<Rightarrow> n)) rows)))"

section \<open>Admin operations on events\<close>

definition ListEvents :: "EventAdminView list go" where
  "ListEvents = event_ListEvents"

definition ListTicketTypes :: "OrderChecker option \<Rightarrow> uuid \<Rightarrow> TicketTypeAdminView list go" where
  "ListTicketTypes s_orders eventID = bind (event_ListTicketTypesAdmin eventID) (withSoldCounts s_orders)"

definition GetEventDetail :: "OrderChecker option \<Rightarrow> uuid \<Rightarrow> EventAdminDetail go" where
  "GetEventDetail s_orders i =
     handle (event_GetEventByID i)
       (\<lambda>err. if errors_Is err ErrNotFound
              then fail (NotFound CodeEventNotFound (text_msg ''Event not found.'')) else fail err)
       (\<lambda>view.
     bind (ListTicketTypes s_orders i) (\<lambda>types.
     ret \<lparr>EventAdminView_of = view, ad_ticket_types = types\<rparr>))"

definition toEventParams :: "EventRequest \<Rightarrow> AdminEventParams" where
  "toEventParams r =
     \<lparr>ep_name = er_name r, ep_slug = er_slug r, ep_description = er_description r,
      ep_venue = er_venue r, ep_address = er_address r, ep_start = er_start r, ep_end = er_end r,
      ep_banner = er_banner r, ep_status = er_status r\<rparr>"

definition slugTakenError :: "string \<Rightarrow> goerror" where
  "slugTakenError slug =
     BadRequest CodeSlugNotUnique (Msg ''The slug %q is already used by another event.'' [ArgS slug])"

definition ticketTypeNotFound :: goerror where
  "ticketTypeNotFound = NotFound CodeTicketTypeNotFound (text_msg ''Ticket type not found.'')"

definition CreateEvent :: "EventRequest \<Rightarrow> EventAdminView go" where
  "CreateEvent req =
     bind (check (EventRequest_Validate req)) (\<lambda>_.
     handle (event_CreateEvent (toEventParams req))
       (\<lambda>err. if errors_Is err ErrSlugTaken then fail (slugTakenError (er_slug req)) else fail err)
       ret)"

definition UpdateEvent :: "uuid \<Rightarrow> EventRequest \<Rightarrow> EventAdminView go" where
  "UpdateEvent i req =
     bind (check (EventRequest_Validate req)) (\<lambda>_.
     handle (event_UpdateEvent i (toEventParams req))
       (\<lambda>err. if errors_Is err ErrSlugTaken then fail (slugTakenError (er_slug req))
              else if errors_Is err ErrNotFound
              then fail (NotFound CodeEventNotFound (text_msg ''Event not found.''))
              else fail err)
       ret)"

text \<open>
  The two deletions guard a \<open>DELETE\<close> by a read that locks nothing, so at \<open>READ COMMITTED\<close> others may
  commit between the statements: \<open>rivals n\<close> is what they do to the database in the \<open>n\<close>-th gap.
\<close>

definition DeleteEvent_tx :: "(nat \<Rightarrow> database \<Rightarrow> database) \<Rightarrow> OrderChecker \<Rightarrow> uuid \<Rightarrow> bool tx" where
  "DeleteEvent_tx rivals oc i =
     tx_bind (own (event_ListTicketTypeIDsByEventID i)) (\<lambda>ticketTypeIDs.
     tx_bind (others (rivals 0)) (\<lambda>_.
     tx_bind (own (HasOrdersForTicketTypes oc ticketTypeIDs)) (\<lambda>hasOrders.
     if hasOrders then
       own (fail (BadRequest CodeEventHasOrders (text_msg
         ''This event cannot be deleted because one of its ticket types has been ordered.'')))
     else
       tx_bind (others (rivals 1)) (\<lambda>_.
       tx_bind (own (event_DeleteTicketTypesByEventID i)) (\<lambda>_.
       tx_bind (others (rivals 2)) (\<lambda>_.
       own (event_DeleteEvent i)))))))"

definition DeleteEvent_amid ::
  "(nat \<Rightarrow> database \<Rightarrow> database) \<Rightarrow> OrderChecker option \<Rightarrow> uuid \<Rightarrow> unit go" where
  "DeleteEvent_amid rivals s_orders i =
     (case s_orders of
        None \<Rightarrow> fail (Sentinel ''event: no order checker configured'')
      | Some oc \<Rightarrow>
          bind (InTx_amid (DeleteEvent_tx rivals oc i)) (\<lambda>found.
          if \<not> found then fail (NotFound CodeEventNotFound (text_msg ''Event not found.''))
          else ret ()))"

text \<open>The run in which no one else commits in between; \<open>System\<close> has the steps of the others.\<close>

definition DeleteEvent :: "OrderChecker option \<Rightarrow> uuid \<Rightarrow> unit go" where
  "DeleteEvent s_orders i = DeleteEvent_amid (\<lambda>_ d. d) s_orders i"

section \<open>Lookups for the order domain\<close>

definition TicketTypeNames :: "uuid list \<Rightarrow> (uuid \<rightharpoonup> string) go" where
  "TicketTypeNames ids = event_TicketTypeNamesByIDs ids"

definition TicketTypeDisplays :: "uuid list \<Rightarrow> (uuid \<rightharpoonup> TicketTypeDisplayRecord) go" where
  "TicketTypeDisplays ids = event_TicketTypeDisplaysByIDs ids"

definition TicketTypeIDsForEvent :: "uuid \<Rightarrow> uuid list go" where
  "TicketTypeIDsForEvent eventID = event_ListTicketTypeIDsByEventID eventID"

section \<open>Admin operations on ticket types\<close>

text \<open>\<open>views[0]\<close> is the view of the one row passed in; \<open>withSoldCounts\<close> returns a view per row.\<close>

definition GetTicketType :: "OrderChecker option \<Rightarrow> uuid \<Rightarrow> TicketTypeAdminView go" where
  "GetTicketType s_orders i =
     handle (event_GetTicketTypeAdmin i)
       (\<lambda>err. if errors_Is err ErrNotFound then fail ticketTypeNotFound else fail err)
       (\<lambda>row. bind (withSoldCounts s_orders [row]) (\<lambda>views. ret (views ! 0)))"

definition CreateTicketType :: "TicketTypeRequest \<Rightarrow> TicketTypeAdminView go" where
  "CreateTicketType req =
     bind (check (TicketTypeRequest_Validate req True)) (\<lambda>_.
     handle (event_GetEventByID (tr_event req))
       (\<lambda>err. if errors_Is err ErrNotFound
              then fail (BadRequest CodeEventNotFound (Msg ''Event %s does not exist.'' [ArgU (tr_event req)]))
              else fail err)
       (\<lambda>_.
     bind (event_CreateTicketType
             \<lparr>tp_event = tr_event req, tp_name = tr_name req, tp_price = tr_price req,
              tp_quota = tr_quota req, tp_sales_start = tr_sales_start req,
              tp_sales_end = tr_sales_end req\<rparr>) (\<lambda>created.
     ret (toTicketTypeView created 0))))"

definition UpdateTicketType ::
  "OrderChecker option \<Rightarrow> uuid \<Rightarrow> TicketTypeRequest \<Rightarrow> TicketTypeAdminView go" where
  "UpdateTicketType s_orders i req =
     bind (check (TicketTypeRequest_Validate req False)) (\<lambda>_.
     handle (event_UpdateTicketType i
               \<lparr>tp_event = uuid_Nil, tp_name = tr_name req, tp_price = tr_price req,
                tp_quota = tr_quota req, tp_sales_start = tr_sales_start req,
                tp_sales_end = tr_sales_end req\<rparr>)
       (\<lambda>err. if errors_Is err ErrNotFound then fail ticketTypeNotFound else fail err)
       (\<lambda>updated. bind (withSoldCounts s_orders [updated]) (\<lambda>views. ret (views ! 0))))"

definition DeleteTicketType_tx :: "(nat \<Rightarrow> database \<Rightarrow> database) \<Rightarrow> OrderChecker \<Rightarrow> uuid \<Rightarrow> bool tx" where
  "DeleteTicketType_tx rivals oc i =
     tx_bind (own (HasOrdersForTicketType oc i)) (\<lambda>hasOrders.
     if hasOrders then
       own (fail (BadRequest CodeTicketTypeHasOrders (text_msg
         ''This ticket type cannot be deleted because it has been ordered.'')))
     else
       tx_bind (others (rivals 0)) (\<lambda>_.
       own (event_DeleteTicketType i)))"

definition DeleteTicketType_amid ::
  "(nat \<Rightarrow> database \<Rightarrow> database) \<Rightarrow> OrderChecker option \<Rightarrow> uuid \<Rightarrow> unit go" where
  "DeleteTicketType_amid rivals s_orders i =
     (case s_orders of
        None \<Rightarrow> fail (Sentinel ''event: no order checker configured'')
      | Some oc \<Rightarrow>
          bind (InTx_amid (DeleteTicketType_tx rivals oc i)) (\<lambda>found.
          if \<not> found then fail ticketTypeNotFound else ret ()))"

definition DeleteTicketType :: "OrderChecker option \<Rightarrow> uuid \<Rightarrow> unit go" where
  "DeleteTicketType s_orders i = DeleteTicketType_amid (\<lambda>_ d. d) s_orders i"

lemma DeleteTicketType_alone:
  "DeleteTicketType (Some oc) i =
     bind (InTx (
       bind (HasOrdersForTicketType oc i) (\<lambda>hasOrders.
       if hasOrders then
         fail (BadRequest CodeTicketTypeHasOrders (text_msg
           ''This ticket type cannot be deleted because it has been ordered.''))
       else event_DeleteTicketType i))) (\<lambda>found.
     if \<not> found then fail ticketTypeNotFound else ret ())"
  unfolding DeleteTicketType_def DeleteTicketType_amid_def option.case DeleteTicketType_tx_def others_none
  by (simp only: if_distrib [of own, symmetric] tx_bind_own InTx_amid_own)

lemma DeleteEvent_alone:
  "DeleteEvent (Some oc) i =
     bind (InTx (
       bind (event_ListTicketTypeIDsByEventID i) (\<lambda>ticketTypeIDs.
       bind (HasOrdersForTicketTypes oc ticketTypeIDs) (\<lambda>hasOrders.
       if hasOrders then
         fail (BadRequest CodeEventHasOrders (text_msg
           ''This event cannot be deleted because one of its ticket types has been ordered.''))
       else
         bind (event_DeleteTicketTypesByEventID i) (\<lambda>_.
         event_DeleteEvent i))))) (\<lambda>found.
     if \<not> found then fail (NotFound CodeEventNotFound (text_msg ''Event not found.'')) else ret ())"
  unfolding DeleteEvent_def DeleteEvent_amid_def option.case DeleteEvent_tx_def others_none
  by (simp only: if_distrib [of own, symmetric] tx_bind_own InTx_amid_own)

section \<open>Frames\<close>

lemma check_simps [simp]: "check None = ret ()" "check (Some e) = fail e"
  by (simp_all add: check_def)

lemma check_Inr: "check v w = (Inr x, w') \<longleftrightarrow> v = None \<and> w' = w"
  by (cases v) auto

lemma readonly_check [readonly_intros]: "readonly (check v)"
  by (cases v) (auto intro: readonly_intros)

lemma quiet_check [quiet_intros]: "quiet (check v)"
  by (cases v) (auto intro: quiet_intros)

lemma readonly_event_reads [readonly_intros]:
  "readonly (event_GetTicketTypeByID i)"
  "readonly (event_ListTicketTypeIDsByEventID i)"
  "readonly (event_TicketTypeNamesByIDs ids)"
  "readonly (event_TicketTypeDisplaysByIDs ids)"
  "readonly (event_ListTicketTypesAdmin i)"
  "readonly (event_GetTicketTypeAdmin i)"
  "readonly (event_GetEventByID i)"
  by (simp_all only: event_GetTicketTypeByID_def event_ListTicketTypeIDsByEventID_def
      event_TicketTypeNamesByIDs_def event_TicketTypeDisplaysByIDs_def event_ListTicketTypesAdmin_def
      event_GetTicketTypeAdmin_def event_GetEventByID_def)
     (intro readonly_intros)+

lemma readonly_service_reads [readonly_intros]:
  "readonly (GetTicketTypeForCheckout i)" "readonly (TicketTypeNames ids)"
  "readonly (TicketTypeDisplays ids)" "readonly (TicketTypeIDsForEvent i)"
  unfolding GetTicketTypeForCheckout_def TicketTypeNames_def TicketTypeDisplays_def
    TicketTypeIDsForEvent_def
  by (intro readonly_intros)+

lemma quiet_quota [quiet_intros]:
  "quiet (CheckAndDeductQuota t q)" "quiet (RestoreQuota t q)" "quiet (GetTicketTypeForCheckout t)"
  unfolding CheckAndDeductQuota_def RestoreQuota_def GetTicketTypeForCheckout_def
    event_CheckAndDeductQuota_def event_RestoreQuota_def event_GetTicketTypeByID_def
  by (intro quiet_intros)+

lemma keeps_event_writes [keeps_intros]:
  "ensures (kept schema_ok) (CheckAndDeductQuota t q)"
  "ensures (kept schema_ok) (RestoreQuota t q)"
  "ensures (kept schema_ok) (event_CreateEvent p)"
  "ensures (kept schema_ok) (event_UpdateEvent i p)"
  "ensures (kept schema_ok) (event_DeleteTicketTypesByEventID i)"
  "ensures (kept schema_ok) (event_DeleteEvent i)"
  "ensures (kept schema_ok) (event_CreateTicketType tp)"
  "ensures (kept schema_ok) (event_UpdateTicketType i tp)"
  "ensures (kept schema_ok) (event_DeleteTicketType i)"
  unfolding CheckAndDeductQuota_def RestoreQuota_def
    event_CheckAndDeductQuota_def event_RestoreQuota_def event_CreateEvent_def
    event_UpdateEvent_def event_DeleteTicketTypesByEventID_def event_DeleteEvent_def
    event_CreateTicketType_def event_UpdateTicketType_def event_DeleteTicketType_def
  by (intro keeps_intros inv.ensures_stmt; auto simp: kept_def dest: schema_event_sql)+

section \<open>Quota\<close>

lemma CheckAndDeductQuota_Inr:
  assumes "CheckAndDeductQuota t q w = (Inr u, w')" and "schema_ok (wdb w)"
  shows "quota_moved t (- sint q) (wdb w) (wdb w')"
  using assms
  by (auto simp: CheckAndDeductQuota_def event_CheckAndDeductQuota_def bind_Inr
      elim!: stmt_Inr dest: CheckAndDeductQuota_moved)

lemma RestoreQuota_Inr:
  assumes "RestoreQuota t q w = (Inr u, w')" and "schema_ok (wdb w)"
  shows "quota_moved t (sint q) (wdb w) (wdb w')"
  using assms
  by (auto simp: RestoreQuota_def event_RestoreQuota_def bind_Inr
      elim!: stmt_Inr dest: RestoreQuota_moved)

lemma CheckAndDeductQuota_Inl:
  "CheckAndDeductQuota t q w = (Inl e, w') \<Longrightarrow> wdb w' = wdb w"
  by (auto simp: CheckAndDeductQuota_def event_CheckAndDeductQuota_def bind_Inl row_or_Inl
      dest: stmt_Inl)

lemma GetTicketTypeForCheckout_Inr:
  "GetTicketTypeForCheckout i w = (Inr row, w') \<Longrightarrow>
   \<exists>r. find (\<lambda>r. tt_id r = i) (ticket_types (wdb w)) = Some r \<and> row = toTicketTypeRow r"
  by (auto simp: GetTicketTypeForCheckout_def event_GetTicketTypeByID_def handle_Inr bind_Inr
      sql_GetTicketTypeByID_def dest!: query_row_Inr split: if_splits)

section \<open>The delete guards\<close>

text \<open>
  What the three deleting statements answer. The foreign keys onto the rows are what the database
  itself defends.
\<close>

definition without_type :: "uuid \<Rightarrow> database \<Rightarrow> database" where
  "without_type i d = d\<lparr>ticket_types := filter (\<lambda>r. tt_id r \<noteq> i) (ticket_types d)\<rparr>"

definition without_types_of :: "uuid \<Rightarrow> database \<Rightarrow> database" where
  "without_types_of i d = d\<lparr>ticket_types := filter (\<lambda>r. tt_event r \<noteq> i) (ticket_types d)\<rparr>"

definition without_event :: "uuid \<Rightarrow> database \<Rightarrow> database" where
  "without_event i d = d\<lparr>events := filter (\<lambda>e. ev_id e \<noteq> i) (events d)\<rparr>"

text \<open>Some ticket type of the event has been ordered.\<close>

definition types_ordered :: "uuid \<Rightarrow> database \<Rightarrow> bool" where
  "types_ordered i d \<longleftrightarrow> list_ex (\<lambda>r. tt_event r = i \<and> type_referenced d (tt_id r)) (ticket_types d)"

lemma event_DeleteTicketType_run:
  assumes "event_DeleteTicketType i w = (r, w')"
  shows "case r of
      Inr found \<Rightarrow> found = has_key tt_id i (ticket_types (wdb w)) \<and> (found \<longrightarrow> \<not> type_referenced (wdb w) i) \<and>
        wdb w' = without_type i (wdb w)
    | Inl e \<Rightarrow> wdb w' = wdb w \<and> (errors_Is e foreign_key_violation \<longrightarrow>
        has_key tt_id i (ticket_types (wdb w)) \<and> type_referenced (wdb w) i)"
  using assms
  by (cases r) (auto simp: event_DeleteTicketType_def bind_Inr bind_Inl wrapping_Inl sql_DeleteTicketType_def
      without_type_def has_key_iff filter_empty_conv dest!: stmt_refused elim!: stmt_Inr split: if_splits)

lemma event_DeleteTicketTypes_run:
  assumes "event_DeleteTicketTypesByEventID i w = (r, w')"
  shows "case r of
      Inr _ \<Rightarrow> \<not> types_ordered i (wdb w) \<and> wdb w' = without_types_of i (wdb w)
    | Inl e \<Rightarrow> wdb w' = wdb w \<and> (errors_Is e foreign_key_violation \<longrightarrow> types_ordered i (wdb w))"
  using assms
  by (cases r) (auto simp: event_DeleteTicketTypesByEventID_def bind_Inr bind_Inl wrapping_Inl Let_def
      sql_DeleteTicketTypesByEventID_def without_types_of_def types_ordered_def list_ex_iff
      dest!: stmt_refused elim!: stmt_Inr split: if_splits)

lemma event_DeleteEvent_run:
  assumes "event_DeleteEvent i w = (r, w')"
  shows "case r of
      Inr found \<Rightarrow> found = has_key ev_id i (events (wdb w)) \<and> (found \<longrightarrow> \<not> has_key tt_event i (ticket_types (wdb w))) \<and>
        wdb w' = without_event i (wdb w)
    | Inl e \<Rightarrow> wdb w' = wdb w \<and> (errors_Is e foreign_key_violation \<longrightarrow> has_key tt_event i (ticket_types (wdb w)))"
  using assms
  by (cases r; auto simp: event_DeleteEvent_def bind_Inr bind_Inl wrapping_Inl sql_DeleteEvent_def
      without_event_def has_key_iff image_iff filter_empty_conv dest!: stmt_refused elim!: stmt_Inr split: if_splits) metis+

lemma without_absent:
  "\<not> has_key tt_id i (ticket_types d) \<Longrightarrow> without_type i d = d"
  "\<not> has_key ev_id i (events d) \<Longrightarrow> without_event i d = d"
proof -
  assume "\<not> has_key tt_id i (ticket_types d)"
  then have "filter (\<lambda>r. tt_id r \<noteq> i) (ticket_types d) = ticket_types d" by (intro filter_True) (auto simp: has_key_iff)
  then show "without_type i d = d" by (simp add: without_type_def)
next
  assume "\<not> has_key ev_id i (events d)"
  then have "filter (\<lambda>e. ev_id e \<noteq> i) (events d) = events d" by (intro filter_True) (auto simp: has_key_iff)
  then show "without_event i d = d" by (simp add: without_event_def)
qed

lemma ListTicketTypeIDs_Inr:
  "event_ListTicketTypeIDsByEventID i w = (Inr ids, w') \<Longrightarrow>
   set ids = tt_id ` {r \<in> set (ticket_types (wdb w)). tt_event r = i} \<and> wdb w' = wdb w"
  by (auto simp: event_ListTicketTypeIDsByEventID_def sql_ListTicketTypeIDsByEventID_def dest!: query_rows_Inr)

text \<open>
  What the event domain promises itself of the order domain: the guards read only, their answer
  is whether an order line or an attendee refers to the type, and when they fail it is not a
  foreign key that failed.
\<close>

locale order_checker =
  fixes oc :: OrderChecker
  assumes one_readonly: "readonly (HasOrdersForTicketType oc i)"
    and many_readonly: "readonly (HasOrdersForTicketTypes oc ids)"
    and sold_readonly: "readonly (SoldCountByTicketType oc ids)"
    and one_answer: "HasOrdersForTicketType oc i w = (Inr b, w') \<Longrightarrow> b = type_referenced (wdb w) i"
    and many_answer: "HasOrdersForTicketTypes oc ids w = (Inr b, w') \<Longrightarrow>
      b = list_ex (type_referenced (wdb w)) ids"
    and one_error: "HasOrdersForTicketType oc i w = (Inl e, w') \<Longrightarrow> \<not> errors_Is e foreign_key_violation"
    and many_error: "HasOrdersForTicketTypes oc ids w = (Inl e, w') \<Longrightarrow>
      \<not> errors_Is e foreign_key_violation"
begin

lemma guard_type:
  assumes "DeleteTicketType_tx rivals oc i (wdb w) w = (r, b, w')"
  shows "b = wdb w \<and> (\<exists>e. r = Inl e \<and> \<not> errors_Is e foreign_key_violation) \<or>
    b = rivals 0 (wdb w) \<and> \<not> type_referenced (wdb w) i \<and>
      (\<exists>v. wdb v = rivals 0 (wdb w) \<and> event_DeleteTicketType i v = (r, w'))"
  using assms unfolding DeleteTicketType_tx_def
proof (cases rule: tx_bind_cases)
  case (fails e)
  then show ?thesis by (auto simp: own_run dest: one_error)
next
  case (goes_on has d1 w1)
  then have guard: "HasOrdersForTicketType oc i w = (Inr has, w1)" and d1: "d1 = wdb w" by (simp_all add: own_run)
  from readonlyD [OF one_readonly guard] one_answer [OF guard] have "wdb w1 = wdb w" "has = type_referenced (wdb w) i" .
  with goes_on(2) d1 show ?thesis
    by (cases has) (auto simp: own_run apperr_defs intro!: exI [of _ "w1\<lparr>wdb := rivals 0 (wdb w1)\<rparr>"])
qed

lemma delete_type_amid:
  assumes run: "DeleteTicketType_amid rivals (Some oc) i w = (r, w')"
  shows "case r of
      Inr _ \<Rightarrow> \<not> type_referenced (wdb w) i \<and> has_key tt_id i (ticket_types (rivals 0 (wdb w))) \<and>
        \<not> type_referenced (rivals 0 (wdb w)) i \<and> wdb w' = without_type i (rivals 0 (wdb w))
    | Inl e \<Rightarrow> wdb w' \<in> {wdb w, rivals 0 (wdb w)} \<and> (errors_Is e foreign_key_violation \<longrightarrow>
        \<not> type_referenced (wdb w) i \<and> type_referenced (rivals 0 (wdb w)) i)"
proof -
  obtain q w1 where tx: "InTx_amid (DeleteTicketType_tx rivals oc i) w = (q, w1)" by fastforce
  from run tx have r: "r = (case q of Inl e \<Rightarrow> Inl e | Inr found \<Rightarrow> if found then Inr () else Inl ticketTypeNotFound)"
    and w': "wdb w' = wdb w1"
    by (auto simp: DeleteTicketType_amid_def bind_run split: sum.splits if_splits)
  have no_fk: "\<not> errors_Is ticketTypeNotFound foreign_key_violation" by (simp add: ticketTypeNotFound_def apperr_defs)
  from tx show ?thesis
  proof (cases rule: InTx_amid_cases)
    case (failed e v v')
    with guard_type [of rivals i v] show ?thesis
      by (auto simp: r w' dest!: event_DeleteTicketType_run)
  next
    case (uncommitted msg x v v')
    with guard_type [of rivals i v] show ?thesis by (auto simp: r w')
  next
    case (committed x d v v')
    with guard_type [of rivals i v] show ?thesis
      by (cases x) (auto simp: r w' no_fk without_absent dest!: event_DeleteTicketType_run)
  qed (simp add: r w')
qed

lemma guard_event:
  assumes "DeleteEvent_tx rivals oc i (wdb w) w = (r, b, w')"
  shows "b \<in> {wdb w, rivals 0 (wdb w)} \<and> (\<exists>e. r = Inl e \<and> \<not> errors_Is e foreign_key_violation) \<or>
    (\<forall>t \<in> set (ticket_types (wdb w)). tt_event t = i \<longrightarrow> \<not> type_referenced (rivals 0 (wdb w)) (tt_id t)) \<and>
    ((\<exists>v e v'. wdb v = rivals 1 (rivals 0 (wdb w)) \<and> event_DeleteTicketTypesByEventID i v = (Inl e, v') \<and>
        r = Inl e \<and> b = rivals 1 (rivals 0 (wdb w))) \<or>
     (\<exists>v v' v2. wdb v = rivals 1 (rivals 0 (wdb w)) \<and> event_DeleteTicketTypesByEventID i v = (Inr (), v') \<and>
        b = rivals 2 (rivals 1 (rivals 0 (wdb w))) \<and> wdb v2 = rivals 2 (wdb v') \<and> event_DeleteEvent i v2 = (r, w')))"
  using assms unfolding DeleteEvent_tx_def
proof (cases rule: tx_bind_cases)
  case (fails e)
  then show ?thesis
    by (auto simp: own_run event_ListTicketTypeIDsByEventID_def wrapping_Inl query_rows_run split: if_splits)
next
  case (goes_on ids d1 w1)
  then have ids: "event_ListTicketTypeIDsByEventID i w = (Inr ids, w1)" and d1: "d1 = wdb w" by (simp_all add: own_run)
  note listed = ListTicketTypeIDs_Inr [OF ids]
  let ?w = "w1\<lparr>wdb := rivals 0 (wdb w1)\<rparr>"
  from goes_on(2) have rest: "tx_bind (own (HasOrdersForTicketTypes oc ids)) (\<lambda>hasOrders.
     if hasOrders then
       own (fail (BadRequest CodeEventHasOrders (text_msg
         ''This event cannot be deleted because one of its ticket types has been ordered.'')))
     else
       tx_bind (others (rivals 1)) (\<lambda>_.
       tx_bind (own (event_DeleteTicketTypesByEventID i)) (\<lambda>_.
       tx_bind (others (rivals 2)) (\<lambda>_.
       own (event_DeleteEvent i))))) (rivals 0 (wdb w)) ?w = (r, b, w')"
    using d1 by simp
  then show ?thesis
  proof (cases rule: tx_bind_cases)
    case (fails e)
    then show ?thesis by (auto simp: own_run dest: many_error)
  next
    case (goes_on has d2 w2)
    then have guard: "HasOrdersForTicketTypes oc ids ?w = (Inr has, w2)" and d2: "d2 = rivals 0 (wdb w)"
      by (simp_all add: own_run)
    from readonlyD [OF many_readonly guard] many_answer [OF guard] listed
    have db: "wdb w2 = rivals 0 (wdb w)"
      and has: "has = (\<exists>t \<in> set (ticket_types (wdb w)). tt_event t = i \<and> type_referenced (rivals 0 (wdb w)) (tt_id t))"
      by (auto simp: list_ex_iff)
    show ?thesis
    proof (cases has)
      case True
      with goes_on(2) d2 show ?thesis by (auto simp: own_run apperr_defs)
    next
      case False
      let ?v = "w2\<lparr>wdb := rivals 1 (wdb w2)\<rparr>"
      obtain u v' where types: "event_DeleteTicketTypesByEventID i ?v = (u, v')" by fastforce
      have v: "wdb ?v = rivals 1 (rivals 0 (wdb w))" by (simp add: db)
      show ?thesis
      proof (cases u)
        case (Inl e)
        with goes_on(2) False d2 types have "r = Inl e" "b = rivals 1 (rivals 0 (wdb w))"
          by (simp_all add: own_then)
        with False has v types Inl show ?thesis by blast
      next
        case (Inr x)
        with goes_on(2) False d2 types have "b = rivals 2 (rivals 1 (rivals 0 (wdb w)))"
          and "event_DeleteEvent i (v'\<lparr>wdb := rivals 2 (wdb v')\<rparr>) = (r, w')"
          by (simp_all add: own_then own_run)
        moreover have "wdb (v'\<lparr>wdb := rivals 2 (wdb v')\<rparr>) = rivals 2 (wdb v')" by simp
        moreover note False has v types Inr
        ultimately show ?thesis by (metis old.unit.exhaust)
      qed
    qed
  qed
qed

lemma delete_event_amid:
  assumes run: "DeleteEvent_amid rivals (Some oc) i w = (r, w')"
  shows "let d1 = rivals 0 (wdb w); d2 = rivals 1 d1; d3 = rivals 2 (without_types_of i d2) in
    case r of
      Inr _ \<Rightarrow> (\<forall>t \<in> set (ticket_types (wdb w)). tt_event t = i \<longrightarrow> \<not> type_referenced d1 (tt_id t)) \<and>
        \<not> types_ordered i d2 \<and> \<not> has_key tt_event i (ticket_types d3) \<and> has_key ev_id i (events d3) \<and>
        wdb w' = without_event i d3
    | Inl e \<Rightarrow> (wdb w' \<in> {wdb w, d1, d2, rivals 2 d2} \<or> \<not> has_key ev_id i (events d3) \<and> wdb w' = d3) \<and>
        (errors_Is e foreign_key_violation \<longrightarrow>
          (\<forall>t \<in> set (ticket_types (wdb w)). tt_event t = i \<longrightarrow> \<not> type_referenced d1 (tt_id t)) \<and>
          (types_ordered i d2 \<or> has_key tt_event i (ticket_types d3)))"
proof -
  let ?nf = "NotFound CodeEventNotFound (text_msg ''Event not found.'')"
  obtain q w1 where tx: "InTx_amid (DeleteEvent_tx rivals oc i) w = (q, w1)" by fastforce
  from run tx have r: "r = (case q of Inl e \<Rightarrow> Inl e | Inr found \<Rightarrow> if found then Inr () else Inl ?nf)"
    and w': "wdb w' = wdb w1"
    by (auto simp: DeleteEvent_amid_def bind_run split: sum.splits if_splits)
  have no_fk: "\<not> errors_Is ?nf foreign_key_violation" by (simp add: apperr_defs)
  from tx show ?thesis
  proof (cases rule: InTx_amid_cases)
    case (failed e v v')
    with guard_event [of rivals i v] show ?thesis
      by (auto simp: r w' Let_def split: sum.splits dest!: event_DeleteTicketTypes_run event_DeleteEvent_run)
  next
    case (uncommitted msg x v v')
    with guard_event [of rivals i v] show ?thesis by (auto simp: r w' Let_def split: sum.splits)
  next
    case (committed x d v v')
    with guard_event [of rivals i v] show ?thesis
      by (cases x) (auto simp: r w' Let_def no_fk without_absent split: sum.splits
          dest!: event_DeleteTicketTypes_run event_DeleteEvent_run)
  qed (simp add: r w' Let_def)
qed

text \<open>When no one else commits in between, the guard answers for the deletion: no foreign key is violated.\<close>

lemma delete_type_error:
  "DeleteTicketType (Some oc) i w = (Inl e, w') \<Longrightarrow> \<not> errors_Is e foreign_key_violation"
  unfolding DeleteTicketType_def by (drule delete_type_amid) auto

lemma delete_event_error:
  "DeleteEvent (Some oc) i w = (Inl e, w') \<Longrightarrow> \<not> errors_Is e foreign_key_violation"
  unfolding DeleteEvent_def
  by (drule delete_event_amid) (auto simp: Let_def types_ordered_def without_types_of_def list_ex_iff has_key_iff)

lemma readonly_withSoldCounts: "readonly (withSoldCounts (Some oc) rows)"
  unfolding withSoldCounts_def by (auto intro!: readonly_intros sold_readonly)

lemma update_type_success:
  assumes run: "UpdateTicketType (Some oc) i req w = (Inr v, w')" and ok: "schema_ok (wdb w)"
  shows "quota_of (wdb w) i \<noteq> None \<and>
    quota_of (wdb w') = (quota_of (wdb w))(i \<mapsto> sint (tr_quota req)) \<and> ta_quota v = tr_quota req"
proof -
  let ?p = "\<lparr>tp_event = uuid_Nil, tp_name = tr_name req, tp_price = tr_price req,
                tp_quota = tr_quota req, tp_sales_start = tr_sales_start req,
                tp_sales_end = tr_sales_end req\<rparr>"
  from run obtain row views w1 where upd: "event_UpdateTicketType i ?p w = (Inr row, w1)"
    and sold: "withSoldCounts (Some oc) [row] w1 = (Inr views, w')" and v: "v = views ! 0"
    by (auto simp: UpdateTicketType_def handle_Inr bind_Inr check_Inr split: if_splits)
  from upd obtain r t where row: "row = toTicketTypeRow (set_type ?p t r)"
    and r: "r \<in> set (ticket_types (wdb w))" "tt_id r = i"
    and db: "wdb w1 = (wdb w)\<lparr>ticket_types := upd_where (\<lambda>x. tt_id x = i) (set_type ?p t) (ticket_types (wdb w))\<rparr>"
    by (auto simp: event_UpdateTicketType_def bind_Inr sql_UpdateTicketType_def
        elim!: stmt_Inr split: option.splits if_splits dest!: find_SomeD)
  from readonlyD [OF readonly_withSoldCounts sold] have "wdb w' = wdb w1" by simp
  moreover have "quota_of (wdb w1) = (quota_of (wdb w))(tt_id r \<mapsto> tt_quota (set_type ?p t r))"
    unfolding db by (rule quota_of_update [OF ok, where r = r]) (use r in \<open>auto simp: set_type_def\<close>)
  moreover from sold have "ta_quota v = ttr_quota row"
    by (auto simp: v withSoldCounts_def bind_Inr toTicketTypeView_def)
  ultimately show ?thesis
    using quota_of_row [OF ok r(1)] r(2) by (simp add: row set_type_def toTicketTypeRow_def)
qed

end

section \<open>Validated requests\<close>

text \<open>
  A request that passes validation never reaches a constraint of the schema: what is left is a
  slug that is taken, which is answered as such, and a database that cannot be reached.
\<close>

lemma EventRequest_Validate_None:
  "EventRequest_Validate r = None \<Longrightarrow>
   MatchString slugPattern (er_slug r) \<and> er_start r \<le> er_end r \<and> er_status r \<in> set event_statuses"
  by (auto simp: EventRequest_Validate_def event_statuses_def split: if_splits)

lemma CreateEvent_error:
  assumes "CreateEvent req w = (Inl e, w')"
  shows "EventRequest_Validate req = Some e \<or> e = slugTakenError (er_slug req) \<or>
    e = Errorf (text_msg ''create event: %w'') [DriverError ''database'']"
proof (cases "EventRequest_Validate req")
  case None
  with EventRequest_Validate_None have "List.member event_statuses (ep_status (toEventParams req))"
    by (simp add: toEventParams_def)
  with None assms show ?thesis
    by (auto simp: CreateEvent_def event_CreateEvent_def bind_run handle_def sql_CreateEvent_def Let_def
        split: prod.splits sum.splits if_splits elim!: stmt_Inl_cases)
qed (use assms in \<open>auto simp: CreateEvent_def bind_run\<close>)

end
