(* ===== verification/Order_Sql.thy ===== *)
theory Order_Sql
  imports Event_Sql
begin

text \<open>
  The SQL statements of the order domain (\<open>internal/order/queries/order.sql\<close>, generated into
  \<open>ordersql/order.sql.go\<close>), over \<open>orders\<close>, \<open>order_items\<close> and \<open>attendees\<close>, with the schema
  each one keeps and its effect on the statuses and seats of orders.
\<close>

section \<open>Writes\<close>

record CreateOrderParams =
  cop_number :: string
  cop_buyer_name :: string
  cop_buyer_email :: string
  cop_buyer_phone :: string
  cop_total :: decimal

definition sql_CreateOrder :: "CreateOrderParams \<Rightarrow> order_row sql" where
  "sql_CreateOrder p = (\<lambda>i t d.
     if has_key ord_id i (orders d) \<or> has_key ord_number (cop_number p) (orders d) then Inl unique_violation
     else let r = \<lparr>ord_id = i, ord_number = cop_number p, ord_buyer_name = cop_buyer_name p,
                   ord_buyer_email = cop_buyer_email p, ord_buyer_phone = cop_buyer_phone p,
                   ord_total = cop_total p, ord_status = OrderStatusPending, ord_provider = None,
                   ord_payment_url = None, ord_email_sent = Some False, ord_created_at = Some t,
                   ord_updated_at = Some t, ord_qr_string = None, ord_expires_at = None\<rparr>
          in Inr (r, d\<lparr>orders := orders d @ [r]\<rparr>))"

definition sql_CreateOrderItem :: "uuid \<Rightarrow> uuid \<Rightarrow> int32 \<Rightarrow> decimal \<Rightarrow> item_row sql" where
  "sql_CreateOrderItem orderID ticketTypeID quantity price = (\<lambda>i t d.
     if has_key it_id i (order_items d) then Inl unique_violation
     else if \<not> has_key ord_id orderID (orders d) \<or> \<not> has_key tt_id ticketTypeID (ticket_types d)
     then Inl foreign_key_violation
     else let r = \<lparr>it_id = i, it_order = orderID, it_type = ticketTypeID, it_qty = sint quantity,
                   it_price = price\<rparr>
          in Inr (r, d\<lparr>order_items := order_items d @ [r]\<rparr>))"

definition sql_CreateAttendee :: "uuid \<Rightarrow> uuid \<Rightarrow> string \<Rightarrow> string \<Rightarrow> attendee_row sql" where
  "sql_CreateAttendee orderID ticketTypeID name email = (\<lambda>i t d.
     if has_key at_id i (attendees d) then Inl unique_violation
     else if \<not> has_key ord_id orderID (orders d) \<or> \<not> has_key tt_id ticketTypeID (ticket_types d)
     then Inl foreign_key_violation
     else let r = \<lparr>at_id = i, at_order = orderID, at_type = ticketTypeID, at_name = name, at_email = email\<rparr>
          in Inr (r, d\<lparr>attendees := attendees d @ [r]\<rparr>))"

definition sql_UpdateOrderStatusIfPending :: "uuid \<Rightarrow> string \<Rightarrow> nat sql" where
  "sql_UpdateOrderStatusIfPending i status = (\<lambda>_ t d.
     let matched = filter (\<lambda>r. ord_id r = i \<and> ord_status r = OrderStatusPending) (orders d) in
     if matched \<noteq> [] \<and> \<not> List.member order_statuses status then Inl check_violation
     else Inr (length matched,
            d\<lparr>orders := upd_where (\<lambda>r. ord_id r = i \<and> ord_status r = OrderStatusPending)
                (\<lambda>r. r\<lparr>ord_status := status, ord_updated_at := Some t\<rparr>) (orders d)\<rparr>))"

definition sql_UpdatePaymentDetails ::
  "uuid \<Rightarrow> string option \<Rightarrow> string option \<Rightarrow> string option \<Rightarrow> gotime option \<Rightarrow> nat sql" where
  "sql_UpdatePaymentDetails i url provider qr expires = (\<lambda>_ t d.
     Inr (length (filter (\<lambda>r. ord_id r = i) (orders d)),
       d\<lparr>orders := upd_where (\<lambda>r. ord_id r = i)
           (\<lambda>r. r\<lparr>ord_payment_url := url, ord_provider := provider, ord_qr_string := qr,
                  ord_expires_at := expires, ord_updated_at := Some t\<rparr>) (orders d)\<rparr>))"

definition sql_SetEmailSent :: "uuid \<Rightarrow> nat sql" where
  "sql_SetEmailSent i = (\<lambda>_ t d.
     Inr (length (filter (\<lambda>r. ord_id r = i) (orders d)),
       d\<lparr>orders := upd_where (\<lambda>r. ord_id r = i)
           (\<lambda>r. r\<lparr>ord_email_sent := Some True, ord_updated_at := Some t\<rparr>) (orders d)\<rparr>))"

section \<open>Reads\<close>

definition sql_GetOrderByID :: "uuid \<Rightarrow> database \<Rightarrow> order_row option" where
  "sql_GetOrderByID i d = find (\<lambda>r. ord_id r = i) (orders d)"

definition sql_GetOrderByNumber :: "string \<Rightarrow> database \<Rightarrow> order_row option" where
  "sql_GetOrderByNumber n d = find (\<lambda>r. ord_number r = n) (orders d)"

definition sql_OrderNumberExists :: "string \<Rightarrow> database \<Rightarrow> bool" where
  "sql_OrderNumberExists n d = list_ex (\<lambda>r. ord_number r = n) (orders d)"

definition sql_ListOrderItemsByOrderID :: "uuid \<Rightarrow> scan \<Rightarrow> database \<Rightarrow> item_row list" where
  "sql_ListOrderItemsByOrderID i s d = filter (\<lambda>r. it_order r = i) (scanned s it_id (order_items d))"

definition sql_ListAttendeesByOrderID :: "uuid \<Rightarrow> database \<Rightarrow> attendee_row list" where
  "sql_ListAttendeesByOrderID i d = sort_key at_id (filter (\<lambda>r. at_order r = i) (attendees d))"

definition sql_HasOrdersForTicketType :: "uuid \<Rightarrow> database \<Rightarrow> bool option" where
  "sql_HasOrdersForTicketType i d =
     Some (list_ex (\<lambda>r. it_type r = i) (order_items d) \<or> list_ex (\<lambda>r. at_type r = i) (attendees d))"

definition sql_HasOrdersForTicketTypes :: "uuid list \<Rightarrow> database \<Rightarrow> bool option" where
  "sql_HasOrdersForTicketTypes ids d =
     Some (list_ex (\<lambda>r. List.member ids (it_type r)) (order_items d) \<or>
           list_ex (\<lambda>r. List.member ids (at_type r)) (attendees d))"

definition sql_ListOrdersDueForExpiry ::
  "gotime \<Rightarrow> int32 \<Rightarrow> scan \<Rightarrow> database \<Rightarrow> (uuid \<times> string \<times> string \<times> gotime option) list" where
  "sql_ListOrdersDueForExpiry t limit s d =
     map (\<lambda>r. (ord_id r, ord_number r, ord_status r, ord_expires_at r))
       (take (nat (sint limit))
         (sort_key (\<lambda>r. nulls_last (ord_expires_at r))
           (filter (\<lambda>r. ord_status r = OrderStatusPending \<and>
                (case ord_expires_at r of None \<Rightarrow> False | Some e \<Rightarrow> e \<le> t)) (scanned s ord_id (orders d)))))"

definition sql_SoldCountByTicketTypes :: "uuid list \<Rightarrow> scan \<Rightarrow> database \<Rightarrow> (uuid \<times> int) list" where
  "sql_SoldCountByTicketTypes ids s d =
     map (\<lambda>t. (t, sum_where (\<lambda>r. it_type r = t) it_qty (order_items d)))
       (remdups (filter (List.member ids) (map it_type (scanned s it_id (order_items d)))))"

text \<open>\<open>ORDER BY created_at DESC\<close> puts \<open>NULL\<close>s first.\<close>

definition newest_first :: "gotime option \<Rightarrow> bool \<times> gotime" where
  "newest_first v = (case v of None \<Rightarrow> (False, 0) | Some t \<Rightarrow> (True, - t))"

definition sql_ListOrdersAdmin ::
  "string option \<Rightarrow> uuid list option \<Rightarrow> scan \<Rightarrow> database \<Rightarrow> order_row list" where
  "sql_ListOrdersAdmin status ids s d =
     sort_key (\<lambda>r. newest_first (ord_created_at r))
       (filter (\<lambda>r. (case status of None \<Rightarrow> True | Some st \<Rightarrow> ord_status r = st) \<and>
          (case ids of None \<Rightarrow> True
           | Some ts \<Rightarrow> list_ex (\<lambda>i. it_order i = ord_id r \<and> List.member ts (it_type i)) (order_items d)))
        (scanned s ord_id (orders d)))"

definition sql_ListAttendeesAdmin ::
  "uuid option \<Rightarrow> uuid list option \<Rightarrow> scan \<Rightarrow> database \<Rightarrow> (attendee_row \<times> string) list" where
  "sql_ListAttendeesAdmin orderID ids s d =
     map (\<lambda>(a, r). (a, ord_number r))
       (sort_key (\<lambda>(a, r). (newest_first (ord_created_at r), collate d (at_name a)))
         (concat (map (\<lambda>a. map (\<lambda>r. (a, r)) (filter (\<lambda>r. ord_id r = at_order a) (orders d)))
           (filter (\<lambda>a. (case orderID of None \<Rightarrow> True | Some i \<Rightarrow> at_order a = i) \<and>
              (case ids of None \<Rightarrow> True | Some ts \<Rightarrow> List.member ts (at_type a)))
             (scanned s at_id (attendees d))))))"

section \<open>The statements keep the schema\<close>

lemma schema_CreateOrder:
  "sql_CreateOrder p i t d = Inr (x, d') \<Longrightarrow> schema_ok d \<Longrightarrow> schema_ok d'"
  by (auto simp: sql_CreateOrder_def Let_def has_key_iff split: if_splits intro!: schema_ok_orders)
     (auto simp: schema_defs order_statuses_def)

lemma schema_CreateOrderItem:
  "sql_CreateOrderItem ord tt q p i t d = Inr (x, d') \<Longrightarrow> schema_ok d \<Longrightarrow> schema_ok d'"
  by (auto simp: sql_CreateOrderItem_def Let_def has_key_iff split: if_splits
      intro!: schema_ok_order_items) (auto simp: schema_defs)

lemma schema_CreateAttendee:
  "sql_CreateAttendee ord tt n e i t d = Inr (x, d') \<Longrightarrow> schema_ok d \<Longrightarrow> schema_ok d'"
  by (auto simp: sql_CreateAttendee_def Let_def has_key_iff split: if_splits
      intro!: schema_ok_attendees) (auto simp: schema_defs)

lemma schema_update_orders:
  assumes "schema_ok d" and "\<And>r. ord_id (f r) = ord_id r" and "\<And>r. ord_number (f r) = ord_number r"
    and "\<And>r. r \<in> set (orders d) \<Longrightarrow> P r \<Longrightarrow> ord_status (f r) \<in> set order_statuses"
  shows "schema_ok (d\<lparr>orders := upd_where P f (orders d)\<rparr>)"
proof (rule schema_ok_orders [OF assms(1)])
  show "\<forall>r \<in> set (upd_where P f (orders d)). ord_status r \<in> set order_statuses"
    using assms(1,4) by (auto simp: set_upd_where schema_defs)
qed (use assms(1-3) in \<open>simp_all add: image_upd_where upd_where_key_distinct schema_defs\<close>)

lemma schema_UpdateOrderStatusIfPending:
  "sql_UpdateOrderStatusIfPending i s u t d = Inr (x, d') \<Longrightarrow> schema_ok d \<Longrightarrow> schema_ok d'"
  by (auto simp: sql_UpdateOrderStatusIfPending_def Let_def filter_empty_conv split: if_splits
      intro!: schema_update_orders)

lemma order_status_valid: "schema_ok d \<Longrightarrow> r \<in> set (orders d) \<Longrightarrow> ord_status r \<in> set order_statuses"
  by (simp add: schema_defs)

lemma schema_UpdatePaymentDetails:
  "sql_UpdatePaymentDetails i a b c e u t d = Inr (x, d') \<Longrightarrow> schema_ok d \<Longrightarrow> schema_ok d'"
  by (auto simp: sql_UpdatePaymentDetails_def order_status_valid intro!: schema_update_orders)

lemma schema_SetEmailSent:
  "sql_SetEmailSent i u t d = Inr (x, d') \<Longrightarrow> schema_ok d \<Longrightarrow> schema_ok d'"
  by (auto simp: sql_SetEmailSent_def order_status_valid intro!: schema_update_orders)

lemmas schema_order_sql = schema_CreateOrder schema_CreateOrderItem schema_CreateAttendee
  schema_UpdateOrderStatusIfPending schema_UpdatePaymentDetails schema_SetEmailSent

section \<open>Statuses and seats\<close>

lemma order_status_row:
  "schema_ok d \<Longrightarrow> r \<in> set (orders d) \<Longrightarrow> order_status d (ord_id r) = Some (ord_status r)"
  by (simp add: order_status_def schema_find_order)

lemma order_status_SomeD:
  "order_status d i = Some s \<Longrightarrow> \<exists>r \<in> set (orders d). ord_id r = i \<and> ord_status r = s"
  by (auto simp: order_status_def dest: find_SomeD)

lemma order_status_None: "order_status d i = None \<longleftrightarrow> i \<notin> ord_id ` set (orders d)"
  by (auto simp: order_status_def find_None_iff)

lemma order_status_upd:
  assumes "\<And>r. ord_id (f r) = ord_id r"
  shows "order_status (d\<lparr>orders := upd_where P f (orders d)\<rparr>) i =
    map_option (\<lambda>r. ord_status (if P r then f r else r)) (find (\<lambda>r. ord_id r = i) (orders d))"
proof -
  have "find (\<lambda>r. ord_id r = i) (upd_where P f t) =
      map_option (\<lambda>r. if P r then f r else r) (find (\<lambda>r. ord_id r = i) t)" for t
    by (induction t) (auto simp: upd_where_def assms)
  then show ?thesis by (simp add: order_status_def option.map_comp comp_def)
qed

text \<open>The guarded transition moves a pending order and nothing else.\<close>

lemma UpdateOrderStatusIfPending_effect:
  assumes run: "sql_UpdateOrderStatusIfPending i s u t d = Inr (n, d')" and ok: "schema_ok d"
  shows "(0 < n) = (order_status d i = Some OrderStatusPending)"
    and "order_status d' = (if 0 < n then (order_status d)(i \<mapsto> s) else order_status d)"
proof -
  let ?P = "\<lambda>r. ord_id r = i \<and> ord_status r = OrderStatusPending"
  from run have n: "n = length (filter ?P (orders d))"
    and d': "d' = d\<lparr>orders := upd_where ?P (\<lambda>r. r\<lparr>ord_status := s, ord_updated_at := Some t\<rparr>) (orders d)\<rparr>"
    by (auto simp: sql_UpdateOrderStatusIfPending_def Let_def split: if_splits)
  show pending: "(0 < n) = (order_status d i = Some OrderStatusPending)"
  proof
    assume "0 < n"
    then show "order_status d i = Some OrderStatusPending"
      using order_status_row [OF ok] by (fastforce simp: n filter_empty_conv)
  next
    assume "order_status d i = Some OrderStatusPending"
    then show "0 < n" by (auto simp: n filter_empty_conv dest: order_status_SomeD)
  qed
  show "order_status d' = (if 0 < n then (order_status d)(i \<mapsto> s) else order_status d)"
  proof
    fix j
    have d'j: "order_status d' j = map_option (\<lambda>r. if ?P r then s else ord_status r)
        (find (\<lambda>r. ord_id r = j) (orders d))"
      unfolding d' by (subst order_status_upd) (auto simp: if_distrib cong: if_cong)
    show "order_status d' j = (if 0 < n then (order_status d)(i \<mapsto> s) else order_status d) j"
    proof (cases "find (\<lambda>r. ord_id r = j) (orders d)")
      case None
      then have "order_status d j = None" by (simp add: order_status_def)
      with None d'j pending show ?thesis by auto
    next
      case (Some r)
      then have "order_status d j = Some (ord_status r)" "ord_id r = j"
        by (auto simp: order_status_def dest: find_SomeD)
      with Some d'j pending show ?thesis by auto
    qed
  qed
qed

text \<open>The other updates of orders leave every status as it is.\<close>

lemma order_status_unaffected:
  assumes "\<And>r. ord_id (f r) = ord_id r" and "\<And>r. ord_status (f r) = ord_status r"
  shows "order_status (d\<lparr>orders := upd_where P f (orders d)\<rparr>) = order_status d"
proof
  fix i
  show "order_status (d\<lparr>orders := upd_where P f (orders d)\<rparr>) i = order_status d i"
    by (subst order_status_upd) (simp_all add: assms order_status_def if_distrib [of ord_status] cong: if_cong)
qed

end
