(* ===== verification/Ledger.thy ===== *)
theory Ledger
  imports Order_Sql
begin

text \<open>
  The abstract view of the inventory: for each ticket type the seats that are left (\<open>quota_of\<close>)
  and the seats that pending and paid orders hold (\<open>held\<close>). Their sum is the \<open>ledger\<close>, the number
  of seats the admin has put on sale; what follows says how the writes of the order domain move
  seats between the two sides.
\<close>

section \<open>The ledger\<close>

definition ledger :: "database \<Rightarrow> uuid \<Rightarrow> int option" where
  "ledger d t = map_option (\<lambda>n. n + held d t) (quota_of d t)"

definition line_seats :: "(uuid \<times> int) list \<Rightarrow> uuid \<Rightarrow> int" where
  "line_seats lines t = sum_where (\<lambda>l. fst l = t) snd lines"

lemma line_seats_Nil [simp]: "line_seats [] t = 0"
  by (simp add: line_seats_def)

lemma line_seats_mset: "mset xs = mset ys \<Longrightarrow> line_seats xs = line_seats ys"
  unfolding line_seats_def sum_where_def by (metis (no_types) mset_filter mset_map sum_mset_sum_list)

lemma line_seats_append: "line_seats (xs @ ys) t = line_seats xs t + line_seats ys t"
  by (simp add: line_seats_def sum_where_append)

lemma line_seats_single: "line_seats [(i, q)] t = (if i = t then q else 0)"
  by (simp add: line_seats_def sum_where_Cons)

text \<open>The lines of an order as they are stored, and the same seats.\<close>

definition lines_of :: "database \<Rightarrow> uuid \<Rightarrow> (uuid \<times> int) list" where
  "lines_of d i = map (\<lambda>r. (it_type r, it_qty r)) (filter (\<lambda>r. it_order r = i) (order_items d))"

lemma seats_of_order_lines: "seats_of_order d i t = line_seats (lines_of d i) t"
proof -
  have "sum_where (\<lambda>r. it_type r = t \<and> it_order r = i) it_qty xs =
      sum_where (\<lambda>l. fst l = t) snd (map (\<lambda>r. (it_type r, it_qty r)) (filter (\<lambda>r. it_order r = i) xs))" for xs
    by (induction xs) (auto simp: sum_where_Cons)
  then show ?thesis by (simp add: seats_of_order_def line_seats_def lines_of_def)
qed

section \<open>Moving seats\<close>

definition seats_moved :: "(uuid \<Rightarrow> int) \<Rightarrow> database \<Rightarrow> database \<Rightarrow> bool" where
  "seats_moved delta d d' \<longleftrightarrow>
     (\<forall>t. quota_of d' t = map_option (\<lambda>n. n + delta t) (quota_of d t)) \<and>
     catalogue d' = catalogue d \<and> d' = d\<lparr>ticket_types := ticket_types d'\<rparr>"

lemma seats_moved_none: "(\<And>t. delta t = 0) \<Longrightarrow> seats_moved delta d d"
  by (simp add: seats_moved_def option.map_ident)

lemma seats_moved_step:
  assumes "seats_moved delta a b" and "quota_moved t n b c"
  shows "seats_moved (\<lambda>x. delta x + (if x = t then n else 0)) a c"
proof -
  from assms(2) obtain m where m: "quota_of b t = Some m"
    and c: "quota_of c = (quota_of b)(t \<mapsto> m + n)" by (auto simp: quota_moved_def)
  have "quota_of c x = map_option (\<lambda>k. k + (delta x + (if x = t then n else 0))) (quota_of a x)" for x
    using assms(1) m by (cases "quota_of a x") (auto simp: seats_moved_def c)
  moreover have "c = a\<lparr>ticket_types := ticket_types c\<rparr>"
    using assms by (metis database.surjective database.update_convs(3) quota_moved_def seats_moved_def)
  ultimately show ?thesis using assms by (simp add: seats_moved_def quota_moved_def)
qed

lemma seats_taken_step:
  assumes "seats_moved (\<lambda>x. - line_seats ls x) a b" and "quota_moved t (- q) b c"
  shows "seats_moved (\<lambda>x. - line_seats (ls @ [(t, q)]) x) a c"
proof -
  have "(\<lambda>x. - line_seats (ls @ [(t, q)]) x) = (\<lambda>x. - line_seats ls x + (if x = t then - q else 0))"
    by (auto simp: line_seats_append line_seats_single)
  with seats_moved_step [OF assms] show ?thesis by simp
qed

lemma seats_returned_step:
  assumes "seats_moved (line_seats ls) a b" and "quota_moved t q b c"
  shows "seats_moved (line_seats (ls @ [(t, q)])) a c"
proof -
  have "line_seats (ls @ [(t, q)]) = (\<lambda>x. line_seats ls x + (if x = t then q else 0))"
    by (auto simp: line_seats_append line_seats_single)
  with seats_moved_step [OF assms] show ?thesis by simp
qed

lemma seats_moved_other:
  assumes "seats_moved delta d d'"
  shows "orders d' = orders d" "order_items d' = order_items d" "attendees d' = attendees d"
    "tickets d' = tickets d" "payments d' = payments d" "events d' = events d" "admins d' = admins d"
    "collate d' = collate d"
  using assms unfolding seats_moved_def by (metis database.select_convs database.surjective database.update_convs(3))+

section \<open>Status changes\<close>

lemma held_cong:
  "order_items d' = order_items d \<Longrightarrow> order_status d' = order_status d \<Longrightarrow> held d' = held d"
  by (simp add: held_def holds_seats_def fun_eq_iff)

text \<open>A pending order that is cancelled or expires gives up exactly its own seats.\<close>

lemma held_released:
  assumes items: "order_items d' = order_items d"
    and st: "order_status d' = (order_status d)(i \<mapsto> s)"
    and pending: "order_status d i = Some OrderStatusPending"
    and s: "s \<noteq> OrderStatusPending" "s \<noteq> OrderStatusPaid"
  shows "held d' t = held d t - seats_of_order d i t"
proof -
  have holds: "holds_seats d' j \<longleftrightarrow> holds_seats d j \<and> j \<noteq> i" for j
    using s by (auto simp: holds_seats_def st)
  have "held d t = sum_where (\<lambda>r. (it_type r = t \<and> holds_seats d (it_order r)) \<and> it_order r = i) it_qty (order_items d)
      + sum_where (\<lambda>r. (it_type r = t \<and> holds_seats d (it_order r)) \<and> it_order r \<noteq> i) it_qty (order_items d)"
    unfolding held_def by (rule sum_where_split)
  also have "sum_where (\<lambda>r. (it_type r = t \<and> holds_seats d (it_order r)) \<and> it_order r = i) it_qty (order_items d)
      = seats_of_order d i t"
    unfolding seats_of_order_def using pending by (intro sum_where_cong) (auto simp: holds_seats_def)
  also have "sum_where (\<lambda>r. (it_type r = t \<and> holds_seats d (it_order r)) \<and> it_order r \<noteq> i) it_qty (order_items d)
      = held d' t"
    unfolding held_def items by (intro sum_where_cong) (auto simp: holds)
  finally show ?thesis by simp
qed

text \<open>A pending order that is paid keeps its seats.\<close>

lemma held_paid:
  assumes items: "order_items d' = order_items d"
    and st: "order_status d' = (order_status d)(i \<mapsto> OrderStatusPaid)"
    and pending: "order_status d i = Some OrderStatusPending"
  shows "held d' = held d"
proof -
  have "holds_seats d' = holds_seats d" using pending by (auto simp: holds_seats_def st fun_eq_iff)
  then show ?thesis by (simp add: held_def items fun_eq_iff)
qed

text \<open>A new order takes the seats of its lines.\<close>

lemma held_placed:
  assumes ok: "schema_ok d" and items: "order_items d' = order_items d @ its"
    and own: "\<And>r. r \<in> set its \<Longrightarrow> it_order r = i"
    and fresh: "order_status d i = None"
    and st: "order_status d' = (order_status d)(i \<mapsto> OrderStatusPending)"
  shows "held d' t = held d t + sum_where (\<lambda>r. it_type r = t) it_qty its"
proof -
  have "i \<notin> it_order ` set (order_items d)"
    using ok fresh by (auto simp: order_status_None schema_defs)
  then have "sum_where (\<lambda>r. it_type r = t \<and> holds_seats d' (it_order r)) it_qty (order_items d) = held d t"
    unfolding held_def by (intro sum_where_cong) (auto simp: holds_seats_def st)
  moreover have "sum_where (\<lambda>r. it_type r = t \<and> holds_seats d' (it_order r)) it_qty its
      = sum_where (\<lambda>r. it_type r = t) it_qty its"
    by (intro sum_where_cong) (auto simp: holds_seats_def st own)
  ultimately show ?thesis by (simp add: held_def items sum_where_append)
qed

section \<open>The two moves that conserve the ledger\<close>

text \<open>
  \<open>status_moved\<close> is the effect of the guarded status update when it applies, \<open>order_released\<close> that
  of cancelling or expiring an order and giving its seats back.
\<close>

definition order_book :: "database \<Rightarrow> order_row list" where
  "order_book d = map (\<lambda>r. r\<lparr>ord_status := [], ord_updated_at := None\<rparr>) (orders d)"

definition status_moved :: "uuid \<Rightarrow> string \<Rightarrow> database \<Rightarrow> database \<Rightarrow> bool" where
  "status_moved i s d d' \<longleftrightarrow>
     order_status d i = Some OrderStatusPending \<and> order_status d' = (order_status d)(i \<mapsto> s) \<and>
     order_book d' = order_book d \<and> d' = d\<lparr>orders := orders d'\<rparr>"

definition order_released :: "uuid \<Rightarrow> string \<Rightarrow> database \<Rightarrow> database \<Rightarrow> bool" where
  "order_released i s d d' \<longleftrightarrow>
     order_status d i = Some OrderStatusPending \<and> order_status d' = (order_status d)(i \<mapsto> s) \<and>
     (\<forall>t. quota_of d' t = map_option (\<lambda>n. n + line_seats (lines_of d i) t) (quota_of d t)) \<and>
     order_book d' = order_book d \<and> catalogue d' = catalogue d \<and>
     d' = d\<lparr>orders := orders d', ticket_types := ticket_types d'\<rparr>"

lemma order_released_items: "order_released i s d d' \<Longrightarrow> order_items d' = order_items d"
  unfolding order_released_def by (metis database.select_convs(5) database.surjective database.update_convs(3,4))

lemma status_then_seats:
  assumes "status_moved i s d c" and "seats_moved (line_seats (lines_of d i)) c d'"
  shows "order_released i s d d'"
proof -
  from assms(1) obtain os where c: "c = d\<lparr>orders := os\<rparr>" unfolding status_moved_def by blast
  from assms(2) obtain ts where d': "d' = c\<lparr>ticket_types := ts\<rparr>" unfolding seats_moved_def by blast
  have "quota_of c = quota_of d" "catalogue c = catalogue d" "order_status d' = order_status c"
    "order_book d' = order_book c"
    by (simp_all add: c d' quota_of_def catalogue_def order_status_def order_book_def fun_eq_iff)
  with assms show ?thesis
    by (simp add: status_moved_def seats_moved_def order_released_def) (simp add: c d')
qed

lemma order_released_held:
  assumes "order_released i s d d'" and "s \<noteq> OrderStatusPending" "s \<noteq> OrderStatusPaid"
  shows "held d' t = held d t - line_seats (lines_of d i) t"
  using assms order_released_items [OF assms(1)]
  by (subst held_released [where d = d and i = i and s = s])
     (simp_all add: order_released_def seats_of_order_lines)

lemma order_released_ledger:
  assumes "order_released i s d d'" and "s \<noteq> OrderStatusPending" "s \<noteq> OrderStatusPaid"
  shows "ledger d' = ledger d"
proof
  fix t
  show "ledger d' t = ledger d t"
    using order_released_held [OF assms, of t] assms(1)
    by (cases "quota_of d t") (simp_all add: ledger_def order_released_def)
qed

lemma status_moved_paid_ledger:
  assumes "status_moved i OrderStatusPaid d d'"
  shows "ledger d' = ledger d"
proof -
  from assms obtain os where d': "d' = d\<lparr>orders := os\<rparr>" unfolding status_moved_def by blast
  have "held d' = held d"
    using assms by (intro held_paid [where i = i]) (simp_all add: status_moved_def d')
  then show ?thesis by (simp add: ledger_def fun_eq_iff d' quota_of_def)
qed

lemma UpdateOrderStatusIfPending_moved:
  assumes run: "sql_UpdateOrderStatusIfPending i s u t d = Inr (n, d')" and ok: "schema_ok d"
  shows "if 0 < n then status_moved i s d d'
    else order_status d i \<noteq> Some OrderStatusPending \<and> d' = d"
proof -
  let ?P = "\<lambda>r. ord_id r = i \<and> ord_status r = OrderStatusPending"
  from run have n: "n = length (filter ?P (orders d))"
    and d': "d' = d\<lparr>orders := upd_where ?P (\<lambda>r. r\<lparr>ord_status := s, ord_updated_at := Some t\<rparr>) (orders d)\<rparr>"
    by (auto simp: sql_UpdateOrderStatusIfPending_def Let_def split: if_splits)
  have "order_book d' = order_book d" by (simp add: d' order_book_def map_upd_where)
  moreover have "d' = d" if "n = 0"
  proof -
    from that n have "r \<in> set (orders d) \<Longrightarrow> \<not> ?P r" for r by (auto simp: filter_empty_conv)
    then show ?thesis by (simp add: d' upd_where_none)
  qed
  moreover have "d' = d\<lparr>orders := orders d'\<rparr>" by (simp add: d')
  ultimately show ?thesis
    using UpdateOrderStatusIfPending_effect [OF assms]
    by (cases "0 < n") (simp_all only: status_moved_def if_True if_False, simp_all)
qed

text \<open>Writes that leave the statuses alone.\<close>

definition statuses_kept :: "database \<Rightarrow> database \<Rightarrow> bool" where
  "statuses_kept d d' \<longleftrightarrow> order_status d' = order_status d \<and> d' = d\<lparr>orders := orders d'\<rparr>"

lemma statuses_kept_refl [simp]: "statuses_kept d d"
  by (simp add: statuses_kept_def)

lemma statuses_kept_update:
  "(\<And>r. ord_id (f r) = ord_id r) \<Longrightarrow> (\<And>r. ord_status (f r) = ord_status r) \<Longrightarrow>
   statuses_kept d (d\<lparr>orders := upd_where P f (orders d)\<rparr>)"
  by (simp add: statuses_kept_def order_status_unaffected)

lemma statuses_kept_ledger:
  assumes "statuses_kept d d'"
  shows "ledger d' = ledger d"
proof -
  from assms obtain os where d': "d' = d\<lparr>orders := os\<rparr>" unfolding statuses_kept_def by blast
  have "held d' = held d" using assms by (intro held_cong) (simp_all add: statuses_kept_def d')
  then show ?thesis by (simp add: ledger_def fun_eq_iff d' quota_of_def)
qed

section \<open>Writing one order only\<close>

text \<open>
  What a statement may do that writes the payment details, the status or the delivery of the order \<open>i\<close>,
  or gives its seats back: every other order stays row by row as it was, of this one the columns a
  purchase fixes stay, and no other table is touched but the quotas.
\<close>

definition purchase_part :: "order_row \<Rightarrow> order_row" where
  "purchase_part r = r\<lparr>ord_status := [], ord_provider := None, ord_payment_url := None, ord_email_sent := None,
     ord_updated_at := None, ord_qr_string := None, ord_expires_at := None\<rparr>"

definition row_written :: "uuid \<Rightarrow> database \<Rightarrow> database \<Rightarrow> bool" where
  "row_written i d d' \<longleftrightarrow>
     list_all2 (\<lambda>r r'. purchase_part r' = purchase_part r \<and> (ord_id r \<noteq> i \<longrightarrow> r' = r)) (orders d) (orders d') \<and>
     catalogue d' = catalogue d \<and> d' = d\<lparr>orders := orders d', ticket_types := ticket_types d'\<rparr>"

lemma purchase_part_fields:
  assumes "purchase_part r' = purchase_part r"
  shows "ord_id r' = ord_id r" "ord_number r' = ord_number r" "ord_total r' = ord_total r"
    "ord_buyer_name r' = ord_buyer_name r" "ord_buyer_email r' = ord_buyer_email r"
    "ord_buyer_phone r' = ord_buyer_phone r" "ord_created_at r' = ord_created_at r"
  using assms by (cases r; cases r'; simp add: purchase_part_def)+

lemma row_written_frame:
  assumes "row_written i d d'"
  shows "order_items d' = order_items d" "attendees d' = attendees d" "tickets d' = tickets d"
    "payments d' = payments d" "events d' = events d" "admins d' = admins d" "catalogue d' = catalogue d"
proof -
  from assms obtain os ts where "d' = d\<lparr>orders := os, ticket_types := ts\<rparr>" unfolding row_written_def by metis
  then show "order_items d' = order_items d" "attendees d' = attendees d" "tickets d' = tickets d"
    "payments d' = payments d" "events d' = events d" "admins d' = admins d" by simp_all
  show "catalogue d' = catalogue d" using assms by (simp add: row_written_def)
qed

interpretation rows: guarantee "row_written i" for i
proof
  fix a b c
  show "row_written i a a" by (simp add: row_written_def list.rel_refl)
  assume ab: "row_written i a b" and bc: "row_written i b c"
  have "list_all2 (\<lambda>r r'. purchase_part r' = purchase_part r \<and> (ord_id r \<noteq> i \<longrightarrow> r' = r)) (orders a) (orders c)"
  proof (rule list_all2_trans)
    show "list_all2 (\<lambda>r r'. purchase_part r' = purchase_part r \<and> (ord_id r \<noteq> i \<longrightarrow> r' = r)) (orders a) (orders b)"
      "list_all2 (\<lambda>r r'. purchase_part r' = purchase_part r \<and> (ord_id r \<noteq> i \<longrightarrow> r' = r)) (orders b) (orders c)"
      using ab bc by (simp_all add: row_written_def)
  qed auto
  moreover from ab bc have "c = a\<lparr>orders := orders c, ticket_types := ticket_types c\<rparr>"
    unfolding row_written_def
    by (metis (no_types, lifting) database.select_convs(3,4) database.surjective database.update_convs(3,4))
  ultimately show "row_written i a c" using ab bc by (simp add: row_written_def)
qed

named_theorems row_intros \<open>operations that write one order only\<close>

lemmas [row_intros] = rows.ensures_rules

lemma row_written_update:
  assumes "\<And>r. purchase_part (f r) = purchase_part r" and "\<And>r. P r \<Longrightarrow> ord_id r = i"
  shows "row_written i d (d\<lparr>orders := upd_where P f (orders d)\<rparr>)"
proof -
  have "list_all2 (\<lambda>r r'. purchase_part r' = purchase_part r \<and> (ord_id r \<noteq> i \<longrightarrow> r' = r)) rs (upd_where P f rs)" for rs
    using assms by (induction rs) (auto simp: upd_where_def)
  then show ?thesis by (simp add: row_written_def catalogue_def)
qed

lemma row_written_sql:
  "sql_UpdateOrderStatusIfPending i s u t d = Inr (n, d') \<Longrightarrow> row_written i d d'"
  "sql_UpdatePaymentDetails i url prov qr ex u t d = Inr (n, d') \<Longrightarrow> row_written i d d'"
  "sql_SetEmailSent i u t d = Inr (n, d') \<Longrightarrow> row_written i d d'"
  by (auto simp: sql_UpdateOrderStatusIfPending_def sql_UpdatePaymentDetails_def sql_SetEmailSent_def Let_def
      purchase_part_def split: if_splits intro!: row_written_update)

lemma row_written_restored:
  "sql_RestoreQuota q t u tm d = Inr (n, d') \<Longrightarrow> row_written i d d'"
  by (auto simp: sql_RestoreQuota_def row_written_def list.rel_refl Let_def split: if_splits option.splits
      intro!: catalogue_update)

text \<open>An order that has just been added is still the last, and the ones before it are what they were.\<close>

lemma row_written_last:
  assumes "row_written (ord_id row) d d'" and "orders d = rs @ [row]" and "ord_id row \<notin> ord_id ` set rs"
  obtains row' where "orders d' = rs @ [row']" and "purchase_part row' = purchase_part row"
proof -
  let ?R = "\<lambda>r r'. purchase_part r' = purchase_part r \<and> (ord_id r \<noteq> ord_id row \<longrightarrow> r' = r)"
  from assms(1,2) have "list_all2 ?R (rs @ [row]) (orders d')" by (simp add: row_written_def)
  then obtain ys row' where os: "orders d' = ys @ [row']" and ys: "list_all2 ?R rs ys" and row': "?R row row'"
    by (auto simp: list_all2_append1 list_all2_Cons1)
  from ys assms(3) have "ys = rs" by (induction rule: list_all2_induct) auto
  with os row' that show thesis by simp
qed

section \<open>Giving seats back\<close>

text \<open>
  The contract of whatever restores quota: it moves one counter up. The loop over the lines of an
  order then moves the seats of the order.
\<close>

locale quota_restorer =
  fixes restore :: "uuid \<Rightarrow> int32 \<Rightarrow> unit go"
  assumes restore_moves: "restore t q w = (Inr u, w') \<Longrightarrow> schema_ok (wdb w) \<Longrightarrow>
      quota_moved t (sint q) (wdb w) (wdb w')"
    and restore_schema: "ensures (kept schema_ok) (restore t q)"
    and restore_quiet: "quiet (restore t q)"
begin

lemma restore_loop:
  assumes run: "for_each xs (\<lambda>x. restore (ty x) (qty x)) w = (Inr u, w')" and ok: "schema_ok (wdb w)"
  shows "schema_ok (wdb w') \<and>
    seats_moved (line_seats (map (\<lambda>x. (ty x, sint (qty x))) xs)) (wdb w) (wdb w')"
    (is "?P xs w'")
  using run
proof (rule for_each_invariant [where P = ?P])
  show "?P [] w" using ok by (simp add: seats_moved_none)
next
  fix ys x v u v'
  assume inv: "?P ys v" and step: "restore (ty x) (qty x) v = (Inr u, v')"
  from inv restore_moves [OF step] ensures_kept_D [OF restore_schema step] show "?P (ys @ [x]) v'"
    using seats_returned_step [of "map (\<lambda>x. (ty x, sint (qty x))) ys" "wdb w" "wdb v"] by simp
qed

end

end
