(* ===== verification/Evolution.thy ===== *)
theory Evolution
  imports Ledger
begin

text \<open>
  What every operation of the shop guarantees of the database. \<open>orders_evolve\<close>: the schema is kept,
  no order disappears, its lines never change, and once it is no longer pending its status never
  changes. \<open>evolves\<close> adds that the ledger is conserved, which everything but the admin's own
  edits of the inventory guarantees. Both are instances of the \<open>guarantee\<close> contract, so a handler
  guarantees them as soon as its transactions do.
\<close>

section \<open>The relations\<close>

definition status_path :: "string \<Rightarrow> string \<Rightarrow> bool" where
  "status_path s s' \<longleftrightarrow> s' = s \<or> s = OrderStatusPending"

definition orders_evolve :: "database \<Rightarrow> database \<Rightarrow> bool" where
  "orders_evolve d d' \<longleftrightarrow>
     (schema_ok d \<longrightarrow> schema_ok d' \<and>
       (\<forall>i s. order_status d i = Some s \<longrightarrow>
          (\<exists>s'. order_status d' i = Some s' \<and> status_path s s') \<and> lines_of d' i = lines_of d i))"

definition evolves :: "database \<Rightarrow> database \<Rightarrow> bool" where
  "evolves d d' \<longleftrightarrow> orders_evolve d d' \<and> (schema_ok d \<longrightarrow> ledger d' = ledger d)"

interpretation orders_evo: guarantee orders_evolve
proof
  fix a b c
  show "orders_evolve a a" by (simp add: orders_evolve_def status_path_def)
  show "orders_evolve a b \<Longrightarrow> orders_evolve b c \<Longrightarrow> orders_evolve a c"
    unfolding orders_evolve_def status_path_def by metis
qed

interpretation evo: guarantee evolves
proof
  fix a b c
  show "evolves a a" by (simp add: evolves_def orders_evo.G_refl)
  show "evolves a b \<Longrightarrow> evolves b c \<Longrightarrow> evolves a c"
    unfolding evolves_def by (metis orders_evo.G_trans orders_evolve_def)
qed

lemmas [evolve_intros] = evo.ensures_rules

lemma evolves_orders: "evolves d d' \<Longrightarrow> orders_evolve d d'"
  by (simp add: evolves_def)

lemma readonly_evolves: "readonly m \<Longrightarrow> ensures evolves m"
  by (simp add: ensures_def evo.G_refl)

section \<open>The moves\<close>

lemma lines_of_cong: "order_items d' = order_items d \<Longrightarrow> lines_of d' = lines_of d"
  by (rule ext) (simp add: lines_of_def)

lemma status_change_evolves:
  assumes "order_status d i = Some OrderStatusPending" and "order_status d' = (order_status d)(i \<mapsto> s)"
    and "order_items d' = order_items d" and "ledger d' = ledger d" and "schema_ok d'"
  shows "evolves d d'"
  using assms lines_of_cong [OF assms(3)]
  by (auto simp: evolves_def orders_evolve_def status_path_def)

lemma order_released_evolves:
  assumes "order_released i s d d'" and "schema_ok d'"
    and "s \<noteq> OrderStatusPending" and "s \<noteq> OrderStatusPaid"
  shows "evolves d d'"
proof (rule status_change_evolves)
  show "order_status d i = Some OrderStatusPending" "order_status d' = (order_status d)(i \<mapsto> s)"
    using assms(1) unfolding order_released_def by iprover+
qed (use assms order_released_items order_released_ledger in blast)+

lemma status_paid_evolves:
  assumes "status_moved i OrderStatusPaid d d'" and "schema_ok d'"
  shows "evolves d d'"
proof (rule status_change_evolves)
  show "order_status d i = Some OrderStatusPending" "order_status d' = (order_status d)(i \<mapsto> OrderStatusPaid)"
    using assms(1) unfolding status_moved_def by iprover+
  from assms(1) obtain os where "d' = d\<lparr>orders := os\<rparr>" unfolding status_moved_def by blast
  then show "order_items d' = order_items d" by simp
  show "ledger d' = ledger d" using assms(1) by (rule status_moved_paid_ledger)
qed (rule assms(2))

lemma statuses_kept_evolves:
  assumes "statuses_kept d d'" and "schema_ok d'"
  shows "evolves d d'"
proof -
  from assms(1) obtain os where "d' = d\<lparr>orders := os\<rparr>" unfolding statuses_kept_def by blast
  then have "order_items d' = order_items d" by simp
  then have "lines_of d' = lines_of d" by (rule lines_of_cong)
  moreover have "order_status d' = order_status d" using assms(1) unfolding statuses_kept_def by iprover
  ultimately show ?thesis
    using assms(2) statuses_kept_ledger [OF assms(1)]
    by (auto simp: evolves_def orders_evolve_def status_path_def)
qed

text \<open>Tables that neither orders nor the inventory depend on.\<close>

definition shop_kept :: "database \<Rightarrow> database \<Rightarrow> bool" where
  "shop_kept d d' \<longleftrightarrow>
     orders d' = orders d \<and> order_items d' = order_items d \<and> ticket_types d' = ticket_types d"

lemma shop_kept_evolves:
  assumes "shop_kept d d'" and "schema_ok d \<Longrightarrow> schema_ok d'"
  shows "evolves d d'"
proof -
  have same: "order_status d' = order_status d" "quota_of d' = quota_of d" "lines_of d' = lines_of d"
    using assms(1) by (simp_all add: shop_kept_def order_status_def quota_of_def lines_of_def fun_eq_iff)
  moreover have "held d' = held d" using assms(1) same by (intro held_cong) (simp_all add: shop_kept_def)
  ultimately show ?thesis
    using assms by (simp add: evolves_def orders_evolve_def status_path_def ledger_def fun_eq_iff)
qed

end
