(* ===== verification/Ticket_Sql.thy ===== *)
theory Ticket_Sql
  imports Evolution
begin

text \<open>
  The SQL statements of the ticket domain (\<open>internal/ticket/ticketsql/ticket.sql.go\<close>) over the
  table \<open>tickets\<close> and its joins. The only constraint that can refuse a new ticket, besides its
  foreign keys, is the unique code: nothing in the schema limits the tickets of an attendee.
\<close>

section \<open>Writes\<close>

definition sql_CreateTicket :: "string \<Rightarrow> uuid \<Rightarrow> uuid \<Rightarrow> ticket_row sql" where
  "sql_CreateTicket code orderID attendeeID = (\<lambda>i t d.
     if has_key tk_id i (tickets d) \<or> has_key tk_code code (tickets d) then Inl unique_violation
     else if \<not> has_key ord_id orderID (orders d) \<or> \<not> has_key at_id attendeeID (attendees d)
     then Inl foreign_key_violation
     else let r = \<lparr>tk_id = i, tk_code = code, tk_order = orderID, tk_attendee = attendeeID,
                   tk_status = StatusActive, tk_created_at = Some t, tk_updated_at = Some t\<rparr>
          in Inr (r, d\<lparr>tickets := tickets d @ [r]\<rparr>))"

definition sql_MarkTicketUsed :: "string \<Rightarrow> nat sql" where
  "sql_MarkTicketUsed code = (\<lambda>_ t d.
     Inr (length (filter (\<lambda>r. tk_code r = code \<and> tk_status r = StatusActive) (tickets d)),
       d\<lparr>tickets := upd_where (\<lambda>r. tk_code r = code \<and> tk_status r = StatusActive)
           (\<lambda>r. r\<lparr>tk_status := StatusUsed, tk_updated_at := Some t\<rparr>) (tickets d)\<rparr>))"

section \<open>Reads\<close>

definition sql_CountTicketsByOrderID :: "uuid \<Rightarrow> database \<Rightarrow> int" where
  "sql_CountTicketsByOrderID i d = int (length (filter (\<lambda>r. tk_order r = i) (tickets d)))"

definition sql_GetTicketStatusByCode :: "string \<Rightarrow> database \<Rightarrow> string option" where
  "sql_GetTicketStatusByCode code d = map_option tk_status (find (\<lambda>r. tk_code r = code) (tickets d))"

text \<open>A ticket joined with its attendee, the attendee's ticket type and that type's event.\<close>

definition ticket_joins :: "ticket_row \<Rightarrow> database \<Rightarrow> (ticket_row \<times> attendee_row \<times> ticket_type_row \<times> event_row) list" where
  "ticket_joins r d =
     concat (map (\<lambda>a. concat (map (\<lambda>tt. map (\<lambda>e. (r, a, tt, e))
         (filter (\<lambda>e. ev_id e = tt_event tt) (events d)))
       (filter (\<lambda>tt. tt_id tt = at_type a) (ticket_types d))))
     (filter (\<lambda>a. at_id a = tk_attendee r) (attendees d)))"

definition sql_GetTicketDetailByCode :: "string \<Rightarrow> database \<Rightarrow> (string \<times> string \<times> string \<times> string \<times> string) option" where
  "sql_GetTicketDetailByCode code d =
     (case concat (map (\<lambda>r. ticket_joins r d) (filter (\<lambda>r. tk_code r = code) (tickets d))) of
        [] \<Rightarrow> None
      | (r, a, tt, e) # _ \<Rightarrow> Some (tk_code r, tk_status r, at_name a, tt_name tt, ev_name e))"

text \<open>\<open>ORDER BY t.created_at ASC, t.ticket_code ASC\<close>\<close>

definition issue_order :: "database \<Rightarrow> ticket_row \<Rightarrow> (bool \<times> gotime) \<times> rat" where
  "issue_order d r = (nulls_last (tk_created_at r), collate d (tk_code r))"

definition sql_ListTicketDetailsByOrderID ::
  "uuid \<Rightarrow> database \<Rightarrow> (string \<times> string \<times> string \<times> string \<times> string \<times> string \<times> gotime) list" where
  "sql_ListTicketDetailsByOrderID i d =
     map (\<lambda>(r, a, tt, e). (tk_code r, tk_status r, at_name a, tt_name tt, ev_name e, ev_venue e, ev_start e))
       (concat (map (\<lambda>r. ticket_joins r d)
         (sort_key (issue_order d) (filter (\<lambda>r. tk_order r = i) (tickets d)))))"

definition sql_ListTicketsByOrderID :: "uuid \<Rightarrow> database \<Rightarrow> (uuid \<times> string \<times> uuid \<times> string) list" where
  "sql_ListTicketsByOrderID i d =
     map (\<lambda>r. (tk_id r, tk_code r, tk_attendee r, tk_status r))
       (sort_key (issue_order d) (filter (\<lambda>r. tk_order r = i) (tickets d)))"

section \<open>Schema and frame\<close>

lemma schema_CreateTicket:
  "sql_CreateTicket code oid aid i t d = Inr (r, d') \<Longrightarrow> schema_ok d \<Longrightarrow> schema_ok d'"
  by (auto simp: sql_CreateTicket_def Let_def has_key_iff split: if_splits intro!: schema_ok_tickets)
     (auto simp: schema_defs ticket_statuses_def)

lemma schema_MarkTicketUsed:
  assumes "sql_MarkTicketUsed code i t d = Inr (n, d')" and ok: "schema_ok d"
  shows "schema_ok d'"
proof -
  let ?P = "\<lambda>r. tk_code r = code \<and> tk_status r = StatusActive"
  let ?f = "\<lambda>r. r\<lparr>tk_status := StatusUsed, tk_updated_at := Some t\<rparr>"
  have "\<forall>r \<in> set (upd_where ?P ?f (tickets d)). tk_status r \<in> set ticket_statuses"
    using ok by (auto simp: set_upd_where schema_defs ticket_statuses_def)
  then have "schema_ok (d\<lparr>tickets := upd_where ?P ?f (tickets d)\<rparr>)"
    using ok by (intro schema_ok_tickets) (simp_all add: upd_where_key_distinct image_upd_where schema_defs)
  then show ?thesis using assms(1) by (simp add: sql_MarkTicketUsed_def)
qed

lemma shop_kept_ticket_sql:
  "sql_CreateTicket code oid aid i t d = Inr (r, d') \<Longrightarrow> shop_kept d d'"
  "sql_MarkTicketUsed code i t d = Inr (n, d') \<Longrightarrow> shop_kept d d'"
  by (auto simp: sql_CreateTicket_def sql_MarkTicketUsed_def Let_def shop_kept_def split: if_splits)

section \<open>Tickets as the door sees them\<close>

definition ticket_status :: "database \<Rightarrow> string \<Rightarrow> string option" where
  "ticket_status d code = map_option tk_status (find (\<lambda>r. tk_code r = code) (tickets d))"

definition tickets_of :: "database \<Rightarrow> uuid \<Rightarrow> ticket_row list" where
  "tickets_of d i = filter (\<lambda>r. tk_order r = i) (tickets d)"

lemma schema_find_ticket:
  "schema_ok d \<Longrightarrow> r \<in> set (tickets d) \<Longrightarrow> find (\<lambda>x. tk_code x = tk_code r) (tickets d) = Some r"
  by (auto simp: schema_ok_def keys_ok_def intro: find_key_unique)

lemma ticket_status_row:
  "schema_ok d \<Longrightarrow> r \<in> set (tickets d) \<Longrightarrow> ticket_status d (tk_code r) = Some (tk_status r)"
  by (simp add: ticket_status_def schema_find_ticket)

lemma ticket_status_None: "ticket_status d c = None \<longleftrightarrow> c \<notin> tk_code ` set (tickets d)"
  by (auto simp: ticket_status_def find_None_iff)

lemma ticket_status_SomeE:
  assumes "ticket_status d c = Some s"
  obtains r where "r \<in> set (tickets d)" "tk_code r = c" "tk_status r = s"
  using assms by (auto simp: ticket_status_def dest: find_SomeD)

text \<open>Marking used moves one ticket from \<open>ACTIVE\<close> to \<open>USED\<close>, or nothing.\<close>

lemma find_upd_where_status:
  "(\<And>r. tk_code (f r) = tk_code r) \<Longrightarrow>
   find (\<lambda>r. tk_code r = c) (upd_where P f xs) =
   map_option (\<lambda>r. if P r then f r else r) (find (\<lambda>r. tk_code r = c) xs)"
  by (induction xs) (auto simp: upd_where_def)

lemma MarkTicketUsed_effect:
  assumes run: "sql_MarkTicketUsed code i t d = Inr (n, d')" and ok: "schema_ok d"
  shows "0 < n \<longleftrightarrow> ticket_status d code = Some StatusActive"
    and "ticket_status d' = (if 0 < n then (ticket_status d)(code \<mapsto> StatusUsed) else ticket_status d)"
    and "n = 0 \<Longrightarrow> d' = d"
    and "map (\<lambda>r. r\<lparr>tk_status := [], tk_updated_at := None\<rparr>) (tickets d') =
         map (\<lambda>r. r\<lparr>tk_status := [], tk_updated_at := None\<rparr>) (tickets d)"
    and "d' = d\<lparr>tickets := tickets d'\<rparr>"
proof -
  let ?P = "\<lambda>r. tk_code r = code \<and> tk_status r = StatusActive"
  let ?f = "\<lambda>r. r\<lparr>tk_status := StatusUsed, tk_updated_at := Some t\<rparr>"
  have n: "n = length (filter ?P (tickets d))" and d': "d' = d\<lparr>tickets := upd_where ?P ?f (tickets d)\<rparr>"
    using run by (auto simp: sql_MarkTicketUsed_def)
  show iff: "0 < n \<longleftrightarrow> ticket_status d code = Some StatusActive"
  proof
    assume "0 < n"
    then obtain r where "r \<in> set (tickets d)" "?P r" by (auto simp: n filter_empty_conv)
    with ticket_status_row [OF ok this(1)] show "ticket_status d code = Some StatusActive" by simp
  next
    assume "ticket_status d code = Some StatusActive"
    then obtain r where "r \<in> set (tickets d)" "?P r" by (metis ticket_status_SomeE)
    then show "0 < n" by (auto simp: n filter_empty_conv)
  qed
  have st: "ticket_status d' c = (if c = code \<and> ticket_status d c = Some StatusActive then Some StatusUsed
      else ticket_status d c)" for c
  proof (cases "find (\<lambda>r. tk_code r = c) (tickets d)")
    case (Some r)
    then have "tk_code r = c" by (auto dest: find_SomeD)
    with Some show ?thesis by (auto simp: ticket_status_def d' find_upd_where_status)
  qed (simp add: ticket_status_def d' find_upd_where_status)
  then show "ticket_status d' = (if 0 < n then (ticket_status d)(code \<mapsto> StatusUsed) else ticket_status d)"
    using iff by (auto simp: fun_eq_iff)
  show "d' = d" if "n = 0"
  proof -
    have "r \<in> set (tickets d) \<Longrightarrow> \<not> ?P r" for r using that by (auto simp: n filter_empty_conv)
    then show ?thesis by (simp add: d' upd_where_none)
  qed
  show "map (\<lambda>r. r\<lparr>tk_status := [], tk_updated_at := None\<rparr>) (tickets d') =
         map (\<lambda>r. r\<lparr>tk_status := [], tk_updated_at := None\<rparr>) (tickets d)"
    by (simp add: d' map_upd_where)
  show "d' = d\<lparr>tickets := tickets d'\<rparr>" by (simp add: d')
qed

end
