(* ===== verification/Order_Dto.thy ===== *)
theory Order_Dto
  imports Codes "HOL-Library.AList"
begin

text \<open>
  \<open>internal/order/dto.go\<close>: the checkout request and its validation. \<open>net/mail.ParseAddress\<close> is an
  argument that says whether it accepts a string. Go ranges over a map in an order of its own;
  that order is the argument \<open>iter\<close>, and a map is an association list without repeated keys.
\<close>

section \<open>The request\<close>

record CheckoutItem =
  ci_type :: uuid
  ci_quantity :: int32

record CheckoutAttendee =
  ca_type :: uuid
  ca_name :: string
  ca_email :: string

record CheckoutRequest =
  cr_buyer_name :: string
  cr_buyer_email :: string
  cr_buyer_phone :: string
  cr_items :: "CheckoutItem list"
  cr_attendees :: "CheckoutAttendee list"

type_synonym int32_map = "(uuid \<times> int32) list"

text \<open>The \<open>int32\<close> accumulator of \<open>TotalQuantity\<close> wraps.\<close>

definition TotalQuantity :: "CheckoutRequest \<Rightarrow> int32" where
  "TotalQuantity r = foldl (\<lambda>total item. total + ci_quantity item) 0 (cr_items r)"

section \<open>Validation\<close>

definition invalid :: "message \<Rightarrow> goerror" where
  "invalid msg = BadRequest CodeValidation msg"

definition validateEmail :: "(string \<Rightarrow> bool) \<Rightarrow> string \<Rightarrow> string \<Rightarrow> goerror option" where
  "validateEmail ParseAddress val field =
     (let trimmed = TrimSpace val in
      if trimmed = [] then Some (invalid (text_msg (field @ '' is required.'')))
      else if \<not> ParseAddress trimmed then
        Some (invalid (text_msg (field @ '' is not a valid email address.'')))
      else None)"

fun items_loop :: "CheckoutItem list \<Rightarrow> int32_map \<Rightarrow> goerror + int32_map" where
  "items_loop [] wanted = Inr wanted"
| "items_loop (item # items) wanted =
     (if ci_type item = uuid_Nil then
        Inl (invalid (text_msg ''items[].ticket_type_id is required.''))
      else if ci_quantity item <s 1 then
        Inl (invalid (text_msg ''items[].quantity must be at least 1.''))
      else if map_of wanted (ci_type item) \<noteq> None then
        Inl (invalid (Msg ''Ticket type %s appears more than once; combine it into a single line.''
          [ArgU (ci_type item)]))
      else items_loop items (AList.update (ci_type item) (ci_quantity item) wanted))"

fun attendees_loop :: "(string \<Rightarrow> bool) \<Rightarrow> nat \<Rightarrow> CheckoutAttendee list \<Rightarrow> goerror option" where
  "attendees_loop ParseAddress i [] = None"
| "attendees_loop ParseAddress i (a # as) =
     (if TrimSpace (ca_name a) = [] then
        Some (invalid (Msg ''attendees[%d].name is required.'' [ArgI (int i)]))
      else case validateEmail ParseAddress (ca_email a) (''attendees['' @ decimal_digits i @ ''].email'') of
        Some e \<Rightarrow> Some e
      | None \<Rightarrow> attendees_loop ParseAddress (Suc i) as)"

definition count_of :: "int32_map \<Rightarrow> uuid \<Rightarrow> int32" where
  "count_of m t = (case map_of m t of None \<Rightarrow> 0 | Some n \<Rightarrow> n)"

text \<open>\<open>got[attendee.TicketTypeID]++\<close>\<close>

fun count_loop :: "CheckoutAttendee list \<Rightarrow> int32_map \<Rightarrow> int32_map" where
  "count_loop [] got = got"
| "count_loop (a # as) got = count_loop as (AList.update (ca_type a) (count_of got (ca_type a) + 1) got)"

fun wanted_loop :: "int32_map \<Rightarrow> int32_map \<Rightarrow> goerror option" where
  "wanted_loop got [] = None"
| "wanted_loop got ((t, quantity) # rest) =
     (if count_of got t \<noteq> quantity then
        Some (BadRequest CodeAttendeeCountMismatch
          (Msg ''Ticket type %s ordered %d ticket(s) but %d attendee entr(ies) were provided.''
            [ArgU t, ArgI (sint quantity), ArgI (sint (count_of got t))]))
      else wanted_loop got rest)"

fun got_loop :: "int32_map \<Rightarrow> int32_map \<Rightarrow> goerror option" where
  "got_loop wanted [] = None"
| "got_loop wanted ((t, n) # rest) =
     (if map_of wanted t = None then
        Some (BadRequest CodeAttendeeCountMismatch
          (Msg ''An attendee references ticket type %s, which is not in the order.'' [ArgU t]))
      else got_loop wanted rest)"

definition CheckoutRequest_Validate ::
  "(string \<Rightarrow> bool) \<Rightarrow> (int32_map \<Rightarrow> int32_map) \<Rightarrow> CheckoutRequest \<Rightarrow> goerror option" where
  "CheckoutRequest_Validate ParseAddress iter r =
     (if TrimSpace (cr_buyer_name r) = [] then Some (invalid (text_msg ''buyer_name is required.''))
      else case validateEmail ParseAddress (cr_buyer_email r) ''buyer_email'' of
        Some e \<Rightarrow> Some e
      | None \<Rightarrow>
      if TrimSpace (cr_buyer_phone r) = [] then Some (invalid (text_msg ''buyer_phone is required.''))
      else if cr_items r = [] then
        Some (invalid (text_msg ''At least one ticket type must be selected.''))
      else case items_loop (cr_items r) [] of
        Inl e \<Rightarrow> Some e
      | Inr wanted \<Rightarrow>
      (case attendees_loop ParseAddress 0 (cr_attendees r) of
        Some e \<Rightarrow> Some e
      | None \<Rightarrow>
      if sint (TotalQuantity r) \<noteq> int (length (cr_attendees r)) then
        Some (BadRequest CodeAttendeeCountMismatch
          (Msg ''Expected %d attendee entries to match the %d tickets ordered, got %d.''
            [ArgI (sint (TotalQuantity r)), ArgI (sint (TotalQuantity r)),
             ArgI (int (length (cr_attendees r)))]))
      else
      let got = count_loop (cr_attendees r) [] in
      (case wanted_loop got (iter wanted) of
        Some e \<Rightarrow> Some e
      | None \<Rightarrow> got_loop wanted (iter got))))"

section \<open>What the loops compute\<close>

definition line_of :: "CheckoutItem \<Rightarrow> uuid \<times> int32" where
  "line_of item = (ci_type item, ci_quantity item)"

definition good_lines :: "CheckoutItem list \<Rightarrow> bool" where
  "good_lines items \<longleftrightarrow>
     distinct (map ci_type items) \<and> (\<forall>item \<in> set items. ci_type item \<noteq> uuid_Nil \<and> 1 \<le>s ci_quantity item)"

lemma update_fresh: "map_of m k = None \<Longrightarrow> AList.update k v m = m @ [(k, v)]"
  by (induction m) auto

lemma items_loop_Inr:
  "distinct (map fst wanted) \<Longrightarrow>
   items_loop items wanted = Inr wanted' \<longleftrightarrow>
     good_lines items \<and> (\<forall>item \<in> set items. ci_type item \<notin> fst ` set wanted) \<and>
     wanted' = wanted @ map line_of items"
proof (induction items arbitrary: wanted)
  case Nil
  then show ?case by (auto simp: good_lines_def)
next
  case (Cons item items)
  show ?case
  proof (cases "map_of wanted (ci_type item)")
    case None
    then have "ci_type item \<notin> fst ` set wanted" by (simp add: map_of_eq_None_iff)
    with None Cons.prems show ?thesis
      by (auto simp: Cons.IH update_fresh good_lines_def line_of_def word_sless_alt word_sle_eq)
         (metis imageI)
  next
    case (Some q)
    then have "ci_type item \<in> fst ` set wanted" by (metis map_of_eq_None_iff option.distinct(1))
    with Some show ?thesis by (auto simp: good_lines_def)
  qed
qed

definition attendee_ok :: "(string \<Rightarrow> bool) \<Rightarrow> CheckoutAttendee \<Rightarrow> bool" where
  "attendee_ok ParseAddress a \<longleftrightarrow>
     TrimSpace (ca_name a) \<noteq> [] \<and> TrimSpace (ca_email a) \<noteq> [] \<and> ParseAddress (TrimSpace (ca_email a))"

lemma validateEmail_None:
  "validateEmail P v f = None \<longleftrightarrow> TrimSpace v \<noteq> [] \<and> P (TrimSpace v)"
  by (simp add: validateEmail_def Let_def)

lemma first_error_None:
  "(case v of Some e \<Rightarrow> Some e | None \<Rightarrow> k) = None \<longleftrightarrow> v = None \<and> k = None"
  by (cases v) auto

lemma guard_None: "(if c then Some e else k) = None \<longleftrightarrow> \<not> c \<and> k = None"
  by simp

lemma attendees_loop_None: "attendees_loop P i as = None \<longleftrightarrow> list_all (attendee_ok P) as"
  by (induction as arbitrary: i) (auto simp: attendee_ok_def first_error_None validateEmail_None)

definition attendees_of :: "uuid \<Rightarrow> CheckoutAttendee list \<Rightarrow> nat" where
  "attendees_of t as = length (filter (\<lambda>a. ca_type a = t) as)"

lemma count_loop_count:
  "count_of (count_loop as got) t = count_of got t + word_of_nat (attendees_of t as)"
  by (induction as arbitrary: got) (auto simp: attendees_of_def count_of_def update_conv')

lemma count_loop_keys: "fst ` set (count_loop as got) = fst ` set got \<union> ca_type ` set as"
  by (induction as arbitrary: got) (auto simp: dom_update)

lemma wanted_loop_None: "wanted_loop got m = None \<longleftrightarrow> (\<forall>(t, q) \<in> set m. count_of got t = q)"
  by (induction got m rule: wanted_loop.induct) auto

lemma got_loop_None: "got_loop wanted m = None \<longleftrightarrow> fst ` set m \<subseteq> fst ` set wanted"
  by (induction wanted m rule: got_loop.induct) (auto simp: map_of_eq_None_iff)

section \<open>The validation as a whole\<close>

text \<open>A valid request without the arithmetic: one attendee per ordered seat, type by type.\<close>

definition request_ok :: "(string \<Rightarrow> bool) \<Rightarrow> CheckoutRequest \<Rightarrow> bool" where
  "request_ok ParseAddress r \<longleftrightarrow>
     TrimSpace (cr_buyer_name r) \<noteq> [] \<and> TrimSpace (cr_buyer_phone r) \<noteq> [] \<and>
     TrimSpace (cr_buyer_email r) \<noteq> [] \<and> ParseAddress (TrimSpace (cr_buyer_email r)) \<and>
     cr_items r \<noteq> [] \<and> good_lines (cr_items r) \<and> list_all (attendee_ok ParseAddress) (cr_attendees r) \<and>
     (\<forall>item \<in> set (cr_items r).
        int (attendees_of (ci_type item) (cr_attendees r)) = sint (ci_quantity item)) \<and>
     ca_type ` set (cr_attendees r) \<subseteq> ci_type ` set (cr_items r)"

lemma word_of_nat_eq_quantity:
  assumes "n < 2 ^ 31" and "1 \<le>s (q :: int32)"
  shows "word_of_nat n = q \<longleftrightarrow> int n = sint q"
proof
  assume "word_of_nat n = q"
  then have "sint q = sint (word_of_int (int n) :: int32)" by simp
  also have "\<dots> = int n"
    using assms(1) by (intro sint_of_int32) (simp add: int4_range_def)
  finally show "int n = sint q" by simp
next
  assume "int n = sint q"
  then have "(word_of_int (int n) :: int32) = word_of_int (sint q)" by simp
  then show "word_of_nat n = q" by simp
qed

lemma int_sum_list: "int (\<Sum>x \<leftarrow> xs. f x) = (\<Sum>x \<leftarrow> xs. int (f x))"
  by (induction xs) auto

lemma attendees_of_le: "attendees_of t as \<le> length as"
  by (simp add: attendees_of_def)

lemma attendees_of_partition:
  assumes "distinct ts" and "ca_type ` set as \<subseteq> set ts"
  shows "(\<Sum>t \<leftarrow> ts. attendees_of t as) = length as"
  using assms(2)
proof (induction as)
  case Nil
  then show ?case by (simp add: attendees_of_def)
next
  case (Cons a as)
  have "(\<Sum>t \<leftarrow> ts. attendees_of t (a # as)) = (\<Sum>t \<leftarrow> ts. (if ca_type a = t then 1 else 0)) + (\<Sum>t \<leftarrow> ts. attendees_of t as)"
    by (induction ts) (auto simp: attendees_of_def)
  moreover have "(\<Sum>t \<leftarrow> ts. (if x = t then 1 else 0)) = (if x \<in> set ts then 1 else 0 :: nat)" for x
    using assms(1) by (induction ts) auto
  ultimately show ?case using Cons by simp
qed

lemma TotalQuantity_sum: "TotalQuantity r = word_of_int (\<Sum>item \<leftarrow> cr_items r. sint (ci_quantity item))"
proof -
  have "foldl (\<lambda>total item. total + ci_quantity item) z items =
      z + word_of_int (\<Sum>item \<leftarrow> items. sint (ci_quantity item))" for z items
    by (induction items arbitrary: z) auto
  from this [of 0] show ?thesis by (simp add: TotalQuantity_def)
qed

lemma validate_iff:
  assumes "\<And>m. set (iter m) = set m" and small: "length (cr_attendees r) < 2 ^ 31"
  shows "CheckoutRequest_Validate P iter r = None \<longleftrightarrow> request_ok P r"
proof (cases "items_loop (cr_items r) []")
  case (Inl e)
  then have "\<not> good_lines (cr_items r)" using items_loop_Inr [of "[]" "cr_items r"] by auto
  with Inl show ?thesis
    by (simp add: CheckoutRequest_Validate_def request_ok_def first_error_None guard_None
        del: not_None_eq)
next
  case (Inr wanted)
  then have good: "good_lines (cr_items r)" and wanted: "wanted = map line_of (cr_items r)"
    using items_loop_Inr [of "[]" "cr_items r" wanted] by auto
  let ?n = "\<lambda>t. attendees_of t (cr_attendees r)"
  have n: "?n t < 2 ^ 31" for t using attendees_of_le [of t "cr_attendees r"] small by linarith
  have q: "1 \<le>s ci_quantity item" if "item \<in> set (cr_items r)" for item
    using that good by (auto simp: good_lines_def)
  have counts: "wanted_loop (count_loop (cr_attendees r) []) (iter wanted) = None \<longleftrightarrow>
      (\<forall>item \<in> set (cr_items r). int (?n (ci_type item)) = sint (ci_quantity item))"
    using word_of_nat_eq_quantity [OF n q]
    by (simp add: wanted_loop_None assms(1) wanted line_of_def count_loop_count)
       (simp add: count_of_def)
  have stray: "got_loop wanted (iter (count_loop (cr_attendees r) [])) = None \<longleftrightarrow>
      ca_type ` set (cr_attendees r) \<subseteq> ci_type ` set (cr_items r)"
    by (simp add: got_loop_None assms(1) count_loop_keys wanted line_of_def image_image)
  have total: "sint (TotalQuantity r) = int (length (cr_attendees r))"
    if "\<forall>item \<in> set (cr_items r). int (?n (ci_type item)) = sint (ci_quantity item)"
      and "ca_type ` set (cr_attendees r) \<subseteq> ci_type ` set (cr_items r)"
  proof -
    have "(\<Sum>item \<leftarrow> cr_items r. sint (ci_quantity item)) = (\<Sum>item \<leftarrow> cr_items r. int (?n (ci_type item)))"
      using that(1) by (metis (mono_tags, lifting) map_eq_conv)
    also have "\<dots> = int (\<Sum>t \<leftarrow> map ci_type (cr_items r). ?n t)"
      by (simp add: int_sum_list comp_def)
    also have "\<dots> = int (length (cr_attendees r))"
      using good that(2) by (subst attendees_of_partition) (auto simp: good_lines_def)
    finally show ?thesis
      using small sint_of_int32 [of "int (length (cr_attendees r))"]
      by (simp add: TotalQuantity_sum int4_range_def)
  qed
  show ?thesis
    unfolding CheckoutRequest_Validate_def request_ok_def first_error_None guard_None Inr sum.case
      Let_def attendees_loop_None validateEmail_None counts stray
    using good total by blast
qed

end
