(* ===== verification/Sample.thy ===== *)
theory Sample
  imports Runtime
begin

text \<open>
  A small shop on which the properties are evaluated: two events with one ticket type each, a
  pending order of two seats whose deadline is at time 5, and a paid order of one seat with its
  ticket. The clock shows the number of reads so far, and no statement fails.
\<close>

definition sample_event :: event_row where
  "sample_event = \<lparr>ev_id = 1, ev_name = ''Jazz'', ev_slug = ''jazz'', ev_description = None, ev_venue = ''Hall'',
     ev_address = ''Main'', ev_start = 100, ev_end = 200, ev_banner = None, ev_status = StatusPublished,
     ev_created_at = None, ev_updated_at = None\<rparr>"

definition sample_type :: ticket_type_row where
  "sample_type = \<lparr>tt_id = 2, tt_event = 1, tt_name = ''Regular'', tt_price = 50, tt_quota = 10,
     tt_sales_start = 0, tt_sales_end = 90, tt_created_at = None, tt_updated_at = None\<rparr>"

definition sample_order :: order_row where
  "sample_order = \<lparr>ord_id = 20, ord_number = ''ORD-A'', ord_buyer_name = ''Ann'', ord_buyer_email = ''ann@x'',
     ord_buyer_phone = ''1'', ord_total = 100, ord_status = OrderStatusPending, ord_provider = Some ''midtrans'',
     ord_payment_url = Some ''http://qr'', ord_email_sent = Some False, ord_created_at = Some 0,
     ord_updated_at = None, ord_qr_string = Some ''QR'', ord_expires_at = Some 5\<rparr>"

definition sample_db :: database where
  "sample_db = \<lparr>
     admins = [\<lparr>ad_id = 9, ad_email = ''admin@x'', ad_password_hash = ''hash''\<rparr>],
     events = [sample_event, sample_event\<lparr>ev_id := 3, ev_slug := ''rock'', ev_status := StatusDraft\<rparr>],
     ticket_types = [sample_type, sample_type\<lparr>tt_id := 4, tt_event := 3, tt_quota := 5\<rparr>],
     orders = [sample_order, sample_order\<lparr>ord_id := 21, ord_number := ''ORD-B'', ord_total := 50,
       ord_status := OrderStatusPaid\<rparr>],
     order_items = [\<lparr>it_id = 30, it_order = 20, it_type = 2, it_qty = 2, it_price = 50\<rparr>,
       \<lparr>it_id = 31, it_order = 21, it_type = 2, it_qty = 1, it_price = 50\<rparr>],
     attendees = [\<lparr>at_id = 40, at_order = 20, at_type = 2, at_name = ''Ann'', at_email = ''ann@x''\<rparr>,
       \<lparr>at_id = 41, at_order = 20, at_type = 2, at_name = ''Bob'', at_email = ''bob@x''\<rparr>,
       \<lparr>at_id = 42, at_order = 21, at_type = 2, at_name = ''Cid'', at_email = ''cid@x''\<rparr>],
     tickets = [\<lparr>tk_id = 60, tk_code = ''ABCDEFGHJK'', tk_order = 21, tk_attendee = 42,
       tk_status = StatusActive, tk_created_at = Some 3, tk_updated_at = Some 3\<rparr>],
     payments = [], collate = (\<lambda>_. 0)\<rparr>"

definition sample_world :: world where
  "sample_world = \<lparr>wdb = sample_db, tick = 6, faults = (\<lambda>_. False), clock = int, entropy = Some,
     newid = (\<lambda>n. 100 + n), logs = [], fulfillment = [], scans = (\<lambda>_ _. 0)\<rparr>"

lemma sample_schema: "schema_ok sample_db"
  by code_simp

lemma sample_world_schema: "schema_ok (wdb sample_world)"
  by (simp add: sample_world_def sample_schema)

end
