(* ===== verification/Order_Repo.thy ===== *)
theory Order_Repo
  imports Ledger Order_Dto Event_Service Sample
begin

text \<open>
  \<open>internal/order/repository.go\<close>: one definition per repository method. The three methods at the
  end are the order side of the event domain's \<open>OrderChecker\<close>.
\<close>

section \<open>Records\<close>

abbreviation order_ErrNotFound :: goerror where "order_ErrNotFound \<equiv> Sentinel ''order: not found''"
abbreviation ErrOrderNumberTaken :: goerror where
  "ErrOrderNumberTaken \<equiv> Sentinel ''order: order number already taken''"

record OrderRecord =
  or_id :: uuid
  or_number :: string
  or_buyer_name :: string
  or_buyer_email :: string
  or_buyer_phone :: string
  or_total :: decimal
  or_status :: string
  or_provider :: "string option"
  or_payment_url :: "string option"
  or_email_sent :: "bool option"
  or_created_at :: "gotime option"
  or_qr_string :: "string option"
  or_expires_at :: "gotime option"

record OrderItemRecord =
  oi_id :: uuid
  oi_order :: uuid
  oi_type :: uuid
  oi_quantity :: int32
  oi_price :: decimal

record AttendeeRecord =
  ar_id :: uuid
  ar_order :: uuid
  ar_type :: uuid
  ar_name :: string
  ar_email :: string

record PaymentDetails =
  pd_url :: string
  pd_provider :: string
  pd_qr_string :: string
  pd_expires_at :: gotime

record ExpiryCandidate =
  xc_id :: uuid
  xc_number :: string
  xc_status :: string
  xc_expires_at :: "gotime option"

definition toOrderRecord :: "order_row \<Rightarrow> OrderRecord" where
  "toOrderRecord r =
     \<lparr>or_id = ord_id r, or_number = ord_number r, or_buyer_name = ord_buyer_name r,
      or_buyer_email = ord_buyer_email r, or_buyer_phone = ord_buyer_phone r,
      or_total = ord_total r, or_status = ord_status r, or_provider = ord_provider r,
      or_payment_url = ord_payment_url r, or_email_sent = ord_email_sent r,
      or_created_at = ord_created_at r, or_qr_string = ord_qr_string r,
      or_expires_at = ord_expires_at r\<rparr>"

section \<open>Checkout writes\<close>

definition order_CreateOrder :: "CreateOrderParams \<Rightarrow> OrderRecord go" where
  "order_CreateOrder p =
     handle (stmt (sql_CreateOrder p))
       (\<lambda>err. if isUniqueViolation err then fail ErrOrderNumberTaken
              else fail (Errorf (text_msg ''create order: %w'') [err]))
       (\<lambda>row. ret (toOrderRecord row))"

definition order_CreateOrderItem :: "uuid \<Rightarrow> uuid \<Rightarrow> int32 \<Rightarrow> decimal \<Rightarrow> unit go" where
  "order_CreateOrderItem orderID ticketTypeID quantity price =
     bind (wrapping ''create order item: %w''
             (stmt (sql_CreateOrderItem orderID ticketTypeID quantity price))) (\<lambda>_. ret ())"

definition order_CreateAttendee :: "uuid \<Rightarrow> uuid \<Rightarrow> string \<Rightarrow> string \<Rightarrow> uuid go" where
  "order_CreateAttendee orderID ticketTypeID name email =
     bind (wrapping ''create attendee: %w''
             (stmt (sql_CreateAttendee orderID ticketTypeID name email))) (\<lambda>row. ret (at_id row))"

definition order_OrderNumberExists :: "string \<Rightarrow> bool go" where
  "order_OrderNumberExists orderNumber =
     wrapping ''check order number: %w'' (query (sql_OrderNumberExists orderNumber))"

section \<open>Payment lifecycle\<close>

definition order_UpdatePaymentDetails :: "uuid \<Rightarrow> PaymentDetails \<Rightarrow> unit go" where
  "order_UpdatePaymentDetails orderID details =
     (let qrString = (if pd_qr_string details \<noteq> '''' then Some (pd_qr_string details) else None);
          expiresAt = (if \<not> IsZero (pd_expires_at details) then Some (pd_expires_at details) else None)
      in bind (wrapping ''update payment details: %w''
             (stmt (sql_UpdatePaymentDetails orderID (Some (pd_url details)) (Some (pd_provider details))
                     qrString expiresAt))) (\<lambda>affected.
         if affected = 0 then fail order_ErrNotFound else ret ()))"

definition order_ListOrdersDueForExpiry :: "gotime \<Rightarrow> int32 \<Rightarrow> ExpiryCandidate list go" where
  "order_ListOrdersDueForExpiry t limit =
     bind (wrapping ''list orders due for expiry: %w'' (query_rows (sql_ListOrdersDueForExpiry t limit))) (\<lambda>rows.
     ret (map (\<lambda>(i, n, s, e). \<lparr>xc_id = i, xc_number = n, xc_status = s, xc_expires_at = e\<rparr>) rows))"

definition order_UpdateOrderStatusIfPending :: "uuid \<Rightarrow> string \<Rightarrow> bool go" where
  "order_UpdateOrderStatusIfPending orderID status =
     bind (wrapping ''update order status: %w'' (stmt (sql_UpdateOrderStatusIfPending orderID status)))
       (\<lambda>affected. ret (affected > 0))"

definition order_SetEmailSent :: "uuid \<Rightarrow> unit go" where
  "order_SetEmailSent orderID =
     bind (wrapping ''set email_sent: %w'' (stmt (sql_SetEmailSent orderID))) (\<lambda>affected.
     if affected = 0 then fail order_ErrNotFound else ret ())"

section \<open>Reads\<close>

definition order_GetOrderByID :: "uuid \<Rightarrow> OrderRecord go" where
  "order_GetOrderByID i =
     bind (row_or order_ErrNotFound ''get order: %w'' (query_row (sql_GetOrderByID i))) (\<lambda>row.
     ret (toOrderRecord row))"

definition order_GetOrderByNumber :: "string \<Rightarrow> OrderRecord go" where
  "order_GetOrderByNumber orderNumber =
     bind (row_or order_ErrNotFound ''get order by number: %w''
             (query_row (sql_GetOrderByNumber orderNumber))) (\<lambda>row.
     ret (toOrderRecord row))"

definition toOrderItemRecord :: "item_row \<Rightarrow> OrderItemRecord" where
  "toOrderItemRecord r =
     \<lparr>oi_id = it_id r, oi_order = it_order r, oi_type = it_type r,
      oi_quantity = word_of_int (it_qty r), oi_price = it_price r\<rparr>"

definition order_ListOrderItemsByOrderID :: "uuid \<Rightarrow> OrderItemRecord list go" where
  "order_ListOrderItemsByOrderID orderID =
     bind (wrapping ''list order items: %w'' (query_rows (sql_ListOrderItemsByOrderID orderID))) (\<lambda>rows.
     ret (map toOrderItemRecord rows))"

definition toAttendeeRecord :: "attendee_row \<Rightarrow> AttendeeRecord" where
  "toAttendeeRecord r =
     \<lparr>ar_id = at_id r, ar_order = at_order r, ar_type = at_type r, ar_name = at_name r,
      ar_email = at_email r\<rparr>"

definition order_ListAttendeesByOrderID :: "uuid \<Rightarrow> AttendeeRecord list go" where
  "order_ListAttendeesByOrderID orderID =
     bind (wrapping ''list attendees: %w'' (query (sql_ListAttendeesByOrderID orderID))) (\<lambda>rows.
     ret (map toAttendeeRecord rows))"

definition order_AttendeeIDsForOrder :: "uuid \<Rightarrow> uuid list go" where
  "order_AttendeeIDsForOrder orderID =
     bind (order_ListAttendeesByOrderID orderID) (\<lambda>as. ret (map ar_id as))"

section \<open>OrderChecker\<close>

definition order_HasOrdersForTicketType :: "uuid \<Rightarrow> bool go" where
  "order_HasOrdersForTicketType ticketTypeID =
     bind (wrapping ''check orders for ticket type: %w'' (query (sql_HasOrdersForTicketType ticketTypeID)))
       (\<lambda>has. ret (case has of None \<Rightarrow> False | Some b \<Rightarrow> b))"

definition order_HasOrdersForTicketTypes :: "uuid list \<Rightarrow> bool go" where
  "order_HasOrdersForTicketTypes ids =
     (if ids = [] then ret False
      else bind (wrapping ''check orders for ticket types: %w'' (query (sql_HasOrdersForTicketTypes ids)))
        (\<lambda>has. ret (case has of None \<Rightarrow> False | Some b \<Rightarrow> b)))"

definition order_SoldCountByTicketType :: "uuid list \<Rightarrow> (uuid \<rightharpoonup> int) go" where
  "order_SoldCountByTicketType ids =
     (if ids = [] then ret Map.empty
      else bind (wrapping ''count sold tickets: %w'' (query_rows (sql_SoldCountByTicketTypes ids))) (\<lambda>rows.
        ret (fold (\<lambda>(t, sold) counts. counts(t \<mapsto> sold)) rows Map.empty)))"

text \<open>The repository is what \<open>main.go\<close> hands the event service as its \<open>OrderChecker\<close>.\<close>

definition orderChecker :: OrderChecker where
  "orderChecker =
     \<lparr>HasOrdersForTicketType = order_HasOrdersForTicketType,
      HasOrdersForTicketTypes = order_HasOrdersForTicketTypes,
      SoldCountByTicketType = order_SoldCountByTicketType\<rparr>"

section \<open>Frames\<close>

lemma readonly_order_reads [readonly_intros]:
  "readonly (order_OrderNumberExists n)"
  "readonly (order_ListOrdersDueForExpiry t limit)"
  "readonly (order_GetOrderByID i)"
  "readonly (order_GetOrderByNumber n)"
  "readonly (order_ListOrderItemsByOrderID i)"
  "readonly (order_ListAttendeesByOrderID i)"
  "readonly (order_HasOrdersForTicketType i)"
  "readonly (order_HasOrdersForTicketTypes ids)"
  "readonly (order_SoldCountByTicketType ids)"
  unfolding order_OrderNumberExists_def order_ListOrdersDueForExpiry_def order_GetOrderByID_def
    order_GetOrderByNumber_def order_ListOrderItemsByOrderID_def order_ListAttendeesByOrderID_def
    order_HasOrdersForTicketType_def order_HasOrdersForTicketTypes_def order_SoldCountByTicketType_def
  by (intro readonly_intros)+

lemma readonly_AttendeeIDs [readonly_intros]: "readonly (order_AttendeeIDsForOrder i)"
  unfolding order_AttendeeIDsForOrder_def by (intro readonly_intros)

lemma quiet_order_repo [quiet_intros]:
  "quiet (order_CreateOrder p)"
  "quiet (order_CreateOrderItem i t q pr)"
  "quiet (order_CreateAttendee i t n e)"
  "quiet (order_UpdatePaymentDetails i pd)"
  "quiet (order_UpdateOrderStatusIfPending i s)"
  "quiet (order_ListOrderItemsByOrderID i)"
  "quiet (order_GetOrderByID i)"
  "quiet (order_GetOrderByNumber n)"
  "quiet (order_ListOrdersDueForExpiry at_time limit)"
  "quiet (order_ListAttendeesByOrderID i)"
  unfolding order_CreateOrder_def order_CreateOrderItem_def order_CreateAttendee_def
    order_UpdatePaymentDetails_def Let_def order_UpdateOrderStatusIfPending_def
    order_ListOrderItemsByOrderID_def order_GetOrderByID_def order_GetOrderByNumber_def
    order_ListOrdersDueForExpiry_def order_ListAttendeesByOrderID_def
  by (intro quiet_intros)+

lemma keeps_order_writes [keeps_intros]:
  "ensures (kept schema_ok) (order_CreateOrder p)"
  "ensures (kept schema_ok) (order_CreateOrderItem i tt q pr)"
  "ensures (kept schema_ok) (order_CreateAttendee i tt n e)"
  "ensures (kept schema_ok) (order_UpdatePaymentDetails i pd)"
  "ensures (kept schema_ok) (order_UpdateOrderStatusIfPending i s)"
  "ensures (kept schema_ok) (order_SetEmailSent i)"
  unfolding order_CreateOrder_def order_CreateOrderItem_def order_CreateAttendee_def
    order_UpdatePaymentDetails_def Let_def order_UpdateOrderStatusIfPending_def order_SetEmailSent_def
  by (intro keeps_intros inv.ensures_stmt; auto simp: kept_def dest: schema_order_sql)+

section \<open>The delete guards keep their contract\<close>

interpretation order_guards: order_checker orderChecker
proof
  fix i ids w b w' e
  show "readonly (HasOrdersForTicketType orderChecker i)"
    "readonly (HasOrdersForTicketTypes orderChecker ids)"
    "readonly (SoldCountByTicketType orderChecker ids)"
    by (simp_all add: orderChecker_def readonly_intros)
  show "HasOrdersForTicketType orderChecker i w = (Inr b, w') \<Longrightarrow> b = type_referenced (wdb w) i"
    by (auto simp: orderChecker_def order_HasOrdersForTicketType_def bind_Inr type_referenced_def
        sql_HasOrdersForTicketType_def has_key_def dest!: query_Inr)
  show "HasOrdersForTicketTypes orderChecker ids w = (Inr b, w') \<Longrightarrow>
      b = list_ex (type_referenced (wdb w)) ids"
    by (auto simp: orderChecker_def order_HasOrdersForTicketTypes_def bind_Inr type_referenced_def
        sql_HasOrdersForTicketTypes_def has_key_def list_ex_iff split: if_splits dest!: query_Inr) blast+
  show "HasOrdersForTicketType orderChecker i w = (Inl e, w') \<Longrightarrow> \<not> errors_Is e foreign_key_violation"
    by (auto simp: orderChecker_def order_HasOrdersForTicketType_def bind_Inl wrapping_Inl query_run
        split: if_splits)
  show "HasOrdersForTicketTypes orderChecker ids w = (Inl e, w') \<Longrightarrow> \<not> errors_Is e foreign_key_violation"
    by (auto simp: orderChecker_def order_HasOrdersForTicketTypes_def bind_Inl wrapping_Inl query_run
        split: if_splits)
qed


text \<open>
  A deletion without rivals goes through; one that an order overtakes after the guard runs into the
  foreign key, which the admin sees as an internal error, and deletes nothing.
\<close>

definition sample_rivals :: "nat \<Rightarrow> database \<Rightarrow> database" where
  "sample_rivals n d = (if n = 0
     then d\<lparr>order_items := order_items d @ [\<lparr>it_id = 39, it_order = 20, it_type = 4, it_qty = 1, it_price = 50\<rparr>]\<rparr>
     else d)"


end
