(* ===== verification/Ticket.thy ===== *)
theory Ticket
  imports Ticket_Sql Order_Repo Sample "HOL-Library.Multiset"
begin

text \<open>
  \<open>internal/ticket\<close>: issuing tickets for a paid order, the door (validate, mark used) and the public
  lookup. What the service needs of the order domain is the attendees of an order; the locale
  \<open>attendee_provider\<close> states that contract and the order repository keeps it.
\<close>

section \<open>Types\<close>

abbreviation ticket_ErrNotFound :: goerror where "ticket_ErrNotFound \<equiv> Sentinel ''ticket: not found''"
abbreviation ErrCodeTaken :: goerror where "ErrCodeTaken \<equiv> Sentinel ''ticket: code already taken''"

abbreviation ResultValid :: string where "ResultValid \<equiv> ''VALID''"
abbreviation ResultAlreadyUsed :: string where "ResultAlreadyUsed \<equiv> ''ALREADY_USED''"
abbreviation ResultInvalid :: string where "ResultInvalid \<equiv> ''INVALID''"

record Detail =
  dt_code :: string
  dt_status :: string
  dt_attendee :: string
  dt_type :: string
  dt_event :: string

record FullDetail =
  fd_code :: string
  fd_status :: string
  fd_attendee :: string
  fd_type :: string
  fd_event :: string
  fd_venue :: string
  fd_start :: gotime

record TicketRecord =
  tkr_id :: uuid
  tkr_code :: string
  tkr_attendee :: uuid
  tkr_status :: string

record PublicTicket =
  pt_code :: string
  pt_status :: string
  pt_event :: string
  pt_attendee :: string

record ValidationResult =
  vr_result :: string
  vr_code :: string
  vr_attendee :: "string option"
  vr_type :: "string option"
  vr_event :: "string option"

record MarkUsedResponse =
  mu_code :: string
  mu_status :: string

section \<open>Repository\<close>

definition ticket_CreateTicket :: "string \<Rightarrow> uuid \<Rightarrow> uuid \<Rightarrow> unit go" where
  "ticket_CreateTicket code orderID attendeeID =
     handle (stmt (sql_CreateTicket code orderID attendeeID))
       (\<lambda>err. if isUniqueViolation err then fail ErrCodeTaken
              else fail (Errorf (text_msg ''create ticket: %w'') [err]))
       (\<lambda>_. ret ())"

definition ticket_GetDetailByCode :: "string \<Rightarrow> Detail go" where
  "ticket_GetDetailByCode code =
     bind (row_or ticket_ErrNotFound ''get ticket detail: %w'' (query_row (sql_GetTicketDetailByCode code)))
       (\<lambda>(c, st, a, tt, e). ret \<lparr>dt_code = c, dt_status = st, dt_attendee = a, dt_type = tt, dt_event = e\<rparr>)"

definition ticket_GetStatusByCode :: "string \<Rightarrow> string go" where
  "ticket_GetStatusByCode code =
     row_or ticket_ErrNotFound ''get ticket status: %w'' (query_row (sql_GetTicketStatusByCode code))"

definition ticket_MarkUsed :: "string \<Rightarrow> bool go" where
  "ticket_MarkUsed code =
     bind (wrapping ''mark ticket used: %w'' (stmt (sql_MarkTicketUsed code))) (\<lambda>affected.
     ret (affected > 0))"

definition ticket_ListByOrderID :: "uuid \<Rightarrow> TicketRecord list go" where
  "ticket_ListByOrderID orderID =
     bind (wrapping ''list tickets: %w'' (query (sql_ListTicketsByOrderID orderID))) (\<lambda>rows.
     ret (map (\<lambda>(i, c, a, st). \<lparr>tkr_id = i, tkr_code = c, tkr_attendee = a, tkr_status = st\<rparr>) rows))"

definition ticket_ListDetailsByOrderID :: "uuid \<Rightarrow> FullDetail list go" where
  "ticket_ListDetailsByOrderID orderID =
     bind (wrapping ''list ticket details: %w'' (query (sql_ListTicketDetailsByOrderID orderID))) (\<lambda>rows.
     ret (map (\<lambda>(c, st, a, tt, e, v, t). \<lparr>fd_code = c, fd_status = st, fd_attendee = a, fd_type = tt,
               fd_event = e, fd_venue = v, fd_start = t\<rparr>) rows))"

definition ticket_CountByOrderID :: "uuid \<Rightarrow> int go" where
  "ticket_CountByOrderID orderID =
     wrapping ''count tickets: %w'' (query (sql_CountTicketsByOrderID orderID))"

section \<open>Issuing\<close>

abbreviation codeAttempts :: nat where
  "codeAttempts \<equiv> 5"

text \<open>
  \<open>for range codeAttempts\<close>: each branch of the body returns, so only the first turn is ever run.
\<close>

definition createOneTicket :: "uuid \<Rightarrow> uuid \<Rightarrow> unit go" where
  "createOneTicket orderID attendeeID =
     (case codeAttempts of
        0 \<Rightarrow> fail (Sentinel ''ticket: could not allocate a unique code'')
      | Suc _ \<Rightarrow>
          bind GenerateCode (\<lambda>code.
          handle (ticket_CreateTicket code orderID attendeeID)
            (\<lambda>err. if \<not> errors_Is err ErrCodeTaken then fail err
                   else fail (Errorf (text_msg ''ticket code collision: %w'') [err]))
            (\<lambda>_. ret ())))"

text \<open>The first collision is final: the loop returns in its first turn whatever happens.\<close>

lemma collision_is_final:
  "GenerateCode w = (Inr code, w1) \<Longrightarrow> ticket_CreateTicket code i att w1 = (Inl ErrCodeTaken, w2) \<Longrightarrow>
   createOneTicket i att w = (Inl (Errorf (text_msg ''ticket code collision: %w'') [ErrCodeTaken]), w2)"
  by (simp add: createOneTicket_def bind_run handle_def)

definition GenerateForOrder :: "uuid \<Rightarrow> uuid list \<Rightarrow> TicketRecord list go" where
  "GenerateForOrder orderID attendeeIDs =
     bind (ticket_ListByOrderID orderID) (\<lambda>existing.
     if existing \<noteq> [] then
       bind (log LevelInfo ''tickets already issued for order; skipping generation'') (\<lambda>_. ret existing)
     else if attendeeIDs = [] then ret []
     else
       handle (InTx (for_each attendeeIDs (\<lambda>attendeeID. createOneTicket orderID attendeeID)))
         (\<lambda>err. handle (ticket_ListByOrderID orderID)
            (\<lambda>listErr. fail err)
            (\<lambda>issued. if issued \<noteq> [] then ret issued else fail err))
         (\<lambda>_. bind (ticket_ListByOrderID orderID) (\<lambda>issued.
              bind (log LevelInfo ''tickets issued'') (\<lambda>_. ret issued))))"

text \<open>The service holds its attendee provider, or \<open>nil\<close>.\<close>

definition IssueTicketsForOrder :: "(uuid \<Rightarrow> uuid list go) option \<Rightarrow> uuid \<Rightarrow> unit go" where
  "IssueTicketsForOrder s_attendees orderID =
     (case s_attendees of
        None \<Rightarrow> fail (Sentinel ''ticket: no attendee provider configured'')
      | Some attendeeIDsForOrder \<Rightarrow>
          bind (attendeeIDsForOrder orderID) (\<lambda>attendeeIDs.
          bind (GenerateForOrder orderID attendeeIDs) (\<lambda>_. ret ())))"

section \<open>The door\<close>

definition ticket_Validate :: "(string \<Rightarrow> string) \<Rightarrow> string \<Rightarrow> ValidationResult go" where
  "ticket_Validate uc rawCode =
     (let code = NormalizeCode uc rawCode;
          invalidResult = \<lparr>vr_result = ResultInvalid, vr_code = code, vr_attendee = None, vr_type = None, vr_event = None\<rparr>
      in handle (ticket_GetDetailByCode code)
        (\<lambda>err. if errors_Is err ticket_ErrNotFound then ret invalidResult else fail err)
        (\<lambda>detail.
          let result = (if dt_status detail = StatusActive then ResultValid
                        else if dt_status detail = StatusUsed then ResultAlreadyUsed
                        else ResultInvalid)
          in if result = ResultInvalid then ret invalidResult
             else ret \<lparr>vr_result = result, vr_code = dt_code detail, vr_attendee = Some (dt_attendee detail),
                       vr_type = Some (dt_type detail), vr_event = Some (dt_event detail)\<rparr>))"

abbreviation notFoundMessage :: message where
  "notFoundMessage \<equiv> text_msg ''No ticket matches that code.''"

definition MarkUsed :: "(string \<Rightarrow> string) \<Rightarrow> string \<Rightarrow> MarkUsedResponse go" where
  "MarkUsed uc rawCode =
     (let code = NormalizeCode uc rawCode in
      bind (ticket_MarkUsed code) (\<lambda>applied.
      if applied then
        bind (log LevelInfo ''ticket marked used'') (\<lambda>_. ret \<lparr>mu_code = code, mu_status = StatusUsed\<rparr>)
      else
        handle (ticket_GetStatusByCode code)
          (\<lambda>err. if errors_Is err ticket_ErrNotFound then fail (NotFound CodeTicketNotFound notFoundMessage)
                 else fail err)
          (\<lambda>status. fail (Conflict CodeAlreadyUsed
             (Msg ''This ticket cannot be admitted: its status is %s.'' [ArgS status])))))"

definition LookupPublic :: "(string \<Rightarrow> string) \<Rightarrow> string \<Rightarrow> PublicTicket go" where
  "LookupPublic uc rawCode =
     (let code = NormalizeCode uc rawCode in
      handle (ticket_GetDetailByCode code)
        (\<lambda>err. if errors_Is err ticket_ErrNotFound then fail (NotFound CodeTicketNotFound notFoundMessage)
               else fail err)
        (\<lambda>detail. ret \<lparr>pt_code = dt_code detail, pt_status = dt_status detail,
                       pt_event = dt_event detail, pt_attendee = dt_attendee detail\<rparr>))"

text \<open>The handler of the door's validation; echo's \<open>Bind\<close> has parsed the body, or failed.\<close>

definition validate_handler :: "(string \<Rightarrow> string) \<Rightarrow> goerror + string \<Rightarrow> ValidationResult go" where
  "validate_handler uc body =
     (case body of
        Inl err \<Rightarrow> fail (Wrap err 400 CodeValidation (text_msg ''The request body could not be parsed.''))
      | Inr code \<Rightarrow>
          if TrimSpace code = [] then fail (BadRequest CodeValidation (text_msg ''code is required.''))
          else bind (ticket_Validate uc code) ret)"

section \<open>Frames\<close>

lemma readonly_ticket_reads [readonly_intros]:
  "readonly (ticket_GetDetailByCode c)" "readonly (ticket_GetStatusByCode c)"
  "readonly (ticket_ListByOrderID i)" "readonly (ticket_ListDetailsByOrderID i)"
  "readonly (ticket_CountByOrderID i)"
  unfolding ticket_GetDetailByCode_def ticket_GetStatusByCode_def ticket_ListByOrderID_def
    ticket_ListDetailsByOrderID_def ticket_CountByOrderID_def case_prod_beta
  by (intro readonly_intros)+

lemma readonly_door [readonly_intros]:
  "readonly (ticket_Validate uc raw)" "readonly (LookupPublic uc raw)"
  unfolding ticket_Validate_def LookupPublic_def Let_def
  by (intro readonly_intros)+

lemma ticket_writes_evolve [evolve_intros]:
  "ensures evolves (ticket_CreateTicket c i a)" "ensures evolves (ticket_MarkUsed c)"
  unfolding ticket_CreateTicket_def ticket_MarkUsed_def
  by (intro evolve_intros evo.ensures_stmt shop_kept_evolves;
      (erule shop_kept_ticket_sql | erule (1) schema_CreateTicket schema_MarkTicketUsed))+

lemma createOneTicket_evolves [evolve_intros]: "ensures evolves (createOneTicket i a)"
  unfolding createOneTicket_def
  by (simp del: bind_ret_unit) (intro evolve_intros readonly_evolves readonly_GenerateCode)

lemma GenerateForOrder_evolves [evolve_intros]: "ensures evolves (GenerateForOrder i as)"
  unfolding GenerateForOrder_def
  by (intro evolve_intros readonly_evolves [OF readonly_ticket_reads(3)])

lemma MarkUsed_evolves [evolve_intros]: "ensures evolves (MarkUsed uc raw)"
  unfolding MarkUsed_def Let_def
  by (intro evolve_intros readonly_evolves [OF readonly_ticket_reads(2)])

lemma quiet_ticket [quiet_intros]:
  "quiet (ticket_ListByOrderID i)" "quiet (createOneTicket i a)" "quiet (GenerateForOrder i as)"
proof -
  show list: "quiet (ticket_ListByOrderID i)" for i
    unfolding ticket_ListByOrderID_def by (intro quiet_intros)
  show one: "quiet (createOneTicket i a)" for i a
    unfolding createOneTicket_def ticket_CreateTicket_def
    by (simp del: bind_ret_unit) (intro quiet_intros)
  show "quiet (GenerateForOrder i as)"
    unfolding GenerateForOrder_def by (intro quiet_intros list one)
qed

section \<open>Issuing all or nothing\<close>

text \<open>
  The order \<open>i\<close> has got one new ticket for each of the attendees \<open>as\<close>, with codes that no other ticket
  has, and nothing else is new.
\<close>

definition issued :: "uuid \<Rightarrow> uuid list \<Rightarrow> database \<Rightarrow> database \<Rightarrow> bool" where
  "issued i as d d' \<longleftrightarrow>
     (\<exists>ts. d' = d\<lparr>tickets := tickets d @ ts\<rparr> \<and> map tk_attendee ts = as \<and>
       distinct (map tk_code ts) \<and> tk_code ` set ts \<inter> tk_code ` set (tickets d) = {} \<and>
       (\<forall>t \<in> set ts. tk_order t = i \<and> tk_status t = StatusActive \<and>
          length (tk_code t) = 10 \<and> set (tk_code t) \<subseteq> set Alphabet))"

lemma createOneTicket_Inr:
  assumes "createOneTicket i a w = (Inr u, w')"
  shows "issued i [a] (wdb w) (wdb w')"
proof -
  from assms obtain c w1 where gen: "GenerateCode w = (Inr c, w1)" and "ticket_CreateTicket c i a w1 = (Inr (), w')"
    by (auto simp: createOneTicket_def bind_Inr handle_Inr split: if_splits)
  then obtain r where "(wdb w1)\<lparr>tickets := tickets (wdb w1) @ [r]\<rparr> = wdb w'" "tk_order r = i" "tk_attendee r = a"
      "tk_code r = c" "tk_status r = StatusActive" "c \<notin> tk_code ` set (tickets (wdb w1))"
    by (auto simp: ticket_CreateTicket_def handle_Inr sql_CreateTicket_def Let_def has_key_iff
        elim!: stmt_Inr split: if_splits)
  with GenerateCode_Inr [OF gen] readonlyD [OF readonly_GenerateCode gen] show ?thesis
    unfolding issued_def by (intro exI [of _ "[r]"]) (simp flip: \<open>_ = wdb w'\<close>)
qed

lemma issued_trans: "issued i as a b \<Longrightarrow> issued i bs b c \<Longrightarrow> issued i (as @ bs) a c"
  unfolding issued_def by (elim exE conjE, rule_tac x = "ts @ tsa" in exI) auto

lemma issue_loop:
  assumes "for_each as (\<lambda>a. createOneTicket i a) w = (Inr u, w')"
  shows "issued i as (wdb w) (wdb w')"
  using assms
proof (rule for_each_invariant [where P = "\<lambda>as v. issued i as (wdb w) (wdb v)"])
  show "issued i [] (wdb w) (wdb w)" by (simp add: issued_def)
qed (blast intro: issued_trans createOneTicket_Inr)

lemma ListByOrderID_Inr:
  "ticket_ListByOrderID i w = (Inr rs, w') \<Longrightarrow> (rs = [] \<longleftrightarrow> tickets_of (wdb w) i = [])"
  by (auto simp: ticket_ListByOrderID_def bind_Inr sql_ListTicketsByOrderID_def tickets_of_def
      simp flip: set_empty dest!: query_Inr)

text \<open>
  One call leaves an order that has tickets alone, and gives one that has none either all its
  tickets or none of them. A call that succeeds has not left it without.
\<close>

lemma GenerateForOrder_run:
  assumes run: "GenerateForOrder i as w = (r, w')"
  shows "wdb w' = wdb w \<or> tickets_of (wdb w) i = [] \<and> issued i as (wdb w) (wdb w')"
    and "r = Inr rs \<Longrightarrow> tickets_of (wdb w) i = [] \<Longrightarrow> issued i as (wdb w) (wdb w')"
    and "tickets_of (wdb w) i \<noteq> [] \<Longrightarrow> wdb w' = wdb w"
proof -
  obtain q w1 where list: "ticket_ListByOrderID i w = (q, w1)" by fastforce
  have w1: "wdb w1 = wdb w" using readonlyD [OF readonly_ticket_reads(3) list] .
  have all: "(wdb w' = wdb w \<or> tickets_of (wdb w) i = [] \<and> issued i as (wdb w) (wdb w')) \<and>
    (\<forall>rs. r = Inr rs \<longrightarrow> tickets_of (wdb w) i = [] \<longrightarrow> issued i as (wdb w) (wdb w')) \<and>
    (tickets_of (wdb w) i \<noteq> [] \<longrightarrow> wdb w' = wdb w)"
  proof (cases "q = Inr [] \<and> as \<noteq> []")
    case False
    have "issued i [] (wdb w) (wdb w)" by (simp add: issued_def)
    with False run list w1 ListByOrderID_Inr [of i w _ w1] show ?thesis
      by (cases q) (auto simp: GenerateForOrder_def bind_run split: if_splits)
  next
    case True
    then have none: "tickets_of (wdb w) i = []" using list ListByOrderID_Inr by blast
    obtain u w2 where tx: "InTx (for_each as (\<lambda>a. createOneTicket i a)) w1 = (u, w2)" by fastforce
    obtain q2 w3 where list2: "ticket_ListByOrderID i w2 = (q2, w3)" by fastforce
    have w3: "wdb w3 = wdb w2" using readonlyD [OF readonly_ticket_reads(3) list2] .
    show ?thesis
    proof (cases u)
      case (Inl e)
      then have "wdb w2 = wdb w" using InTx_Inl tx w1 by fastforce
      moreover have "q2 = Inr rs \<Longrightarrow> rs = []" for rs using list2 ListByOrderID_Inr none calculation by metis
      ultimately show ?thesis using run list list2 tx True Inl w3 none
        by (cases q2) (auto simp: GenerateForOrder_def bind_run handle_def split: if_splits)
    next
      case (Inr x)
      with tx have "issued i as (wdb w) (wdb w2)" by (metis InTx_Inr issue_loop w1)
      with run list list2 tx True Inr w3 none show ?thesis
        by (cases q2) (auto simp: GenerateForOrder_def bind_run handle_def split: if_splits)
    qed
  qed
  then show "wdb w' = wdb w \<or> tickets_of (wdb w) i = [] \<and> issued i as (wdb w) (wdb w')"
    and "r = Inr rs \<Longrightarrow> tickets_of (wdb w) i = [] \<Longrightarrow> issued i as (wdb w) (wdb w')"
    and "tickets_of (wdb w) i \<noteq> [] \<Longrightarrow> wdb w' = wdb w" by blast+
qed

lemma issued_tickets_of:
  assumes "issued i as d d'" and "tickets_of d i = []"
  shows "map tk_attendee (tickets_of d' i) = as"
    and "t \<in> set (tickets_of d' i) \<Longrightarrow> tk_status t = StatusActive \<and> length (tk_code t) = 10 \<and> set (tk_code t) \<subseteq> set Alphabet"
    and "j \<noteq> i \<Longrightarrow> tickets_of d' j = tickets_of d j"
proof -
  from assms(1) obtain ts where d': "d' = d\<lparr>tickets := tickets d @ ts\<rparr>" and as: "map tk_attendee ts = as"
    and ts: "\<forall>t \<in> set ts. tk_order t = i \<and> tk_status t = StatusActive \<and> length (tk_code t) = 10 \<and> set (tk_code t) \<subseteq> set Alphabet"
    unfolding issued_def by blast
  have "tickets_of d' i = ts" using assms(2) ts by (simp add: tickets_of_def d' filter_True)
  then show "map tk_attendee (tickets_of d' i) = as"
    and "t \<in> set (tickets_of d' i) \<Longrightarrow> tk_status t = StatusActive \<and> length (tk_code t) = 10 \<and> set (tk_code t) \<subseteq> set Alphabet"
    using as ts by simp_all
  show "j \<noteq> i \<Longrightarrow> tickets_of d' j = tickets_of d j"
    using ts by (auto simp: tickets_of_def d' filter_False)
qed

lemma issued_fresh:
  assumes "issued i as d d'" and "tickets_of d i = []"
  shows "distinct (map tk_code (tickets_of d' i))"
    and "tk_code ` set (tickets_of d' i) \<inter> tk_code ` set (tickets d) = {}"
    and "d' = d\<lparr>tickets := tickets d @ tickets_of d' i\<rparr>"
proof -
  from assms(1) obtain ts where d': "d' = d\<lparr>tickets := tickets d @ ts\<rparr>"
    and codes: "distinct (map tk_code ts)" "tk_code ` set ts \<inter> tk_code ` set (tickets d) = {}"
    and ts: "\<forall>t \<in> set ts. tk_order t = i"
    unfolding issued_def by blast
  have "tickets_of d' i = ts" using assms(2) ts by (simp add: tickets_of_def d' filter_True)
  with d' codes show "distinct (map tk_code (tickets_of d' i))"
    "tk_code ` set (tickets_of d' i) \<inter> tk_code ` set (tickets d) = {}"
    "d' = d\<lparr>tickets := tickets d @ tickets_of d' i\<rparr>" by simp_all
qed

section \<open>The attendees of an order\<close>

definition attendee_ids :: "database \<Rightarrow> uuid \<Rightarrow> uuid list" where
  "attendee_ids d i = map at_id (filter (\<lambda>a. at_order a = i) (attendees d))"

locale attendee_provider =
  fixes ids :: "uuid \<Rightarrow> uuid list go"
  assumes ids_readonly: "readonly (ids i)"
    and ids_answer: "ids i w = (Inr as, w') \<Longrightarrow> mset as = mset (attendee_ids (wdb w) i)"
    and ids_quiet: "quiet (ids i)"
begin

lemma issue_evolves: "ensures evolves (IssueTicketsForOrder (Some ids) i)"
  by (simp add: IssueTicketsForOrder_def del: bind_ret_unit)
     (intro evolve_intros readonly_evolves [OF ids_readonly])

lemma issue_quiet: "quiet (IssueTicketsForOrder (Some ids) i)"
  by (simp add: IssueTicketsForOrder_def del: bind_ret_unit) (intro quiet_intros ids_quiet)

lemma issue_run:
  assumes run: "IssueTicketsForOrder (Some ids) i w = (r, w')"
  shows "wdb w' = wdb w \<or> tickets_of (wdb w) i = [] \<and>
      (\<exists>as. mset as = mset (attendee_ids (wdb w) i) \<and> issued i as (wdb w) (wdb w'))"
    and "r = Inr () \<Longrightarrow> tickets_of (wdb w) i = [] \<Longrightarrow>
      \<exists>as. mset as = mset (attendee_ids (wdb w) i) \<and> issued i as (wdb w) (wdb w')"
    and "tickets_of (wdb w) i \<noteq> [] \<Longrightarrow> wdb w' = wdb w"
proof -
  obtain q w1 where q: "ids i w = (q, w1)" by fastforce
  have w1: "wdb w1 = wdb w" using readonlyD [OF ids_readonly q] .
  have "(wdb w' = wdb w \<or> tickets_of (wdb w) i = [] \<and>
      (\<exists>as. mset as = mset (attendee_ids (wdb w) i) \<and> issued i as (wdb w) (wdb w'))) \<and>
    (r = Inr () \<longrightarrow> tickets_of (wdb w) i = [] \<longrightarrow>
      (\<exists>as. mset as = mset (attendee_ids (wdb w) i) \<and> issued i as (wdb w) (wdb w'))) \<and>
    (tickets_of (wdb w) i \<noteq> [] \<longrightarrow> wdb w' = wdb w)"
  proof (cases q)
    case (Inl e)
    with run q w1 show ?thesis by (auto simp: IssueTicketsForOrder_def bind_run)
  next
    case (Inr as)
    note answer = ids_answer [OF q [unfolded Inr]]
    obtain x w2 where gen: "GenerateForOrder i as w1 = (x, w2)" by fastforce
    with run q Inr have "wdb w' = wdb w2" "r = Inr () \<longrightarrow> (\<exists>rs. x = Inr rs)"
      by (auto simp: IssueTicketsForOrder_def bind_run split: sum.splits)
    with GenerateForOrder_run [OF gen, unfolded w1] answer show ?thesis by (cases x) auto
  qed
  then show "wdb w' = wdb w \<or> tickets_of (wdb w) i = [] \<and>
      (\<exists>as. mset as = mset (attendee_ids (wdb w) i) \<and> issued i as (wdb w) (wdb w'))"
    and "r = Inr () \<Longrightarrow> tickets_of (wdb w) i = [] \<Longrightarrow>
      \<exists>as. mset as = mset (attendee_ids (wdb w) i) \<and> issued i as (wdb w) (wdb w')"
    and "tickets_of (wdb w) i \<noteq> [] \<Longrightarrow> wdb w' = wdb w" by blast+
qed

end

interpretation order_attendees: attendee_provider order_AttendeeIDsForOrder
proof
  fix i w as w'
  show "order_AttendeeIDsForOrder i w = (Inr as, w') \<Longrightarrow> mset as = mset (attendee_ids (wdb w) i)"
    by (auto simp: order_AttendeeIDsForOrder_def order_ListAttendeesByOrderID_def bind_Inr attendee_ids_def
        sql_ListAttendeesByOrderID_def toAttendeeRecord_def comp_def dest!: query_Inr)
  show "quiet (order_AttendeeIDsForOrder i)"
    unfolding order_AttendeeIDsForOrder_def by (intro quiet_intros)
qed (rule readonly_AttendeeIDs)

section \<open>The joined view\<close>

text \<open>The foreign keys give every ticket exactly its joins: a ticket that exists has a detail.\<close>

lemma ticket_joins_not_Nil:
  assumes ok: "schema_ok d" and r: "r \<in> set (tickets d)"
  shows "ticket_joins r d \<noteq> []"
proof -
  from schema_refers(4) [OF ok r] obtain a where a: "a \<in> set (attendees d)" "at_id a = tk_attendee r" by auto
  from ok a(1) have "at_type a \<in> tt_id ` set (ticket_types d)" by (simp add: schema_defs image_subset_iff)
  then obtain tt where tt: "tt \<in> set (ticket_types d)" "tt_id tt = at_type a" by auto
  from ok tt(1) have "tt_event tt \<in> ev_id ` set (events d)" by (simp add: schema_defs image_subset_iff)
  then obtain e where "e \<in> set (events d)" "ev_id e = tt_event tt" by auto
  with a tt have "(r, a, tt, e) \<in> set (ticket_joins r d)" by (auto simp: ticket_joins_def)
  then show ?thesis by auto
qed

lemma ticket_joins_fst: "x \<in> set (ticket_joins r d) \<Longrightarrow> fst x = r"
  by (auto simp: ticket_joins_def)

definition joined_rows :: "string \<Rightarrow> database \<Rightarrow> (ticket_row \<times> attendee_row \<times> ticket_type_row \<times> event_row) list" where
  "joined_rows code d = concat (map (\<lambda>r. ticket_joins r d) (filter (\<lambda>r. tk_code r = code) (tickets d)))"

lemma joined_rows_ticket: "x \<in> set (joined_rows code d) \<Longrightarrow> fst x \<in> set (tickets d) \<and> tk_code (fst x) = code"
  by (auto simp: joined_rows_def dest: ticket_joins_fst)

lemma joined_rows_Nil: "schema_ok d \<Longrightarrow> joined_rows code d = [] \<longleftrightarrow> ticket_status d code = None"
  using ticket_joins_not_Nil [of d] by (auto simp: joined_rows_def ticket_status_None filter_empty_conv)

lemma GetTicketDetailByCode_joined:
  "sql_GetTicketDetailByCode code d = (case joined_rows code d of [] \<Rightarrow> None
     | (r, a, tt, e) # _ \<Rightarrow> Some (tk_code r, tk_status r, at_name a, tt_name tt, ev_name e))"
  by (simp add: sql_GetTicketDetailByCode_def joined_rows_def)

lemma GetTicketDetailByCode_None:
  "schema_ok d \<Longrightarrow> sql_GetTicketDetailByCode code d = None \<longleftrightarrow> ticket_status d code = None"
  using joined_rows_Nil [of d code] by (auto simp: GetTicketDetailByCode_joined split: list.splits)

lemma GetTicketDetailByCode_Some:
  assumes ok: "schema_ok d" and "sql_GetTicketDetailByCode code d = Some (c, st, nm, ty, ev)"
  shows "c = code \<and> ticket_status d code = Some st"
proof -
  from assms(2) obtain r a tt e xs where rows: "joined_rows code d = (r, a, tt, e) # xs"
    and st: "c = tk_code r" "st = tk_status r"
    by (auto simp: GetTicketDetailByCode_joined split: list.splits)
  then have "(r, a, tt, e) \<in> set (joined_rows code d)" by simp
  with joined_rows_ticket [OF this] ticket_status_row [OF ok, of r] st show ?thesis by auto
qed

lemma GetDetailByCode_run:
  assumes "ticket_GetDetailByCode code w = (r, w')" and "schema_ok (wdb w)"
  shows "wdb w' = wdb w \<and> (case r of
      Inr d \<Rightarrow> dt_code d = code \<and> ticket_status (wdb w) code = Some (dt_status d)
    | Inl e \<Rightarrow> errors_Is e ticket_ErrNotFound \<longleftrightarrow> e = ticket_ErrNotFound \<and> ticket_status (wdb w) code = None)"
proof (cases r)
  case (Inl e)
  with assms GetTicketDetailByCode_None [OF assms(2), of code] readonlyD [OF readonly_ticket_reads(1) assms(1)]
  show ?thesis
    by (auto simp: ticket_GetDetailByCode_def bind_Inl row_or_Inl dest!: query_row_Inl)
next
  case (Inr d)
  with assms readonlyD [OF readonly_ticket_reads(1) assms(1)] show ?thesis
    by (auto simp: ticket_GetDetailByCode_def bind_Inr dest!: query_row_Inr GetTicketDetailByCode_Some [OF assms(2)])
qed

section \<open>Properties\<close>

text \<open>
  C13: Issuing tickets for an order is all or nothing. Whatever happens, the order either keeps the
  tickets it had or, having had none, gets exactly one active ticket for each of its attendees, each
  with a code in canonical form that no other ticket has, old or new; when the call succeeds it is the
  latter. Nothing else in the database changes, in particular no ticket of another order.
\<close>

theorem issue_one_ticket_per_attendee:
  assumes "IssueTicketsForOrder (Some order_AttendeeIDsForOrder) i w = (r, w')"
  shows "(tickets_of (wdb w) i = [] \<and>
        mset (map tk_attendee (tickets_of (wdb w') i)) = mset (attendee_ids (wdb w) i) \<and>
        (\<forall>t \<in> set (tickets_of (wdb w') i). tk_status t = StatusActive \<and> NormalizeCode uc (tk_code t) = tk_code t) \<and>
        distinct (map tk_code (tickets_of (wdb w') i)) \<and>
        tk_code ` set (tickets_of (wdb w') i) \<inter> tk_code ` set (tickets (wdb w)) = {} \<and>
        wdb w' = (wdb w)\<lparr>tickets := tickets (wdb w) @ tickets_of (wdb w') i\<rparr>
      \<or> r \<noteq> Inr () \<and> wdb w' = wdb w \<or> tickets_of (wdb w) i \<noteq> [] \<and> wdb w' = wdb w) \<and>
    (\<forall>j. j \<noteq> i \<longrightarrow> tickets_of (wdb w') j = tickets_of (wdb w) j)"
proof (cases "wdb w' = wdb w \<and> (r \<noteq> Inr () \<or> tickets_of (wdb w) i \<noteq> [])")
  case False
  then obtain as where none: "tickets_of (wdb w) i = []" and as: "mset as = mset (attendee_ids (wdb w) i)"
    and new: "issued i as (wdb w) (wdb w')"
    using order_attendees.issue_run [OF assms] by blast
  have "\<forall>t \<in> set (tickets_of (wdb w') i). tk_status t = StatusActive \<and> NormalizeCode uc (tk_code t) = tk_code t"
    using issued_tickets_of(2) [OF new none] NormalizeCode_Alphabet by blast
  with issued_tickets_of(1,3) [OF new none] issued_fresh [OF new none] as none show ?thesis by simp
qed auto

theorem issue_one_ticket_per_attendee_witness:
  "map tk_attendee (tickets_of (wdb (snd (IssueTicketsForOrder (Some order_AttendeeIDsForOrder) 20 sample_world))) 20) = [40, 41] \<and>
   mset [40, 41] = mset (attendee_ids sample_db 20)"
proof -
  let ?run = "IssueTicketsForOrder (Some order_AttendeeIDsForOrder) 20 sample_world"
  have "tickets_of (wdb sample_world) 20 = []" "fst ?run = Inr ()" by code_simp+
  moreover from this have run: "?run = (Inr (), snd ?run)" by (simp add: prod_eq_iff)
  ultimately have "mset (map tk_attendee (tickets_of (wdb (snd ?run)) 20)) = mset (attendee_ids (wdb sample_world) 20)"
    using issue_one_ticket_per_attendee [OF run, of "\<lambda>s. s"] by blast
  moreover have "map tk_attendee (tickets_of (wdb (snd ?run)) 20) = [40, 41]" by code_simp
  moreover have "wdb sample_world = sample_db" by (simp add: sample_world_def)
  ultimately show ?thesis by simp
qed

text \<open>
  C14: Issuing is idempotent: once an order has tickets, no later call changes the database, so a
  repeated payment notification or a retried fulfilment never gives it a second set.
\<close>

theorem issue_is_idempotent:
  assumes "IssueTicketsForOrder (Some order_AttendeeIDsForOrder) i w = (Inr (), w1)"
    and "attendee_ids (wdb w) i \<noteq> []"
    and "tickets_of (wdb w2) i = tickets_of (wdb w1) i"
    and "IssueTicketsForOrder (Some order_AttendeeIDsForOrder) i w2 = (r, w3)"
  shows "wdb w3 = wdb w2"
proof (rule order_attendees.issue_run(3) [OF assms(4)])
  show "tickets_of (wdb w2) i \<noteq> []"
  proof (cases "tickets_of (wdb w) i = []")
    case True
    with order_attendees.issue_run(2) [OF assms(1)] obtain as where "mset as = mset (attendee_ids (wdb w) i)"
      and "issued i as (wdb w) (wdb w1)" by blast
    with issued_tickets_of(1) [OF this(2) True] assms(2,3) show ?thesis by auto
  qed (use order_attendees.issue_run(3) [OF assms(1)] assms(3) in simp)
qed

theorem issue_is_idempotent_witness:
  "\<exists>w1. IssueTicketsForOrder (Some order_AttendeeIDsForOrder) 20 sample_world = (Inr (), w1) \<and>
     length (tickets (wdb w1)) = 3 \<and>
     wdb (snd (IssueTicketsForOrder (Some order_AttendeeIDsForOrder) 20 w1)) = wdb w1"
proof -
  let ?run = "IssueTicketsForOrder (Some order_AttendeeIDsForOrder) 20 sample_world"
  have "fst ?run = Inr ()" by code_simp
  then have run: "?run = (Inr (), snd ?run)" by (simp add: prod_eq_iff)
  moreover have "length (tickets (wdb (snd ?run))) = 3" by code_simp
  moreover have "attendee_ids (wdb sample_world) 20 \<noteq> []" by code_simp
  ultimately show ?thesis
    using issue_is_idempotent [OF run, of "snd ?run" "fst (IssueTicketsForOrder (Some order_AttendeeIDsForOrder) 20 (snd ?run))"]
    by (metis prod.collapse)
qed

text \<open>
  C15: A ticket is admitted only if it is active, and admitting it makes it used; every other answer
  of the endpoint has changed nothing: unknown codes are 404 and tickets that exist but are not
  active are 409. So of two calls for the same code, in whatever order they run, at most one
  admits.
\<close>

theorem MarkUsed_admits_once:
  assumes "schema_ok (wdb w)" and "MarkUsed uc raw w = (r, w')"
  shows "case r of
      Inr resp \<Rightarrow> ticket_status (wdb w) (NormalizeCode uc raw) = Some StatusActive \<and>
        ticket_status (wdb w') = (ticket_status (wdb w))(NormalizeCode uc raw \<mapsto> StatusUsed) \<and>
        wdb w' = (wdb w)\<lparr>tickets := tickets (wdb w')\<rparr> \<and> mu_code resp = NormalizeCode uc raw
    | Inl e \<Rightarrow> wdb w' = wdb w \<and>
        (e = NotFound CodeTicketNotFound notFoundMessage \<longrightarrow> ticket_status (wdb w) (NormalizeCode uc raw) = None) \<and>
        (\<forall>msg. e = Conflict CodeAlreadyUsed msg \<longrightarrow>
           (\<exists>s. ticket_status (wdb w) (NormalizeCode uc raw) = Some s \<and> s \<noteq> StatusActive))"
proof -
  let ?c = "NormalizeCode uc raw"
  obtain q w1 where upd: "stmt (sql_MarkTicketUsed ?c) w = (q, w1)" by fastforce
  show ?thesis
  proof (cases q)
    case (Inl e)
    then have "e = DriverError ''database''" using upd
      by (auto simp: sql_MarkTicketUsed_def elim!: stmt_Inl_cases)
    with Inl assms(2) upd stmt_Inl [of "sql_MarkTicketUsed ?c" w e w1] show ?thesis
      by (auto simp: MarkUsed_def Let_def ticket_MarkUsed_def bind_run wrapping_def handle_def apperr_defs)
  next
    case (Inr n)
    with upd obtain i t where sql: "sql_MarkTicketUsed ?c i t (wdb w) = Inr (n, wdb w1)" by (auto elim: stmt_Inr)
    note effect = MarkTicketUsed_effect [OF sql assms(1)]
    show ?thesis
    proof (cases "0 < n")
      case True
      with Inr upd assms(2) effect(1,2,5) show ?thesis
        by (auto simp: MarkUsed_def Let_def ticket_MarkUsed_def bind_run wrapping_def handle_def)
    next
      case False
      then have w1: "wdb w1 = wdb w" and st: "ticket_status (wdb w) ?c \<noteq> Some StatusActive"
        using effect(1,3) by simp_all
      obtain q2 w2 where get: "ticket_GetStatusByCode ?c w1 = (q2, w2)" by fastforce
      have w2: "wdb w2 = wdb w" using readonlyD [OF readonly_ticket_reads(2) get] w1 by simp
      have "q2 = Inr s \<Longrightarrow> ticket_status (wdb w) ?c = Some s"
        and "q2 = Inl ticket_ErrNotFound \<Longrightarrow> ticket_status (wdb w) ?c = None"
        and "q2 = Inl e \<Longrightarrow> e = ticket_ErrNotFound \<or> \<not> errors_Is e ticket_ErrNotFound \<and> \<not> is_AppErr e" for s e
        using get w1
        by (auto simp: ticket_GetStatusByCode_def row_or_Inl sql_GetTicketStatusByCode_def ticket_status_def
            dest!: query_row_Inr query_row_Inl split: if_splits)
      with False Inr upd assms(2) get w2 st show ?thesis
        by (cases q2) (auto simp: MarkUsed_def Let_def ticket_MarkUsed_def bind_run wrapping_def handle_def apperr_defs
            split: if_splits)
    qed
  qed
qed

theorem MarkUsed_admits_once_witness:
  "fst (MarkUsed (\<lambda>s. s) '' abcdefghjk '' sample_world) = Inr \<lparr>mu_code = ''ABCDEFGHJK'', mu_status = StatusUsed\<rparr> \<and>
   ticket_status (wdb (snd (MarkUsed (\<lambda>s. s) '' abcdefghjk '' sample_world))) ''ABCDEFGHJK'' = Some StatusUsed"
proof -
  let ?run = "MarkUsed (\<lambda>s. s) '' abcdefghjk '' sample_world"
  have code: "NormalizeCode (\<lambda>s. s) '' abcdefghjk '' = ''ABCDEFGHJK''" by code_simp
  have run: "fst ?run = Inr \<lparr>mu_code = ''ABCDEFGHJK'', mu_status = StatusUsed\<rparr>" by code_simp
  then have "?run = (Inr \<lparr>mu_code = ''ABCDEFGHJK'', mu_status = StatusUsed\<rparr>, snd ?run)" by (metis prod.collapse)
  from MarkUsed_admits_once [OF sample_world_schema this] run show ?thesis by (simp add: code)
qed

text \<open>
  C16: Validating a code at the door never writes, and its answer is the ticket's status: VALID
  exactly for an active ticket, ALREADY_USED exactly for a used one, INVALID for everything else,
  unknown codes included; an INVALID answer discloses nothing about a ticket.
\<close>

theorem Validate_reports_status:
  assumes "schema_ok (wdb w)" and "ticket_Validate uc raw w = (Inr v, w')"
  shows "wdb w' = wdb w \<and> vr_code v = NormalizeCode uc raw \<and>
    (vr_result v = ResultValid \<longleftrightarrow> ticket_status (wdb w) (NormalizeCode uc raw) = Some StatusActive) \<and>
    (vr_result v = ResultAlreadyUsed \<longleftrightarrow> ticket_status (wdb w) (NormalizeCode uc raw) = Some StatusUsed) \<and>
    vr_result v \<in> {ResultValid, ResultAlreadyUsed, ResultInvalid} \<and>
    (vr_result v = ResultInvalid \<longleftrightarrow> vr_attendee v = None) \<and>
    (vr_result v = ResultInvalid \<longrightarrow> vr_type v = None \<and> vr_event v = None)"
proof -
  obtain q w1 where get: "ticket_GetDetailByCode (NormalizeCode uc raw) w = (q, w1)" by fastforce
  from GetDetailByCode_run [OF get assms(1)] assms(2) get show ?thesis
    by (cases q) (auto simp: ticket_Validate_def Let_def handle_def split: if_splits)
qed

theorem Validate_reports_status_witness:
  "fst (ticket_Validate (\<lambda>s. s) ''abcdefghjk'' sample_world) =
     Inr \<lparr>vr_result = ResultValid, vr_code = ''ABCDEFGHJK'', vr_attendee = Some ''Cid'', vr_type = Some ''Regular'', vr_event = Some ''Jazz''\<rparr> \<and>
   wdb (snd (ticket_Validate (\<lambda>s. s) ''abcdefghjk'' sample_world)) = sample_db"
    (is "fst ?run = Inr ?v \<and> _")
proof -
  have run: "fst ?run = Inr ?v" by code_simp
  then have "?run = (Inr ?v, snd ?run)" by (metis prod.collapse)
  from Validate_reports_status [OF sample_world_schema this] run show ?thesis by (simp add: sample_world_def)
qed

end
