(* ===== verification/Admin.thy ===== *)
theory Admin
  imports Evolution Codes Sample
begin

text \<open>
  \<open>internal/admin\<close>: login, the access tokens and the middleware that guards the admin routes. The
  JWT library, bcrypt and the text form of UUIDs are the fields of \<open>auth_lib\<close>.
\<close>

section \<open>The libraries\<close>

datatype claim_value = ClaimString string | ClaimNumber int

type_synonym map_claims = "(string \<times> claim_value) list"

text \<open>
  \<open>al_sign key claims\<close> is \<open>NewWithClaims(HS256, claims).SignedString(key)\<close>. \<open>al_parse\<close> is \<open>jwt.Parse\<close>
  at a time: it asks the key function for the key of the algorithm the token names, accepts the
  given algorithms only, and requires an expiry when told so.
\<close>

record auth_lib =
  al_sign :: "string \<Rightarrow> map_claims \<Rightarrow> goerror + string"
  al_parse :: "(string \<Rightarrow> goerror + string) \<Rightarrow> string list \<Rightarrow> bool \<Rightarrow> gotime \<Rightarrow> string \<Rightarrow> goerror + map_claims"
  al_bcrypt :: "string \<Rightarrow> string \<Rightarrow> goerror option"
  al_uuid_string :: "uuid \<Rightarrow> string"
  al_uuid_parse :: "string \<Rightarrow> goerror + uuid"
  al_lower :: "string \<Rightarrow> string"

section \<open>Accounts\<close>

abbreviation admin_ErrNotFound :: goerror where "admin_ErrNotFound \<equiv> Sentinel ''admin: not found''"

record Account =
  ac_id :: uuid
  ac_email :: string
  ac_password_hash :: string

definition sql_GetAdminByEmail :: "string \<Rightarrow> database \<Rightarrow> admin_row option" where
  "sql_GetAdminByEmail email d = find (\<lambda>r. ad_email r = email) (admins d)"

definition admin_GetByEmail :: "string \<Rightarrow> Account go" where
  "admin_GetByEmail email =
     bind (row_or admin_ErrNotFound ''get admin by email: %w'' (query_row (sql_GetAdminByEmail email))) (\<lambda>row.
     ret \<lparr>ac_id = ad_id row, ac_email = ad_email row, ac_password_hash = ad_password_hash row\<rparr>)"

section \<open>Tokens\<close>

record Claims =
  cl_admin :: uuid
  cl_email :: string

record TokenIssuer =
  is_secret :: string
  is_ttl :: int

text \<open>\<open>t.Unix()\<close>: whole seconds since 1970, the zero time being year 1.\<close>

definition Unix :: "gotime \<Rightarrow> int" where
  "Unix t = t div 1000000000 - 62135596800"

definition token_claims :: "auth_lib \<Rightarrow> uuid \<Rightarrow> string \<Rightarrow> gotime \<Rightarrow> gotime \<Rightarrow> map_claims" where
  "token_claims lib adminID email issuedAt expiresAt =
     [(''sub'', ClaimString (al_uuid_string lib adminID)), (''email'', ClaimString email),
      (''iat'', ClaimNumber (Unix issuedAt)), (''exp'', ClaimNumber (Unix expiresAt))]"

definition Issue :: "auth_lib \<Rightarrow> TokenIssuer \<Rightarrow> uuid \<Rightarrow> string \<Rightarrow> (string \<times> gotime) go" where
  "Issue lib t adminID email =
     bind now (\<lambda>issuedAt.
     let expiresAt = issuedAt + is_ttl t in
     handle (lift (al_sign lib (is_secret t) (token_claims lib adminID email issuedAt expiresAt)))
       (\<lambda>err. fail (Errorf (text_msg ''sign admin token: %w'') [err]))
       (\<lambda>signed. ret (signed, expiresAt)))"

text \<open>The key function: any HMAC method gets the secret, any other method an error.\<close>

definition token_key :: "TokenIssuer \<Rightarrow> string \<Rightarrow> goerror + string" where
  "token_key t alg =
     (if alg = ''HS256'' \<or> alg = ''HS384'' \<or> alg = ''HS512'' then Inr (is_secret t)
      else Inl (Errorf (Msg ''unexpected signing method %q'' [ArgS alg]) []))"

text \<open>\<open>claims.GetSubject()\<close> and \<open>claims["email"].(string)\<close>.\<close>

definition GetSubject :: "map_claims \<Rightarrow> goerror + string" where
  "GetSubject claims =
     (case map_of claims ''sub'' of
        None \<Rightarrow> Inr []
      | Some (ClaimString s) \<Rightarrow> Inr s
      | Some (ClaimNumber _) \<Rightarrow> Inl (DriverError ''jwt''))"

definition email_claim :: "map_claims \<Rightarrow> string" where
  "email_claim claims = (case map_of claims ''email'' of Some (ClaimString s) \<Rightarrow> s | _ \<Rightarrow> [])"

definition Verify :: "auth_lib \<Rightarrow> TokenIssuer \<Rightarrow> string \<Rightarrow> Claims go" where
  "Verify lib t raw =
     bind now (\<lambda>at_time.
     handle (lift (al_parse lib (token_key t) [''HS256''] True at_time raw))
       (\<lambda>err. fail (Errorf (text_msg ''verify admin token: %w'') [err]))
       (\<lambda>claims.
     handle (lift (GetSubject claims))
       (\<lambda>err. fail (Errorf (text_msg ''verify admin token: %w'') [err]))
       (\<lambda>subject.
     handle (lift (al_uuid_parse lib subject))
       (\<lambda>err. fail (Errorf (text_msg ''verify admin token: subject is not a UUID: %w'') [err]))
       (\<lambda>adminID. ret \<lparr>cl_admin = adminID, cl_email = email_claim claims\<rparr>))))"

section \<open>Middleware\<close>

abbreviation bearerPrefix :: string where "bearerPrefix \<equiv> ''bearer ''"

text \<open>
  \<open>strings.EqualFold\<close> with \<open>"bearer "\<close>: none of its letters folds to anything but its other case.
\<close>

definition has_bearer :: "string \<Rightarrow> bool" where
  "has_bearer header \<longleftrightarrow>
     \<not> (length header < length bearerPrefix) \<and> map ascii_lower (take (length bearerPrefix) header) = bearerPrefix"

definition RequireAuth :: "auth_lib \<Rightarrow> TokenIssuer \<Rightarrow> string \<Rightarrow> (Claims \<Rightarrow> 'a go) \<Rightarrow> 'a go" where
  "RequireAuth lib t header k =
     (if \<not> has_bearer header then
        fail (Unauthorized CodeUnauthorized (text_msg ''A bearer token is required.''))
      else
        handle (Verify lib t (TrimSpace (drop (length bearerPrefix) header)))
          (\<lambda>err. fail (Wrap err 401 CodeUnauthorized (text_msg ''The access token is invalid or has expired.'')))
          k)"

section \<open>Login\<close>

record LoginRequest =
  lr_email :: string
  lr_password :: string

record LoginResponse =
  lg_token :: string
  lg_expires_at :: gotime

definition dummyHash :: string where
  "dummyHash = ''$2a$10$N9qo8uLOickgx2ZMRZoMyeIjZAgcfl7p92ldGxad68LJZdL17lhWy''"

definition invalidCredentials :: goerror where
  "invalidCredentials = Unauthorized CodeInvalidCredentials (text_msg ''Email or password is incorrect.'')"

definition Login :: "auth_lib \<Rightarrow> TokenIssuer \<Rightarrow> LoginRequest \<Rightarrow> LoginResponse go" where
  "Login lib t req =
     (let email = ToLower (al_lower lib) (TrimSpace (lr_email req)) in
      handle (admin_GetByEmail email)
        (\<lambda>err. if errors_Is err admin_ErrNotFound then
                 let burnt = al_bcrypt lib dummyHash (lr_password req) in
                 bind (log LevelWarn ''failed admin login'') (\<lambda>_. fail invalidCredentials)
               else fail err)
        (\<lambda>account.
          case al_bcrypt lib (ac_password_hash account) (lr_password req) of
            Some err \<Rightarrow> bind (log LevelWarn ''failed admin login'') (\<lambda>_. fail invalidCredentials)
          | None \<Rightarrow>
              bind (Issue lib t (ac_id account) (ac_email account)) (\<lambda>(token, expiresAt).
              bind (log LevelInfo ''admin logged in'') (\<lambda>_.
              ret \<lparr>lg_token = token, lg_expires_at = expiresAt\<rparr>))))"

section \<open>Frames\<close>

lemma readonly_admin_parts [readonly_intros]:
  "readonly (admin_GetByEmail e)" "readonly (Issue lib t i e)" "readonly (Verify lib t raw)"
  unfolding admin_GetByEmail_def Issue_def Let_def Verify_def by (intro readonly_intros)+

lemma readonly_Login [readonly_intros]: "readonly (Login lib t req)"
  unfolding Login_def Let_def case_prod_beta by (intro readonly_intros)

lemma quiet_Verify [quiet_intros]: "quiet (Verify lib t raw)"
  unfolding Verify_def by (intro quiet_intros)

lemma quiet_Login [quiet_intros]: "quiet (Login lib t req)"
  unfolding Login_def Let_def case_prod_beta admin_GetByEmail_def Issue_def by (intro quiet_intros)

section \<open>A library to evaluate with\<close>

text \<open>It signs the claims of one login only, and passwords are their own hashes.\<close>

definition signing_lib :: "gotime \<Rightarrow> gotime \<Rightarrow> auth_lib" where
  "signing_lib issued expires = \<lparr>
     al_sign = (\<lambda>key claims.
       if key = ''secret'' \<and> map_of claims ''sub'' = Some (ClaimString ''nine'') \<and> map fst claims = [''sub'', ''email'', ''iat'', ''exp''] \<and>
          map_of claims ''email'' = Some (ClaimString ''admin@x'') \<and>
          map_of claims ''iat'' = Some (ClaimNumber (Unix issued)) \<and> map_of claims ''exp'' = Some (ClaimNumber (Unix expires))
       then Inr ''token'' else Inl (DriverError ''key'')),
     al_parse = (\<lambda>key methods expiry at_time raw.
       if raw = ''token'' \<and> key ''HS256'' = Inr ''secret'' \<and> List.member methods ''HS256'' \<and>
          Unix at_time < Unix expires
       then Inr [(''sub'', ClaimString ''nine''), (''email'', ClaimString ''admin@x''),
         (''iat'', ClaimNumber (Unix issued)), (''exp'', ClaimNumber (Unix expires))]
       else Inl (DriverError ''jwt'')),
     al_bcrypt = (\<lambda>hash password. if hash = password then None else Some (DriverError ''bcrypt'')),
     al_uuid_string = (\<lambda>i. if i = 9 then ''nine'' else ''other''),
     al_uuid_parse = (\<lambda>s. if s = ''nine'' then Inr 9 else Inl (DriverError ''uuid'')),
     al_lower = (\<lambda>s. s)\<rparr>"

definition sample_lib :: auth_lib where
  "sample_lib = signing_lib 7 3600000000007"

definition sample_issuer :: TokenIssuer where
  "sample_issuer = \<lparr>is_secret = ''secret'', is_ttl = 3600000000000\<rparr>"

definition sample_login :: "string \<Rightarrow> string \<Rightarrow> LoginResponse go" where
  "sample_login email password = Login sample_lib sample_issuer \<lparr>lr_email = email, lr_password = password\<rparr>"

section \<open>Properties\<close>

lemma Issue_Inl:
  assumes "Issue lib t i email w = (Inl e, w')"
  shows "\<exists>cause. e = Errorf (text_msg ''sign admin token: %w'') [cause]"
proof -
  obtain v where v: "al_sign lib (is_secret t) (token_claims lib i email (clock w (tick w)) (clock w (tick w) + is_ttl t)) = v"
    by blast
  show ?thesis using assms by (cases v) (auto simp: Issue_def bind_run now_def Let_def handle_def v)
qed

lemma GetByEmail_run:
  "admin_GetByEmail email w = (r, w') \<Longrightarrow>
   (case r of
      Inr ac \<Rightarrow> \<exists>row. find (\<lambda>x. ad_email x = email) (admins (wdb w)) = Some row \<and>
        ac = \<lparr>ac_id = ad_id row, ac_email = ad_email row, ac_password_hash = ad_password_hash row\<rparr>
    | Inl e \<Rightarrow> e = admin_ErrNotFound \<and> find (\<lambda>x. ad_email x = email) (admins (wdb w)) = None \<or>
        e = Errorf (text_msg ''get admin by email: %w'') [DriverError ''database''] \<and> faults w (tick w))"
  by (auto simp: admin_GetByEmail_def bind_run row_or_def handle_def query_row_def stmt_def sql_GetAdminByEmail_def
      split: if_splits option.splits)

text \<open>
  C22: Login answers a token only for an account whose (trimmed, lower-cased) email is the one given
  and whose password hash bcrypt accepts. While the database answers, every other attempt gets one and
  the same error, whether the account is unknown or the password is wrong. The only other errors are
  that the database did not answer, and that the token library failed for the right credentials.
  Login never writes.
\<close>

theorem Login_reveals_nothing:
  assumes "Login lib t req w = (r, w')"
  shows "let account = find (\<lambda>row. ad_email row = ToLower (al_lower lib) (TrimSpace (lr_email req))) (admins (wdb w));
      accepted = (case account of None \<Rightarrow> False | Some row \<Rightarrow> al_bcrypt lib (ad_password_hash row) (lr_password req) = None)
    in wdb w' = wdb w \<and> (\<not> faults w (tick w) \<and> \<not> accepted \<longrightarrow> r = Inl invalidCredentials) \<and>
      (case r of
         Inr resp \<Rightarrow> accepted
       | Inl e \<Rightarrow> e = invalidCredentials \<and> \<not> accepted \<or>
           e = Errorf (text_msg ''get admin by email: %w'') [DriverError ''database''] \<and> faults w (tick w) \<or>
           accepted \<and> (\<exists>cause. e = Errorf (text_msg ''sign admin token: %w'') [cause]))"
proof -
  let ?email = "ToLower (al_lower lib) (TrimSpace (lr_email req))"
  obtain q w1 where get: "admin_GetByEmail ?email w = (q, w1)" by fastforce
  note account = GetByEmail_run [OF get]
  have db: "wdb w' = wdb w" using readonlyD [OF readonly_Login assms] .
  show ?thesis
  proof (cases q)
    case (Inl e)
    with assms get db account show ?thesis
      by (auto simp: Login_def Let_def handle_def bind_run split: if_splits)
  next
    case (Inr ac)
    with account obtain row where row: "find (\<lambda>x. ad_email x = ?email) (admins (wdb w)) = Some row"
      and ac: "ac = \<lparr>ac_id = ad_id row, ac_email = ad_email row, ac_password_hash = ad_password_hash row\<rparr>" by auto
    show ?thesis
    proof (cases "al_bcrypt lib (ad_password_hash row) (lr_password req)")
      case (Some err)
      with assms get db Inr ac row show ?thesis by (auto simp: Login_def Let_def handle_def bind_run)
    next
      case None
      obtain x w2 where issue: "Issue lib t (ad_id row) (ad_email row) w1 = (x, w2)" by fastforce
      have "x = Inl e \<Longrightarrow> \<exists>cause. e = Errorf (text_msg ''sign admin token: %w'') [cause]" for e
        using Issue_Inl issue by blast
      moreover have "r = (case x of Inl e \<Rightarrow> Inl e | Inr (token, t) \<Rightarrow> Inr \<lparr>lg_token = token, lg_expires_at = t\<rparr>)"
        using assms get Inr ac None issue by (cases x) (simp_all add: Login_def Let_def handle_def bind_run prod.case_eq_if)
      ultimately show ?thesis using db None row by (cases x) (auto simp: Let_def prod.case_eq_if)
    qed
  qed
qed

theorem Login_reveals_nothing_witness:
  "fst (sample_login ''nobody@x'' ''hash'' sample_world) = Inl invalidCredentials \<and>
   fst (sample_login ''admin@x'' ''wrong'' sample_world) = Inl invalidCredentials \<and>
   fst (sample_login '' ADMIN@x '' ''hash'' sample_world) = Inr \<lparr>lg_token = ''token'', lg_expires_at = 3600000000007\<rparr> \<and>
   wdb (snd (sample_login '' ADMIN@x '' ''hash'' sample_world)) = sample_db"
proof -
  have "sample_login '' ADMIN@x '' ''hash'' sample_world =
      (fst (sample_login '' ADMIN@x '' ''hash'' sample_world), snd (sample_login '' ADMIN@x '' ''hash'' sample_world))" by simp
  from Login_reveals_nothing [OF this [unfolded sample_login_def], folded sample_login_def]
  have "wdb (snd (sample_login '' ADMIN@x '' ''hash'' sample_world)) = wdb sample_world" unfolding Let_def by (elim conjE)
  moreover have "fst (sample_login ''nobody@x'' ''hash'' sample_world) = Inl invalidCredentials"
    "fst (sample_login ''admin@x'' ''wrong'' sample_world) = Inl invalidCredentials"
    "fst (sample_login '' ADMIN@x '' ''hash'' sample_world) = Inr \<lparr>lg_token = ''token'', lg_expires_at = 3600000000007\<rparr>"
    by code_simp+
  ultimately show ?thesis by (simp add: sample_world_def)
qed

text \<open>
  What the library is documented to bring back: the claims are encoded as JSON, which keeps texts that
  are valid UTF-8 and integers a double holds exactly; and of the registered claims only the expiry is
  looked at when no other (\<open>nbf\<close>) is present.
\<close>

definition continues :: "nat \<Rightarrow> bool" where
  "continues c \<longleftrightarrow> 128 \<le> c \<and> c \<le> 191"

fun utf8_bytes :: "nat list \<Rightarrow> bool" where
  "utf8_bytes [] = True"
| "utf8_bytes (b # bs) =
     (if b < 128 then utf8_bytes bs
      else case bs of [] \<Rightarrow> False | c # cs \<Rightarrow>
        continues c \<and>
        (if 194 \<le> b \<and> b \<le> 223 then utf8_bytes cs
         else case cs of [] \<Rightarrow> False | c2 # cs2 \<Rightarrow>
           continues c2 \<and>
           (if 224 \<le> b \<and> b \<le> 239 then (b = 224 \<longrightarrow> 160 \<le> c) \<and> (b = 237 \<longrightarrow> c \<le> 159) \<and> utf8_bytes cs2
            else case cs2 of [] \<Rightarrow> False | c3 # cs3 \<Rightarrow>
              continues c3 \<and> 240 \<le> b \<and> b \<le> 244 \<and> (b = 240 \<longrightarrow> 144 \<le> c) \<and> (b = 244 \<longrightarrow> c \<le> 143) \<and>
              utf8_bytes cs3)))"

definition utf8 :: "string \<Rightarrow> bool" where
  "utf8 s = utf8_bytes (map of_char s)"

fun kept_by_json :: "claim_value \<Rightarrow> bool" where
  "kept_by_json (ClaimString s) = utf8 s"
| "kept_by_json (ClaimNumber n) = (\<bar>n\<bar> \<le> 2 ^ 53)"

definition plain_claims :: "map_claims \<Rightarrow> bool" where
  "plain_claims claims \<longleftrightarrow> distinct (map fst claims) \<and> set (map fst claims) \<subseteq> {''sub'', ''email'', ''iat'', ''exp''} \<and>
     list_all (\<lambda>(_, v). kept_by_json v) claims"

text \<open>
  C21: A token that login has issued verifies, until it expires, to the identity it was issued for.
  Of the JWT library this needs what it documents: parsing a token signed with HS256 under the key
  the key function gives, before its expiry, returns its claims, for claims that JSON keeps and that
  hold none of the other registered names. Of UUIDs it needs that they print as text and parsing undoes
  printing; of the email, that it is text, as the database's encoding has it; and that the clock shows
  times after 1970.
\<close>

theorem Verify_inverts_Issue:
  assumes sign: "\<And>key kf methods claims raw exp at_time. al_sign lib key claims = Inr raw \<Longrightarrow> plain_claims claims \<Longrightarrow>
      kf ''HS256'' = Inr key \<Longrightarrow> ''HS256'' \<in> set methods \<Longrightarrow> map_of claims ''exp'' = Some (ClaimNumber exp) \<Longrightarrow>
      0 < exp \<Longrightarrow> Unix at_time < exp \<Longrightarrow>
      \<exists>parsed. al_parse lib kf methods True at_time raw = Inr parsed \<and> map_of parsed = map_of claims"
    and uuid: "al_uuid_parse lib (al_uuid_string lib i) = Inr i" "utf8 (al_uuid_string lib i)"
    and email: "utf8 email"
    and issued: "Issue lib t i email w = (Inr (raw, expiresAt), w')"
    and era: "Unix (clock w (tick w)) \<in> {0..2 ^ 53}" "Unix expiresAt \<le> 2 ^ 53" "0 \<le> Unix (clock v (tick v))"
    and valid: "Unix (clock v (tick v)) < Unix expiresAt"
  shows "fst (Verify lib t raw v) = Inr \<lparr>cl_admin = i, cl_email = email\<rparr>"
proof -
  let ?claims = "token_claims lib i email (clock w (tick w)) expiresAt"
  have signed: "al_sign lib (is_secret t) ?claims = Inr raw"
    using issued by (auto simp: Issue_def bind_run now_def Let_def handle_def lift_def split: sum.splits)
  have "plain_claims ?claims" using uuid(2) email era valid by (simp add: plain_claims_def token_claims_def)
  then obtain parsed where "al_parse lib (token_key t) [''HS256''] True (clock v (tick v)) raw = Inr parsed"
    and "map_of parsed = map_of ?claims"
    using sign [OF signed, of "token_key t" "[''HS256'']" "Unix expiresAt" "clock v (tick v)"] valid era(3)
    by (auto simp: token_key_def token_claims_def)
  then show ?thesis
    by (simp add: Verify_def bind_run now_def handle_def GetSubject_def token_claims_def uuid(1) email_claim_def)
qed

text \<open>A shop with its clock in this century.\<close>

definition sample_today :: world where
  "sample_today = sample_world\<lparr>clock := (\<lambda>n. 63900000000000000000 + int n)\<rparr>"

definition today_lib :: auth_lib where
  "today_lib = signing_lib 63900000000000000006 63900003600000000006"

theorem Verify_inverts_Issue_witness:
  "fst (Verify today_lib sample_issuer ''token'' sample_today) = Inr \<lparr>cl_admin = 9, cl_email = ''admin@x''\<rparr>"
proof (rule Verify_inverts_Issue)
  show "Issue today_lib sample_issuer 9 ''admin@x'' sample_today =
      (Inr (''token'', 63900003600000000006), snd (Issue today_lib sample_issuer 9 ''admin@x'' sample_today))"
    by (simp add: prod_eq_iff) code_simp
  show "Unix (clock sample_today (tick sample_today)) \<in> {0..2 ^ 53}" "Unix 63900003600000000006 \<le> 2 ^ 53"
    "0 \<le> Unix (clock sample_today (tick sample_today))"
    "Unix (clock sample_today (tick sample_today)) < Unix 63900003600000000006"
    by (simp_all add: sample_today_def sample_world_def Unix_def)
  show "\<exists>parsed. al_parse today_lib kf methods True at_time raw = Inr parsed \<and> map_of parsed = map_of claims"
    if "al_sign today_lib key claims = Inr raw" "plain_claims claims" "kf ''HS256'' = Inr key" "''HS256'' \<in> set methods"
      "map_of claims ''exp'' = Some (ClaimNumber exp)" "0 < exp" "Unix at_time < exp" for key kf methods claims raw exp at_time
  proof -
    from that(1) have sub: "map_of claims ''sub'' = Some (ClaimString ''nine'')" "map_of claims ''email'' = Some (ClaimString ''admin@x'')"
      "map_of claims ''iat'' = Some (ClaimNumber (Unix 63900000000000000006))" "map_of claims ''exp'' = Some (ClaimNumber (Unix 63900003600000000006))"
      and keys: "map fst claims = [''sub'', ''email'', ''iat'', ''exp'']" and key: "key = ''secret''" and raw: "raw = ''token''"
      by (auto simp: today_lib_def signing_lib_def split: if_splits)
    have "k \<notin> set [''sub'', ''email'', ''iat'', ''exp''] \<Longrightarrow> map_of claims k = None" for k
      by (simp add: map_of_eq_None_iff flip: set_map keys)
    with sub have "map_of claims = map_of [(''sub'', ClaimString ''nine''), (''email'', ClaimString ''admin@x''),
         (''iat'', ClaimNumber (Unix 63900000000000000006)), (''exp'', ClaimNumber (Unix 63900003600000000006))]"
      by (intro ext) (simp add: fun_upd_def)
    with that(3-7) sub key raw show ?thesis by (auto simp: today_lib_def signing_lib_def)
  qed
qed (code_simp+)

text \<open>
  C20: Nothing behind the middleware runs without a valid token: either the header is a bearer token
  that verifies, and the rest runs with its claims, or the request is refused with 401 and has
  changed nothing.
\<close>

theorem RequireAuth_guards:
  assumes "RequireAuth lib t header k w = (r, w')"
  shows "(\<exists>claims w1. has_bearer header \<and> Verify lib t (TrimSpace (drop (length bearerPrefix) header)) w = (Inr claims, w1) \<and>
        wdb w1 = wdb w \<and> k claims w1 = (r, w')) \<or>
    (\<exists>msg cause. r = Inl (AppError 401 CodeUnauthorized msg cause) \<and> wdb w' = wdb w \<and> fulfillment w' = fulfillment w)"
proof -
  obtain q w1 where q: "Verify lib t (TrimSpace (drop (length bearerPrefix) header)) w = (q, w1)" by fastforce
  have "wdb w1 = wdb w" "fulfillment w1 = fulfillment w"
    using readonlyD [OF readonly_admin_parts(3) q] quietD [OF quiet_Verify q] .
  with assms q show ?thesis
    by (cases q) (auto simp: RequireAuth_def handle_def apperr_defs split: if_splits)
qed

theorem RequireAuth_guards_witness:
  "fst (RequireAuth sample_lib sample_issuer ''BEARER token'' (\<lambda>claims. ret (cl_admin claims)) sample_world) = Inr 9 \<and>
   (\<exists>msg cause. fst (RequireAuth sample_lib sample_issuer ''Bearer forged'' (\<lambda>claims. ret (cl_admin claims)) sample_world) =
      Inl (AppError 401 CodeUnauthorized msg cause))"
proof -
  let ?bad = "RequireAuth sample_lib sample_issuer ''Bearer forged'' (\<lambda>claims. ret (cl_admin claims)) sample_world"
  have "fst (RequireAuth sample_lib sample_issuer ''BEARER token'' (\<lambda>claims. ret (cl_admin claims)) sample_world) = Inr 9"
    by code_simp
  moreover have "isl (fst ?bad)" by code_simp
  then obtain e v where bad: "?bad = (Inl e, v)" by (cases ?bad) (auto simp: isl_def)
  with RequireAuth_guards [OF bad] have "\<exists>msg cause. fst ?bad = Inl (AppError 401 CodeUnauthorized msg cause)" by auto
  ultimately show ?thesis by blast
qed

end
