(* ===== verification/Checkout.thy ===== *)
theory Checkout
  imports Order_Repo Evolution
begin

text \<open>
  \<open>internal/order/service.go\<close>: guest checkout. TX1 deducts the quota and inserts the order with
  its lines and attendees, the gateway is called outside any transaction, TX2 stamps the payment
  details; a failing gateway call is compensated. What checkout needs of the event and payment
  domains (\<open>event_provider.go\<close>) are the records \<open>EventProvider\<close> and \<open>PaymentGateway\<close>, whose laws
  are the locales \<open>event_provider\<close> and \<open>checkout\<close>.
\<close>

section \<open>Interfaces\<close>

abbreviation order_ErrInsufficientQuota :: goerror where
  "order_ErrInsufficientQuota \<equiv> Sentinel ''order: insufficient quota''"

record TicketTypeInfo =
  ti_id :: uuid
  ti_event :: uuid
  ti_name :: string
  ti_price :: decimal
  ti_sales_start :: gotime
  ti_sales_end :: gotime

record EventProvider =
  ep_TicketTypeForCheckout :: "uuid \<Rightarrow> TicketTypeInfo go"
  ep_CheckAndDeductQuota :: "uuid \<Rightarrow> int32 \<Rightarrow> unit go"
  ep_RestoreQuota :: "uuid \<Rightarrow> int32 \<Rightarrow> unit go"

record PaymentItem =
  pi_id :: uuid
  pi_name :: string
  pi_price :: decimal
  pi_quantity :: int32

record PaymentRequest =
  pr_number :: string
  pr_gross :: decimal
  pr_name :: string
  pr_email :: string
  pr_phone :: string
  pr_items :: "PaymentItem list"

record PaymentSession =
  ps_ref :: string
  ps_qr_string :: string
  ps_qr_image :: string
  ps_expires_at :: gotime
  ps_redirect :: string

record PaymentGateway =
  gw_Name :: string
  gw_CreateTransaction :: "PaymentRequest \<Rightarrow> PaymentSession go"

section \<open>Service\<close>

abbreviation orderNumberAttempts :: nat where
  "orderNumberAttempts \<equiv> 5"

record reservedLine =
  rl_type :: uuid
  rl_name :: string
  rl_quantity :: int32
  rl_price :: decimal

record OrderResponse =
  resp_number :: string
  resp_order_status :: string
  resp_total :: decimal
  resp_payment_url :: string

text \<open>One turn of the loop over the items; the loop variables are \<open>total\<close> and \<open>reserved\<close>.\<close>

definition reserve_item ::
  "EventProvider \<Rightarrow> decimal \<times> reservedLine list \<Rightarrow> CheckoutItem \<Rightarrow> (decimal \<times> reservedLine list) go" where
  "reserve_item ep s item =
     (case s of (amount, reserved) \<Rightarrow>
      bind (ep_TicketTypeForCheckout ep (ci_type item)) (\<lambda>info.
      bind now (\<lambda>t.
      if t < ti_sales_start info \<or> ti_sales_end info < t then
        fail (BadRequest CodeTicketTypeNotOnSale
               (Msg ''Ticket type %q is not currently on sale.'' [ArgS (ti_name info)]))
      else handle (ep_CheckAndDeductQuota ep (ci_type item) (ci_quantity item))
        (\<lambda>err. if errors_Is err order_ErrInsufficientQuota then
                 fail (BadRequest CodeInsufficientQuota (Msg ''Only fewer than %d ticket(s) remain for %q.''
                        [ArgI (sint (ci_quantity item)), ArgS (ti_name info)]))
               else fail err)
        (\<lambda>_. ret (amount + ti_price info * of_int (sint (ci_quantity item)),
                 reserved @ [\<lparr>rl_type = ci_type item, rl_name = ti_name info,
                              rl_quantity = ci_quantity item, rl_price = ti_price info\<rparr>])))))"

definition reserve_tx ::
  "EventProvider \<Rightarrow> CheckoutRequest \<Rightarrow> string \<Rightarrow> (OrderRecord \<times> decimal \<times> reservedLine list) go" where
  "reserve_tx ep req orderNumber =
     bind (fold_each (cr_items req) (reserve_item ep) (0, [])) (\<lambda>(amount, reserved).
     bind (order_CreateOrder \<lparr>cop_number = orderNumber, cop_buyer_name = cr_buyer_name req,
             cop_buyer_email = cr_buyer_email req, cop_buyer_phone = cr_buyer_phone req,
             cop_total = amount\<rparr>) (\<lambda>created.
     bind (for_each reserved (\<lambda>line.
             order_CreateOrderItem (or_id created) (rl_type line) (rl_quantity line) (rl_price line))) (\<lambda>_.
     bind (for_each (cr_attendees req) (\<lambda>a.
             bind (order_CreateAttendee (or_id created) (ca_type a) (ca_name a) (ca_email a)) (\<lambda>_. ret ()))) (\<lambda>_.
     ret (created, amount, reserved)))))"

definition reserveOnce ::
  "EventProvider \<Rightarrow> CheckoutRequest \<Rightarrow> (OrderRecord \<times> decimal \<times> reservedLine list) go" where
  "reserveOnce ep req =
     bind now (\<lambda>t.
     bind (GenerateOrderNumber t) (\<lambda>orderNumber.
     InTx (reserve_tx ep req orderNumber)))"

text \<open>The loop of \<open>reserve\<close>: \<open>n\<close> attempts are left, \<open>lastErr\<close> is \<open>nil\<close> before the first.\<close>

fun reserve_loop ::
  "EventProvider \<Rightarrow> CheckoutRequest \<Rightarrow> nat \<Rightarrow> goerror option \<Rightarrow>
   (OrderRecord \<times> decimal \<times> reservedLine list) go" where
  "reserve_loop ep req 0 lastErr =
     fail (Errorf (text_msg ''could not allocate a unique order number: %w'')
            (case lastErr of None \<Rightarrow> [] | Some e \<Rightarrow> [e]))"
| "reserve_loop ep req (Suc n) lastErr =
     handle (reserveOnce ep req)
       (\<lambda>err. if \<not> errors_Is err ErrOrderNumberTaken then fail err
              else bind (log LevelWarn ''order number collision; retrying'') (\<lambda>_.
                reserve_loop ep req n (Some err)))
       ret"

definition reserve ::
  "EventProvider \<Rightarrow> CheckoutRequest \<Rightarrow> (OrderRecord \<times> decimal \<times> reservedLine list) go" where
  "reserve ep req = reserve_loop ep req orderNumberAttempts None"

definition compensate_tx :: "EventProvider \<Rightarrow> OrderRecord \<Rightarrow> reservedLine list \<Rightarrow> unit go" where
  "compensate_tx ep created reserved =
     bind (order_UpdateOrderStatusIfPending (or_id created) OrderStatusCancelled) (\<lambda>cancelled.
     if \<not> cancelled then ret ()
     else for_each reserved (\<lambda>line. ep_RestoreQuota ep (rl_type line) (rl_quantity line)))"

definition compensate :: "EventProvider \<Rightarrow> OrderRecord \<Rightarrow> reservedLine list \<Rightarrow> unit go" where
  "compensate ep created reserved =
     handle (InTx (compensate_tx ep created reserved))
       (\<lambda>err. log LevelError ''compensation failed; quota may remain reserved'')
       ret"

definition paymentRequestFor ::
  "OrderRecord \<Rightarrow> decimal \<Rightarrow> reservedLine list \<Rightarrow> CheckoutRequest \<Rightarrow> PaymentRequest" where
  "paymentRequestFor created amount reserved req =
     \<lparr>pr_number = or_number created, pr_gross = amount, pr_name = cr_buyer_name req,
      pr_email = cr_buyer_email req, pr_phone = cr_buyer_phone req,
      pr_items = map (\<lambda>line. \<lparr>pi_id = rl_type line, pi_name = rl_name line, pi_price = rl_price line,
                             pi_quantity = rl_quantity line\<rparr>) reserved\<rparr>"

text \<open>The half of \<open>Checkout\<close> that follows TX1.\<close>

definition checkout_payment ::
  "EventProvider \<Rightarrow> PaymentGateway \<Rightarrow> CheckoutRequest \<Rightarrow> OrderRecord \<Rightarrow> decimal \<Rightarrow> reservedLine list \<Rightarrow>
   OrderResponse go" where
  "checkout_payment ep gw req created amount reserved =
     handle (gw_CreateTransaction gw (paymentRequestFor created amount reserved req))
       (\<lambda>err.
         bind (log LevelError ''payment initiation failed; compensating'') (\<lambda>_.
         bind (compensate ep created reserved) (\<lambda>_.
         fail (Wrap err 502 CodePaymentInitiationFailed (text_msg
           (''We could not start the payment with the provider. No tickets were reserved '' @
            [CHR 0xE2, CHR 0x80, CHR 0x94] @ '' please try again.''))))))
       (\<lambda>session.
         handle (InTx (order_UpdatePaymentDetails (or_id created)
             \<lparr>pd_url = ps_qr_image session, pd_provider = gw_Name gw,
              pd_qr_string = ps_qr_string session, pd_expires_at = ps_expires_at session\<rparr>))
           (\<lambda>err.
             bind (log LevelError ''could not persist payment details'') (\<lambda>_.
             fail (Wrap err 502 CodePaymentInitiationFailed (text_msg
               ''We could not complete the payment setup. Please try again.''))))
           (\<lambda>_.
             bind (log LevelInfo ''checkout completed'') (\<lambda>_.
             ret \<lparr>resp_number = or_number created, resp_order_status = or_status created,
                  resp_total = amount, resp_payment_url = ps_qr_image session\<rparr>)))"

definition Checkout ::
  "(string \<Rightarrow> bool) \<Rightarrow> (int32_map \<Rightarrow> int32_map) \<Rightarrow> EventProvider \<Rightarrow> PaymentGateway \<Rightarrow>
   CheckoutRequest \<Rightarrow> OrderResponse go" where
  "Checkout ParseAddress iter ep gw req =
     bind (check (CheckoutRequest_Validate ParseAddress iter req)) (\<lambda>_.
     bind (reserve ep req) (\<lambda>(created, amount, reserved).
     checkout_payment ep gw req created amount reserved))"

section \<open>What a reservation does\<close>

definition price_in :: "database \<Rightarrow> uuid \<Rightarrow> decimal" where
  "price_in d t = (case find (\<lambda>r. tt_id r = t) (ticket_types d) of None \<Rightarrow> 0 | Some r \<Rightarrow> tt_price r)"

definition item_lines :: "CheckoutItem list \<Rightarrow> (uuid \<times> int) list" where
  "item_lines items = map (\<lambda>i. (ci_type i, sint (ci_quantity i))) items"

definition reserved_lines :: "reservedLine list \<Rightarrow> (uuid \<times> int) list" where
  "reserved_lines ls = map (\<lambda>l. (rl_type l, sint (rl_quantity l))) ls"

definition total_price :: "database \<Rightarrow> CheckoutItem list \<Rightarrow> decimal" where
  "total_price d items = (\<Sum>i \<leftarrow> items. price_in d (ci_type i) * of_int (sint (ci_quantity i)))"

text \<open>
  The order \<open>row\<close> has been placed: it is new, pending, priced from the database, and its lines and
  attendees are those of the request; the seats of its lines have left the quota; nothing else
  has changed.
\<close>

definition order_placed :: "CheckoutRequest \<Rightarrow> order_row \<Rightarrow> database \<Rightarrow> database \<Rightarrow> bool" where
  "order_placed req row d d' \<longleftrightarrow>
     (\<exists>its ats ts.
        d' = d\<lparr>ticket_types := ts, orders := orders d @ [row],
               order_items := order_items d @ its, attendees := attendees d @ ats\<rparr> \<and>
        map (\<lambda>r. (it_order r, it_type r, it_qty r, it_price r)) its =
          map (\<lambda>i. (ord_id row, ci_type i, sint (ci_quantity i), price_in d (ci_type i))) (cr_items req) \<and>
        map (\<lambda>a. (at_order a, at_type a, at_name a, at_email a)) ats =
          map (\<lambda>a. (ord_id row, ca_type a, ca_name a, ca_email a)) (cr_attendees req)) \<and>
     ord_id row \<notin> ord_id ` set (orders d) \<and> ord_status row = OrderStatusPending \<and>
     ord_buyer_name row = cr_buyer_name req \<and> ord_buyer_email row = cr_buyer_email req \<and>
     ord_buyer_phone row = cr_buyer_phone req \<and>
     ord_total row = total_price d (cr_items req) \<and> ord_expires_at row = None \<and> ord_qr_string row = None \<and>
     (\<forall>t. quota_of d' t = map_option (\<lambda>n. n - line_seats (item_lines (cr_items req)) t) (quota_of d t)) \<and>
     catalogue d' = catalogue d"

lemma price_in_catalogue:
  assumes "catalogue d' = catalogue d"
  shows "price_in d' = price_in d"
proof
  fix t
  have *: "find (\<lambda>r. tt_id r = t) (map (\<lambda>r. r\<lparr>tt_quota := 0, tt_updated_at := None\<rparr>) rs) =
      map_option (\<lambda>r. r\<lparr>tt_quota := 0, tt_updated_at := None\<rparr>) (find (\<lambda>r. tt_id r = t) rs)" for rs
    by (induction rs) auto
  have "price_in d t = (case find (\<lambda>r. tt_id r = t) (catalogue d) of None \<Rightarrow> 0 | Some r \<Rightarrow> tt_price r)" for d
    by (simp add: price_in_def catalogue_def * split: option.split)
  then show "price_in d' t = price_in d t" by (simp add: assms)
qed

lemma order_placed_status:
  "order_placed req row d d' \<Longrightarrow>
   order_status d (ord_id row) = None \<and> order_status d' = (order_status d)(ord_id row \<mapsto> OrderStatusPending)"
proof -
  assume placed: "order_placed req row d d'"
  then have os: "orders d' = orders d @ [row]" and new: "ord_id row \<notin> ord_id ` set (orders d)"
    and st: "ord_status row = OrderStatusPending" by (auto simp: order_placed_def)
  have find: "find P (xs @ [x]) = (case find P xs of None \<Rightarrow> if P x then Some x else None | Some y \<Rightarrow> Some y)"
    for P :: "order_row \<Rightarrow> bool" and xs x by (induction xs) auto
  have "find (\<lambda>r. ord_id r = ord_id row) (orders d) = None" using new
    by (metis (mono_tags, lifting) find_None_iff image_eqI)
  then show ?thesis
    by (auto simp: order_status_def os find st fun_eq_iff split: option.split)
qed

lemma order_placed_items:
  assumes "order_placed req row d d'"
  obtains its where "order_items d' = order_items d @ its" and "\<And>r. r \<in> set its \<Longrightarrow> it_order r = ord_id row"
    and "map (\<lambda>r. (it_type r, it_qty r)) its = item_lines (cr_items req)"
proof -
  from assms obtain its where items: "order_items d' = order_items d @ its"
    and its: "map (\<lambda>r. (it_order r, it_type r, it_qty r, it_price r)) its =
          map (\<lambda>i. (ord_id row, ci_type i, sint (ci_quantity i), price_in d (ci_type i))) (cr_items req)"
    by (auto simp: order_placed_def)
  have "\<And>r. r \<in> set its \<Longrightarrow> it_order r = ord_id row"
    using arg_cong [OF its, of "\<lambda>xs. fst ` set xs"] by (auto simp: image_image split: if_splits)
  moreover have "map (\<lambda>r. (it_type r, it_qty r)) its = item_lines (cr_items req)"
    using arg_cong [OF its, of "map (\<lambda>(_, t, q, _). (t, q))"] by (simp add: item_lines_def comp_def)
  ultimately show thesis using items that by blast
qed

lemma order_placed_lines:
  assumes ok: "schema_ok d" and placed: "order_placed req row d d'"
  shows "lines_of d' (ord_id row) = item_lines (cr_items req)"
    and "i \<noteq> ord_id row \<Longrightarrow> lines_of d' i = lines_of d i"
proof -
  from order_placed_items [OF placed] obtain its where items: "order_items d' = order_items d @ its"
    and own: "\<And>r. r \<in> set its \<Longrightarrow> it_order r = ord_id row"
    and lines: "map (\<lambda>r. (it_type r, it_qty r)) its = item_lines (cr_items req)" by blast
  have "it_order r \<noteq> ord_id row" if "r \<in> set (order_items d)" for r
    using schema_refers(1) [OF ok that] placed by (auto simp: order_placed_def)
  then show "lines_of d' (ord_id row) = item_lines (cr_items req)"
    using own lines by (simp add: lines_of_def items filter_True filter_False cong: filter_cong)
  show "i \<noteq> ord_id row \<Longrightarrow> lines_of d' i = lines_of d i"
    using own by (simp add: lines_of_def items filter_False)
qed

lemma sum_where_lines:
  "sum_where (\<lambda>r. it_type r = t) it_qty rs = line_seats (map (\<lambda>r. (it_type r, it_qty r)) rs) t"
  by (induction rs) (auto simp: line_seats_def sum_where_Cons)

lemma order_placed_held:
  assumes ok: "schema_ok d" and placed: "order_placed req row d d'"
  shows "held d' t = held d t + line_seats (item_lines (cr_items req)) t"
proof -
  from order_placed_items [OF placed] obtain its where "order_items d' = order_items d @ its"
    and "\<And>r. r \<in> set its \<Longrightarrow> it_order r = ord_id row"
    and lines: "map (\<lambda>r. (it_type r, it_qty r)) its = item_lines (cr_items req)" by blast
  with held_placed [OF ok this(1,2)] order_placed_status [OF placed] show ?thesis
    by (simp add: sum_where_lines)
qed

lemma order_placed_ledger:
  assumes "schema_ok d" and placed: "order_placed req row d d'"
  shows "ledger d' = ledger d"
proof
  fix t
  show "ledger d' t = ledger d t"
    using order_placed_held [OF assms, of t] placed
    by (cases "quota_of d t") (simp_all add: ledger_def order_placed_def)
qed

lemma order_placed_evolves:
  assumes ok: "schema_ok d" and ok': "schema_ok d'" and placed: "order_placed req row d d'"
  shows "evolves d d'"
proof -
  have "order_status d' i = order_status d i \<and> lines_of d' i = lines_of d i"
    if "order_status d i = Some s" for i s
    using that order_placed_status [OF placed] order_placed_lines(2) [OF ok placed, of i] by auto
  then show ?thesis
    using ok' order_placed_ledger [OF ok placed] by (simp add: evolves_def orders_evolve_def status_path_def)
qed

subsection \<open>The inserts of the transaction\<close>

lemma CreateOrder_row:
  "order_CreateOrder p w = (Inr created, w') \<Longrightarrow>
   \<exists>row. created = toOrderRecord row \<and> wdb w' = (wdb w)\<lparr>orders := orders (wdb w) @ [row]\<rparr> \<and>
     ord_id row \<notin> ord_id ` set (orders (wdb w)) \<and> ord_number row = cop_number p \<and>
     ord_status row = OrderStatusPending \<and> ord_total row = cop_total p \<and>
     ord_buyer_name row = cop_buyer_name p \<and> ord_buyer_email row = cop_buyer_email p \<and>
     ord_buyer_phone row = cop_buyer_phone p \<and>
     ord_expires_at row = None \<and> ord_qr_string row = None"
  by (auto simp: order_CreateOrder_def handle_Inr sql_CreateOrder_def Let_def has_key_iff
      elim!: stmt_Inr split: if_splits)

lemma create_items_loop:
  fixes reserved :: "reservedLine list"
  assumes run: "for_each reserved (\<lambda>line. order_CreateOrderItem i (rl_type line) (rl_quantity line)
      (rl_price line)) w = (Inr u, w')"
  shows "\<exists>its. wdb w' = (wdb w)\<lparr>order_items := order_items (wdb w) @ its\<rparr> \<and>
    map (\<lambda>r. (it_order r, it_type r, it_qty r, it_price r)) its =
    map (\<lambda>l. (i, rl_type l, sint (rl_quantity l), rl_price l)) reserved"
    (is "?P reserved w'")
  using run
proof (rule for_each_invariant [where P = ?P])
  fix xs :: "reservedLine list" and x :: reservedLine and v u v'
  assume "?P xs v"
  then obtain its where "wdb v = (wdb w)\<lparr>order_items := order_items (wdb w) @ its\<rparr>"
    "map (\<lambda>r. (it_order r, it_type r, it_qty r, it_price r)) its =
      map (\<lambda>l. (i, rl_type l, sint (rl_quantity l), rl_price l)) xs" by blast
  moreover assume "order_CreateOrderItem i (rl_type x) (rl_quantity x) (rl_price x) v = (Inr u, v')"
  then obtain r where "(wdb v)\<lparr>order_items := order_items (wdb v) @ [r]\<rparr> = wdb v'"
    "(it_order r, it_type r, it_qty r, it_price r) = (i, rl_type x, sint (rl_quantity x), rl_price x)"
    by (auto simp: order_CreateOrderItem_def bind_Inr sql_CreateOrderItem_def Let_def
        elim!: stmt_Inr split: if_splits)
  note r = this
  ultimately show "?P (xs @ [x]) v'" by (intro exI [of _ "its @ [r]"]) (simp flip: r(1))
qed (rule exI [of _ "[]"], simp)

lemma create_attendees_loop:
  fixes as :: "CheckoutAttendee list"
  assumes run: "for_each as (\<lambda>a. bind (order_CreateAttendee i (ca_type a) (ca_name a) (ca_email a))
      (\<lambda>_. ret ())) w = (Inr u, w')"
  shows "\<exists>ats. wdb w' = (wdb w)\<lparr>attendees := attendees (wdb w) @ ats\<rparr> \<and>
    map (\<lambda>a. (at_order a, at_type a, at_name a, at_email a)) ats =
    map (\<lambda>a. (i, ca_type a, ca_name a, ca_email a)) as"
    (is "?P as w'")
  using run
proof (rule for_each_invariant [where P = ?P])
  fix xs :: "CheckoutAttendee list" and x :: CheckoutAttendee and v u v'
  assume "?P xs v"
  then obtain ats where "wdb v = (wdb w)\<lparr>attendees := attendees (wdb w) @ ats\<rparr>"
    "map (\<lambda>a. (at_order a, at_type a, at_name a, at_email a)) ats =
      map (\<lambda>a. (i, ca_type a, ca_name a, ca_email a)) xs" by blast
  moreover assume "bind (order_CreateAttendee i (ca_type x) (ca_name x) (ca_email x)) (\<lambda>_. ret ()) v = (Inr u, v')"
  then obtain a where "(wdb v)\<lparr>attendees := attendees (wdb v) @ [a]\<rparr> = wdb v'"
    "(at_order a, at_type a, at_name a, at_email a) = (i, ca_type x, ca_name x, ca_email x)"
    by (auto simp: order_CreateAttendee_def bind_Inr sql_CreateAttendee_def Let_def
        elim!: stmt_Inr split: if_splits)
  note a = this
  ultimately show "?P (xs @ [x]) v'" by (intro exI [of _ "ats @ [a]"]) (simp flip: a(1))
qed (rule exI [of _ "[]"], simp)

lemma UpdateStatus_Inr:
  assumes "order_UpdateOrderStatusIfPending i s w = (Inr b, w')" and "schema_ok (wdb w)"
  shows "schema_ok (wdb w') \<and> b = (order_status (wdb w) i = Some OrderStatusPending) \<and>
    (if b then status_moved i s (wdb w) (wdb w') else wdb w' = wdb w)"
  using assms(1)
  by (auto simp: order_UpdateOrderStatusIfPending_def bind_Inr elim!: stmt_Inr
      dest: UpdateOrderStatusIfPending_moved [OF _ assms(2)] schema_UpdateOrderStatusIfPending [OF _ assms(2)]
      UpdateOrderStatusIfPending_effect(1) [OF _ assms(2)])

lemma order_rows [row_intros]:
  "ensures (row_written i) (order_UpdateOrderStatusIfPending i s)"
  "ensures (row_written i) (order_UpdatePaymentDetails i pd)"
  "ensures (row_written i) (order_SetEmailSent i)"
  unfolding order_UpdateOrderStatusIfPending_def order_UpdatePaymentDetails_def order_SetEmailSent_def Let_def
  by (intro row_intros rows.ensures_stmt; erule row_written_sql)+

lemma RestoreQuota_rows [row_intros]: "ensures (row_written i) (RestoreQuota t q)"
  unfolding RestoreQuota_def event_RestoreQuota_def
  by (intro row_intros rows.ensures_stmt; erule row_written_restored)

section \<open>The contract of the event domain\<close>

locale event_provider = quota_restorer "ep_RestoreQuota ep" for ep :: EventProvider +
  assumes info_readonly: "readonly (ep_TicketTypeForCheckout ep t)"
    and info_answer: "ep_TicketTypeForCheckout ep t w = (Inr info, w') \<Longrightarrow>
      \<exists>r. find (\<lambda>r. tt_id r = t) (ticket_types (wdb w)) = Some r \<and> ti_price info = tt_price r \<and>
        ti_name info = tt_name r \<and> ti_sales_start info = tt_sales_start r \<and> ti_sales_end info = tt_sales_end r"
    and deduct: "ep_CheckAndDeductQuota ep t q w = (Inr u, w') \<Longrightarrow> schema_ok (wdb w) \<Longrightarrow>
      quota_moved t (- sint q) (wdb w) (wdb w')"
    and deduct_schema: "ensures (kept schema_ok) (ep_CheckAndDeductQuota ep t q)"
    and restore_rows: "ensures (row_written i) (ep_RestoreQuota ep t q)"
    and provider_quiet: "quiet (ep_TicketTypeForCheckout ep t)" "quiet (ep_CheckAndDeductQuota ep t q)"
begin

lemma reserve_item_Inr:
  assumes run: "reserve_item ep (amount, reserved) item w = (Inr (amount', reserved'), w')"
    and ok: "schema_ok (wdb w)"
  shows "schema_ok (wdb w') \<and> quota_moved (ci_type item) (- sint (ci_quantity item)) (wdb w) (wdb w') \<and>
    amount' = amount + price_in (wdb w) (ci_type item) * of_int (sint (ci_quantity item)) \<and>
    (\<exists>name. reserved' = reserved @ [\<lparr>rl_type = ci_type item, rl_name = name,
       rl_quantity = ci_quantity item, rl_price = price_in (wdb w) (ci_type item)\<rparr>])"
proof -
  from run obtain info t w1 w2 where info: "ep_TicketTypeForCheckout ep (ci_type item) w = (Inr info, w1)"
    and clk: "now w1 = (Inr t, w2)"
    and deducted: "ep_CheckAndDeductQuota ep (ci_type item) (ci_quantity item) w2 = (Inr (), w')"
    and res: "amount' = amount + ti_price info * of_int (sint (ci_quantity item))"
      "reserved' = reserved @ [\<lparr>rl_type = ci_type item, rl_name = ti_name info,
         rl_quantity = ci_quantity item, rl_price = ti_price info\<rparr>]"
    by (auto simp: reserve_item_def bind_Inr handle_Inr split: if_splits)
  have w2: "wdb w2 = wdb w"
    using readonlyD [OF info_readonly info] clk by (simp add: now_def) (metis wdb_step_tick)
  have "ti_price info = price_in (wdb w) (ci_type item)"
    using info_answer [OF info] by (auto simp: price_in_def)
  moreover note deduct [OF deducted] ensures_kept_D [OF deduct_schema deducted]
  ultimately show ?thesis using ok res by (simp add: w2)
qed

lemma reserve_loop_Inr:
  assumes run: "fold_each items (reserve_item ep) (0, []) w = (Inr (amount, reserved), w')"
    and ok: "schema_ok (wdb w)"
  shows "schema_ok (wdb w') \<and> seats_moved (\<lambda>t. - line_seats (item_lines items) t) (wdb w) (wdb w') \<and>
    amount = total_price (wdb w) items \<and>
    map (\<lambda>l. (rl_type l, rl_quantity l, rl_price l)) reserved =
      map (\<lambda>i. (ci_type i, ci_quantity i, price_in (wdb w) (ci_type i))) items"
proof -
  let ?P = "\<lambda>done s v. schema_ok (wdb v) \<and>
    seats_moved (\<lambda>t. - line_seats (item_lines done) t) (wdb w) (wdb v) \<and>
    fst s = total_price (wdb w) done \<and>
    map (\<lambda>l. (rl_type l, rl_quantity l, rl_price l)) (snd s) =
      map (\<lambda>i. (ci_type i, ci_quantity i, price_in (wdb w) (ci_type i))) done"
  have "?P items (amount, reserved) w'"
    using run
  proof (rule fold_each_invariant [where P = ?P])
    show "?P [] (0, []) w"
      using ok by (auto simp: total_price_def item_lines_def intro: seats_moved_none)
  next
    fix xs x s v s' v'
    assume inv: "?P xs s v" and step: "reserve_item ep s x v = (Inr s', v')"
    obtain a r a' r' where s: "s = (a, r)" "s' = (a', r')" by (cases s, cases s') auto
    have item: "schema_ok (wdb v') \<and> quota_moved (ci_type x) (- sint (ci_quantity x)) (wdb v) (wdb v') \<and>
      a' = a + price_in (wdb v) (ci_type x) * of_int (sint (ci_quantity x)) \<and>
      (\<exists>name. r' = r @ [\<lparr>rl_type = ci_type x, rl_name = name, rl_quantity = ci_quantity x,
         rl_price = price_in (wdb v) (ci_type x)\<rparr>])"
      using step inv unfolding s by (intro reserve_item_Inr) simp_all
    have prices: "price_in (wdb v) = price_in (wdb w)"
      using inv by (intro price_in_catalogue) (simp add: seats_moved_def)
    have "seats_moved (\<lambda>t. - line_seats (item_lines (xs @ [x])) t) (wdb w) (wdb v')"
      using seats_taken_step [of "item_lines xs" "wdb w" "wdb v"] inv item by (simp add: item_lines_def)
    with inv item prices show "?P (xs @ [x]) s' v'" by (auto simp: s total_price_def)
  qed
  then show ?thesis by simp
qed

lemma reserve_tx_steps:
  assumes run: "reserve_tx ep req number w = (Inr (created, amount, reserved), w')"
  obtains w1 w2 w3 where
      "fold_each (cr_items req) (reserve_item ep) (0, []) w = (Inr (amount, reserved), w1)"
    and "order_CreateOrder \<lparr>cop_number = number, cop_buyer_name = cr_buyer_name req,
             cop_buyer_email = cr_buyer_email req, cop_buyer_phone = cr_buyer_phone req,
             cop_total = amount\<rparr> w1 = (Inr created, w2)"
    and "for_each reserved (\<lambda>line. order_CreateOrderItem (or_id created) (rl_type line)
             (rl_quantity line) (rl_price line)) w2 = (Inr (), w3)"
    and "for_each (cr_attendees req) (\<lambda>a. bind (order_CreateAttendee (or_id created) (ca_type a)
             (ca_name a) (ca_email a)) (\<lambda>_. ret ())) w3 = (Inr (), w')"
proof -
  from run [unfolded reserve_tx_def] obtain s w1 where
      loop: "fold_each (cr_items req) (reserve_item ep) (0, []) w = (Inr s, w1)"
    and rest: "(case s of (amount, reserved) \<Rightarrow>
     bind (order_CreateOrder \<lparr>cop_number = number, cop_buyer_name = cr_buyer_name req,
             cop_buyer_email = cr_buyer_email req, cop_buyer_phone = cr_buyer_phone req,
             cop_total = amount\<rparr>) (\<lambda>created.
     bind (for_each reserved (\<lambda>line.
             order_CreateOrderItem (or_id created) (rl_type line) (rl_quantity line) (rl_price line))) (\<lambda>_.
     bind (for_each (cr_attendees req) (\<lambda>a.
             bind (order_CreateAttendee (or_id created) (ca_type a) (ca_name a) (ca_email a)) (\<lambda>_. ret ()))) (\<lambda>_.
     ret (created, amount, reserved))))) w1 = (Inr (created, amount, reserved), w')"
    by (rule bind_InrE)
  obtain a r where s: "s = (a, r)" by fastforce
  from rest [unfolded s prod.case] show thesis
    using loop that by (elim bind_InrE) (simp add: s)
qed

lemma reserve_tx_Inr:
  assumes run: "reserve_tx ep req number w = (Inr (created, amount, reserved), w')"
    and ok: "schema_ok (wdb w)"
  shows "schema_ok (wdb w') \<and> amount = total_price (wdb w) (cr_items req) \<and>
    reserved_lines reserved = item_lines (cr_items req) \<and>
    (\<exists>row. created = toOrderRecord row \<and> ord_number row = number \<and> order_placed req row (wdb w) (wdb w'))"
proof -
  let ?d = "wdb w"
  from run obtain w1 w2 w3 where
      deduct: "fold_each (cr_items req) (reserve_item ep) (0, []) w = (Inr (amount, reserved), w1)"
    and create: "order_CreateOrder \<lparr>cop_number = number, cop_buyer_name = cr_buyer_name req,
             cop_buyer_email = cr_buyer_email req, cop_buyer_phone = cr_buyer_phone req,
             cop_total = amount\<rparr> w1 = (Inr created, w2)"
    and lines: "for_each reserved (\<lambda>line. order_CreateOrderItem (or_id created) (rl_type line)
             (rl_quantity line) (rl_price line)) w2 = (Inr (), w3)"
    and people: "for_each (cr_attendees req) (\<lambda>a. bind (order_CreateAttendee (or_id created) (ca_type a)
             (ca_name a) (ca_email a)) (\<lambda>_. ret ())) w3 = (Inr (), w')"
    by (rule reserve_tx_steps)
  note loop = reserve_loop_Inr [OF deduct ok]
  obtain row where created: "created = toOrderRecord row" and db: "wdb w2 = (wdb w1)\<lparr>orders := orders (wdb w1) @ [row]\<rparr>"
    and new: "ord_id row \<notin> ord_id ` set (orders (wdb w1))" and row: "ord_number row = number"
      "ord_buyer_name row = cr_buyer_name req" "ord_buyer_email row = cr_buyer_email req"
      "ord_buyer_phone row = cr_buyer_phone req"
      "ord_status row = OrderStatusPending" "ord_total row = amount" "ord_expires_at row = None" "ord_qr_string row = None"
    using CreateOrder_row [OF create] by auto
  have id: "or_id created = ord_id row" by (simp add: created toOrderRecord_def)
  obtain its where its: "wdb w3 = (wdb w2)\<lparr>order_items := order_items (wdb w2) @ its\<rparr>"
    "map (\<lambda>r. (it_order r, it_type r, it_qty r, it_price r)) its =
      map (\<lambda>l. (ord_id row, rl_type l, sint (rl_quantity l), rl_price l)) reserved"
    using create_items_loop [OF lines] by (auto simp: id)
  obtain ats where ats: "wdb w' = (wdb w3)\<lparr>attendees := attendees (wdb w3) @ ats\<rparr>"
    "map (\<lambda>a. (at_order a, at_type a, at_name a, at_email a)) ats =
      map (\<lambda>a. (ord_id row, ca_type a, ca_name a, ca_email a)) (cr_attendees req)"
    using create_attendees_loop [OF people] by (auto simp: id)
  have priced: "map (\<lambda>l. (ord_id row, rl_type l, sint (rl_quantity l), rl_price l)) reserved =
      map (\<lambda>i. (ord_id row, ci_type i, sint (ci_quantity i), price_in ?d (ci_type i))) (cr_items req)"
    using arg_cong [OF conjunct2 [OF conjunct2 [OF conjunct2 [OF loop]]],
        of "map (\<lambda>(t, q, p). (ord_id row, t, sint q, p))"]
    by (simp add: comp_def)
  have "reserved_lines reserved = item_lines (cr_items req)"
    using arg_cong [OF priced, of "map (\<lambda>(_, t, q, _). (t, q))"] by (simp add: reserved_lines_def item_lines_def comp_def)
  moreover have "order_placed req row ?d (wdb w')"
  proof -
    have moved: "seats_moved (\<lambda>t. - line_seats (item_lines (cr_items req)) t) ?d (wdb w1)" using loop by blast
    then obtain ts where w1: "wdb w1 = ?d\<lparr>ticket_types := ts\<rparr>" unfolding seats_moved_def by blast
    have w': "wdb w' = ?d\<lparr>ticket_types := ts, orders := orders ?d @ [row],
        order_items := order_items ?d @ its, attendees := attendees ?d @ ats\<rparr>"
      by (simp add: ats(1) its(1) db w1)
    have "quota_of (wdb w') = quota_of (wdb w1)" "catalogue (wdb w') = catalogue (wdb w1)"
      by (simp_all add: w' w1 quota_of_def catalogue_def fun_eq_iff)
    then have "\<forall>t. quota_of (wdb w') t = map_option (\<lambda>n. n - line_seats (item_lines (cr_items req)) t) (quota_of ?d t)"
      and "catalogue (wdb w') = catalogue ?d"
      using moved by (simp_all add: seats_moved_def)
    moreover have "ord_id row \<notin> ord_id ` set (orders ?d)" using new by (simp add: w1)
    moreover note w' its(2) [unfolded priced] ats(2)
    ultimately show ?thesis
      unfolding order_placed_def using row loop by (intro conjI) (rule exI conjI | assumption | simp)+
  qed
  moreover have "schema_ok (wdb w')"
    using ok loop ensures_kept_D [OF keeps_order_writes(1) create]
      ensures_kept_D [OF inv.ensures_for_each [OF keeps_order_writes(2)] lines]
      ensures_kept_D [OF inv.ensures_for_each [OF inv.ensures_bind [OF keeps_order_writes(3) inv.ensures_ret]] people]
    by simp
  ultimately show ?thesis using loop created row by blast
qed

lemma reserveOnce_Inr:
  assumes "reserveOnce ep req w = (Inr (created, amount, reserved), w')" and "schema_ok (wdb w)"
  shows "schema_ok (wdb w') \<and> amount = total_price (wdb w) (cr_items req) \<and>
    reserved_lines reserved = item_lines (cr_items req) \<and>
    (\<exists>row. created = toOrderRecord row \<and> order_placed req row (wdb w) (wdb w'))"
proof -
  from assms(1) obtain t w1 number w2 where clk: "now w = (Inr t, w1)"
    and number: "GenerateOrderNumber t w1 = (Inr number, w2)"
    and tx: "InTx (reserve_tx ep req number) w2 = (Inr (created, amount, reserved), w')"
    unfolding reserveOnce_def by (elim bind_InrE)
  have w2: "wdb w2 = wdb w"
    using readonlyD [OF readonly_GenerateOrderNumber number] readonlyD [OF ro.ensures_now clk] by simp
  from tx obtain w3 w4 where "wdb w3 = wdb w2" "wdb w' = wdb w4"
    "reserve_tx ep req number w3 = (Inr (created, amount, reserved), w4)" by (rule InTx_Inr)
  with reserve_tx_Inr [OF this(3)] assms(2) w2 show ?thesis by auto
qed

lemma reserveOnce_Inl: "reserveOnce ep req w = (Inl e, w') \<Longrightarrow> wdb w' = wdb w"
  by (auto simp: reserveOnce_def bind_Inl dest!: InTx_Inl readonlyD [OF ro.ensures_now]
      readonlyD [OF readonly_GenerateOrderNumber])

lemma reserve_retries:
  assumes "reserve_loop ep req n lastErr w = (r, w')" and "schema_ok (wdb w)"
  shows "case r of
      Inl e \<Rightarrow> wdb w' = wdb w
    | Inr (created, amount, reserved) \<Rightarrow>
        schema_ok (wdb w') \<and> amount = total_price (wdb w) (cr_items req) \<and>
        reserved_lines reserved = item_lines (cr_items req) \<and>
        (\<exists>row. created = toOrderRecord row \<and> order_placed req row (wdb w) (wdb w'))"
  using assms
proof (induction n arbitrary: lastErr w)
  case 0
  then show ?case by auto
next
  case (Suc n)
  obtain q w1 where once: "reserveOnce ep req w = (q, w1)" by fastforce
  show ?case
  proof (cases q)
    case (Inr x)
    then have "r = Inr x" "w' = w1" using Suc.prems(1) once by (auto simp: handle_def)
    with once Inr reserveOnce_Inr [OF _ Suc.prems(2)] show ?thesis by (cases x) auto
  next
    case (Inl e)
    then have same: "wdb w1 = wdb w" using once by (simp add: reserveOnce_Inl)
    let ?w = "w1\<lparr>logs := logs w1 @ [(LevelWarn, ''order number collision; retrying'')]\<rparr>"
    have "if \<not> errors_Is e ErrOrderNumberTaken then r = Inl e \<and> w' = w1
        else reserve_loop ep req n (Some e) ?w = (r, w')"
      using Suc.prems(1) once Inl by (auto simp: handle_def bind_run split: if_splits)
    with same Suc.IH [of "Some e" ?w] Suc.prems(2) show ?thesis
      by (cases r) (auto split: if_splits)
  qed
qed

lemma reserve_Inr:
  assumes "reserve ep req w = (Inr (created, amount, reserved), w')" and "schema_ok (wdb w)"
  shows "schema_ok (wdb w')" and "amount = total_price (wdb w) (cr_items req)"
    and "reserved_lines reserved = item_lines (cr_items req)"
    and "\<exists>row. created = toOrderRecord row \<and> order_placed req row (wdb w) (wdb w')"
  using reserve_retries [OF assms(1) [unfolded reserve_def] assms(2)] by simp_all

lemma reserve_Inl: "reserve ep req w = (Inl e, w') \<Longrightarrow> schema_ok (wdb w) \<Longrightarrow> wdb w' = wdb w"
  using reserve_retries [of req orderNumberAttempts None w "Inl e" w'] by (simp add: reserve_def)

subsection \<open>Compensation\<close>

text \<open>
  The compensation never fails as a function. Either it did nothing, because the order was no
  longer pending or because its transaction failed, or it cancelled the order and gave exactly
  its seats back.
\<close>

lemma compensate_run:
  assumes run: "compensate ep created reserved w = (r, w')" and ok: "schema_ok (wdb w)"
    and own: "reserved_lines reserved = lines_of (wdb w) (or_id created)"
  shows "r = Inr ()" and "schema_ok (wdb w')"
    and "wdb w' = wdb w \<or> order_released (or_id created) OrderStatusCancelled (wdb w) (wdb w')"
proof -
  let ?i = "or_id created"
  have "r = Inr () \<and> schema_ok (wdb w') \<and>
    (wdb w' = wdb w \<or> order_released ?i OrderStatusCancelled (wdb w) (wdb w'))"
  proof (cases "fst (InTx (compensate_tx ep created reserved) w)")
    case (Inl e)
    then obtain w1 where tx: "InTx (compensate_tx ep created reserved) w = (Inl e, w1)"
      by (metis prod.collapse)
    with InTx_Inl [OF tx] run ok show ?thesis by (auto simp: compensate_def handle_def)
  next
    case (Inr u)
    then have tx: "InTx (compensate_tx ep created reserved) w = (Inr u, w')" and r: "r = Inr ()"
      using run by (auto simp: compensate_def handle_def split: prod.splits sum.splits)
    then obtain w1 w2 where start: "wdb w1 = wdb w" and fin: "wdb w' = wdb w2"
      and body: "compensate_tx ep created reserved w1 = (Inr u, w2)" by (auto elim: InTx_Inr)
    from body obtain b w3 where upd: "order_UpdateOrderStatusIfPending ?i OrderStatusCancelled w1 = (Inr b, w3)"
      and rest: "(if \<not> b then ret () else for_each reserved (\<lambda>line. ep_RestoreQuota ep (rl_type line) (rl_quantity line))) w3
        = (Inr u, w2)" unfolding compensate_tx_def by (rule bind_InrE)
    have ok1: "schema_ok (wdb w1)" using ok start by simp
    note moved = UpdateStatus_Inr [OF upd ok1]
    show ?thesis
    proof (cases b)
      case False
      with moved rest start fin ok r show ?thesis by simp
    next
      case True
      with rest have "for_each reserved (\<lambda>line. ep_RestoreQuota ep (rl_type line) (rl_quantity line)) w3 = (Inr u, w2)"
        by simp
      from restore_loop [OF this] moved have "schema_ok (wdb w2) \<and>
          seats_moved (line_seats (reserved_lines reserved)) (wdb w3) (wdb w2)"
        by (simp add: reserved_lines_def)
      moreover from moved True have "status_moved ?i OrderStatusCancelled (wdb w1) (wdb w3)" by simp
      ultimately show ?thesis
        using status_then_seats own start fin r by metis
    qed
  qed
  then show "r = Inr ()" and "schema_ok (wdb w')"
    and "wdb w' = wdb w \<or> order_released ?i OrderStatusCancelled (wdb w) (wdb w')" by blast+
qed

end

section \<open>Checkout as a whole\<close>

lemma UpdatePaymentDetails_run:
  assumes "order_UpdatePaymentDetails i pd w = (r, w')" and "schema_ok (wdb w)"
  shows "schema_ok (wdb w') \<and> statuses_kept (wdb w) (wdb w')"
proof -
  have "statuses_kept d (d\<lparr>orders := upd_where (\<lambda>r. ord_id r = i)
           (\<lambda>r. r\<lparr>ord_payment_url := a, ord_provider := b, ord_qr_string := c,
                  ord_expires_at := e, ord_updated_at := Some t\<rparr>) (orders d)\<rparr>)" for d a b c e t
    by (rule statuses_kept_update) simp_all
  moreover have "schema_ok (wdb w')"
    using assms ensures_kept_D [OF keeps_order_writes(4)] by blast
  ultimately show ?thesis
    using assms(1)
    by (auto simp: order_UpdatePaymentDetails_def Let_def bind_run wrapping_def handle_def stmt_def
        sql_UpdatePaymentDetails_def split: prod.splits sum.splits if_splits)
qed

text \<open>Checkout needs the event domain's contract, and of the gateway that it stays off the database.\<close>

locale checkout = event_provider ep for ep :: EventProvider +
  fixes gw :: PaymentGateway
  assumes gateway_readonly: "readonly (gw_CreateTransaction gw r)"
begin

lemma payment_run:
  assumes run: "checkout_payment ep gw req created amount reserved w = (r, w')" and ok: "schema_ok (wdb w)"
    and own: "reserved_lines reserved = lines_of (wdb w) (or_id created)"
  shows "schema_ok (wdb w') \<and>
    (case r of
       Inr resp \<Rightarrow> statuses_kept (wdb w) (wdb w') \<and> resp_number resp = or_number created \<and>
         resp_order_status resp = or_status created \<and> resp_total resp = amount
     | Inl e \<Rightarrow> (\<exists>err msg. e = Wrap err 502 CodePaymentInitiationFailed msg) \<and>
         (wdb w' = wdb w \<or> order_released (or_id created) OrderStatusCancelled (wdb w) (wdb w')))"
proof -
  obtain q w2 where pay: "gw_CreateTransaction gw (paymentRequestFor created amount reserved req) w = (q, w2)"
    by fastforce
  have w2: "wdb w2 = wdb w" using readonlyD [OF gateway_readonly pay] .
  show ?thesis
  proof (cases q)
    case (Inl err)
    let ?w = "w2\<lparr>logs := logs w2 @ [(LevelError, ''payment initiation failed; compensating'')]\<rparr>"
    obtain u w3 where comp: "compensate ep created reserved ?w = (u, w3)" by fastforce
    have "u = Inr () \<and> schema_ok (wdb w3) \<and>
        (wdb w3 = wdb w \<or> order_released (or_id created) OrderStatusCancelled (wdb w) (wdb w3))"
      using compensate_run [OF comp] ok own w2 by simp
    with run pay Inl comp show ?thesis
      by (auto simp: checkout_payment_def bind_run handle_def Wrap_def)
  next
    case (Inr session)
    let ?pd = "\<lparr>pd_url = ps_qr_image session, pd_provider = gw_Name gw,
              pd_qr_string = ps_qr_string session, pd_expires_at = ps_expires_at session\<rparr>"
    obtain u w3 where tx2: "InTx (order_UpdatePaymentDetails (or_id created) ?pd) w2 = (u, w3)" by fastforce
    have "schema_ok (wdb w3) \<and> (case u of Inl _ \<Rightarrow> wdb w3 = wdb w | Inr _ \<Rightarrow> statuses_kept (wdb w) (wdb w3))"
    proof (cases u)
      case (Inr v)
      with tx2 obtain w4 w5 where "wdb w4 = wdb w2" "wdb w3 = wdb w5"
        "order_UpdatePaymentDetails (or_id created) ?pd w4 = (Inr v, w5)" by (auto elim: InTx_Inr)
      with UpdatePaymentDetails_run [OF this(3)] ok w2 Inr show ?thesis by simp
    qed (use tx2 w2 ok in \<open>simp add: InTx_Inl\<close>)
    with run pay Inr tx2 show ?thesis
      by (cases u) (auto simp: checkout_payment_def bind_run handle_def Wrap_def)
  qed
qed

lemma payment_rows: "ensures (row_written (or_id created)) (checkout_payment ep gw req created amount reserved)"
proof -
  have gw: "ensures (row_written i) (gw_CreateTransaction gw r)" for i r
    using gateway_readonly by (simp add: ensures_def rows.G_refl)
  show ?thesis
    unfolding checkout_payment_def compensate_def compensate_tx_def
    by (intro row_intros restore_rows gw)
qed

text \<open>
  The four ways a checkout ends. It was refused and nothing was written; the gateway failed and the
  order was cancelled again; the gateway failed and the compensation did too, so the pending order
  stays; or the gateway answered and the order is pending, with its payment details when TX2
  succeeded.
\<close>

lemma checkout_run:
  assumes run: "Checkout P iter ep gw req w = (r, w')" and ok: "schema_ok (wdb w)"
  shows "schema_ok (wdb w') \<and>
    (case r of
       Inr resp \<Rightarrow>
         CheckoutRequest_Validate P iter req = None \<and>
         (\<exists>row d1. order_placed req row (wdb w) d1 \<and> schema_ok d1 \<and> statuses_kept d1 (wdb w') \<and>
            row_written (ord_id row) d1 (wdb w') \<and> resp_number resp = ord_number row \<and> resp_order_status resp = OrderStatusPending \<and>
            resp_total resp = total_price (wdb w) (cr_items req))
     | Inl e \<Rightarrow>
         wdb w' = wdb w \<or>
         (\<exists>row d1 err msg. order_placed req row (wdb w) d1 \<and> schema_ok d1 \<and>
            e = Wrap err 502 CodePaymentInitiationFailed msg \<and> row_written (ord_id row) d1 (wdb w') \<and>
            (wdb w' = d1 \<or> order_released (ord_id row) OrderStatusCancelled d1 (wdb w'))))"
proof (cases "CheckoutRequest_Validate P iter req")
  case (Some e)
  with run ok show ?thesis by (auto simp: Checkout_def bind_run)
next
  case valid: None
  obtain q w1 where res: "reserve ep req w = (q, w1)" by fastforce
  show ?thesis
  proof (cases q)
    case (Inl e)
    with res run valid reserve_Inl [of req w e w1] ok show ?thesis by (auto simp: Checkout_def bind_run)
  next
    case (Inr x)
    obtain created amount reserved where x: "x = (created, amount, reserved)" by (metis surj_pair)
    note tx1 = reserve_Inr [OF res [unfolded Inr x] ok]
    then obtain row where row: "created = toOrderRecord row" "order_placed req row (wdb w) (wdb w1)" by blast
    have fields: "or_id created = ord_id row" "or_number created = ord_number row" "or_status created = OrderStatusPending"
      using row by (simp_all add: toOrderRecord_def order_placed_def)
    have rest: "checkout_payment ep gw req created amount reserved w1 = (r, w')"
      using run valid res by (simp add: Checkout_def bind_run Inr x)
    have "reserved_lines reserved = lines_of (wdb w1) (or_id created)"
      using order_placed_lines(1) [OF ok row(2)] tx1(3) by (simp add: fields)
    from payment_run [OF rest tx1(1) this] row(2) ensuresD [OF payment_rows rest] show ?thesis
      using valid tx1(1,2) by (cases r) (auto simp: fields)
  qed
qed

text \<open>However it ends, no seat is lost or invented and no order but its own has moved.\<close>

lemma checkout_evolves: "ensures evolves (Checkout P iter ep gw req)"
proof (rule ensuresI)
  fix w r w'
  assume run: "Checkout P iter ep gw req w = (r, w')"
  show "evolves (wdb w) (wdb w')"
  proof (cases "schema_ok (wdb w)")
    case ok: True
    note out = checkout_run [OF run ok]
    then consider "wdb w' = wdb w"
      | row d1 where "order_placed req row (wdb w) d1" "schema_ok d1" "statuses_kept d1 (wdb w')"
      | row d1 where "order_placed req row (wdb w) d1" "schema_ok d1"
          "order_released (ord_id row) OrderStatusCancelled d1 (wdb w')"
      using statuses_kept_refl by (cases r) auto
    then show ?thesis
      using out ok
      by cases (auto intro: evo.G_refl evo.G_trans order_placed_evolves statuses_kept_evolves order_released_evolves)
  qed (simp add: evolves_def orders_evolve_def)
qed

end

end
