(* ===== verification/Order_Views.thy ===== *)
theory Order_Views
  imports Checkout
begin

text \<open>
  The read side of \<open>internal/order\<close>: the guest's own order page (\<open>public_service.go\<close>), the admin
  lists (\<open>admin_service.go\<close>) and the handlers over both (\<open>handler.go\<close>, \<open>admin_handler.go\<close>). What the
  views need of the event domain is the record \<open>EventLookup\<close>; the locale \<open>event_lookup\<close> states its
  contract. A \<open>money.Money\<close> is the decimal it wraps, and a time keeps no zone, so \<open>UTC()\<close> is the
  identity. The QR encoder is an argument of its handler.
\<close>

section \<open>Types\<close>

record TicketTypeDisplay =
  dy_type_name :: string
  dy_event_name :: string
  dy_event_slug :: string

record EventLookup =
  el_TicketTypeNames :: "uuid list \<Rightarrow> (uuid \<rightharpoonup> string) go"
  el_TicketTypeIDsForEvent :: "uuid \<Rightarrow> uuid list go"
  el_TicketTypeDisplays :: "uuid list \<Rightarrow> (uuid \<rightharpoonup> TicketTypeDisplay) go"

record PublicOrderEvent =
  pe_name :: string
  pe_slug :: string

record PublicOrderItem =
  pit_type_name :: string
  pit_quantity :: int32
  pit_unit_price :: decimal
  pit_subtotal :: decimal

record PaymentInstruction =
  py_method :: string
  py_provider :: string
  py_amount :: decimal
  py_expires_at :: gotime
  py_image_path :: string

record PublicOrderDetail =
  po_number :: string
  po_status :: string
  po_total :: decimal
  po_buyer_name :: string
  po_buyer_email :: string
  po_created_at :: "gotime option"
  po_event :: PublicOrderEvent
  po_items :: "PublicOrderItem list"
  po_server_time :: gotime
  po_payment :: "PaymentInstruction option"

record OrderSummary =
  sm_id :: uuid
  sm_number :: string
  sm_buyer_name :: string
  sm_buyer_email :: string
  sm_status :: string
  sm_total :: decimal
  sm_created_at :: "gotime option"

record AttendeeSummary =
  as_name :: string
  as_email :: string
  as_type_name :: string
  as_number :: string

record OrderFilter =
  of_status :: "string option"
  of_event :: "uuid option"

record AttendeeFilter =
  tf_order :: "uuid option"
  tf_event :: "uuid option"

section \<open>The guest's page\<close>

abbreviation paymentMethod :: string where "paymentMethod \<equiv> ''QRIS''"
abbreviation statusPending :: string where "statusPending \<equiv> ''PENDING''"
abbreviation orderNotFoundMessage :: message where
  "orderNotFoundMessage \<equiv> text_msg ''Order not found.''"

definition QRImagePath :: "string \<Rightarrow> string" where
  "QRImagePath orderNumber = ''/api/v1/orders/'' @ orderNumber @ ''/qris.png''"

definition paymentInstruction :: "OrderRecord \<Rightarrow> gotime \<Rightarrow> PaymentInstruction option" where
  "paymentInstruction rec t =
     (if or_status rec \<noteq> statusPending then None
      else if or_qr_string rec = None \<or> or_qr_string rec = Some [] then None
      else case or_expires_at rec of
        None \<Rightarrow> None
      | Some deadline \<Rightarrow>
          if \<not> deadline > t then None
          else Some \<lparr>py_method = paymentMethod,
                     py_provider = (case or_provider rec of None \<Rightarrow> [] | Some p \<Rightarrow> p),
                     py_amount = or_total rec, py_expires_at = deadline,
                     py_image_path = QRImagePath (or_number rec)\<rparr>)"

text \<open>
  The loops that collect the ticket types of a page, each once: \<open>seen\<close> is the Go map used as a
  set, \<open>ids\<close> the slice.
\<close>

fun collect_ids :: "('r \<Rightarrow> uuid) \<Rightarrow> 'r list \<Rightarrow> uuid list \<Rightarrow> uuid list \<Rightarrow> uuid list" where
  "collect_ids key [] seen ids = ids"
| "collect_ids key (row # rows) seen ids =
     (if List.member seen (key row) then collect_ids key rows seen ids
      else collect_ids key rows (key row # seen) (ids @ [key row]))"

definition ticketTypeDisplays :: "EventLookup \<Rightarrow> OrderItemRecord list \<Rightarrow> (uuid \<rightharpoonup> TicketTypeDisplay) go" where
  "ticketTypeDisplays lk items =
     (if items = [] then ret Map.empty
      else el_TicketTypeDisplays lk (collect_ids oi_type items [] []))"

fun eventOf :: "OrderItemRecord list \<Rightarrow> (uuid \<rightharpoonup> TicketTypeDisplay) \<Rightarrow> PublicOrderEvent" where
  "eventOf [] displays = \<lparr>pe_name = [], pe_slug = []\<rparr>"
| "eventOf (item # items) displays =
     (case displays (oi_type item) of
        Some display \<Rightarrow> \<lparr>pe_name = dy_event_name display, pe_slug = dy_event_slug display\<rparr>
      | None \<Rightarrow> eventOf items displays)"

text \<open>Reading a missing key of a Go map gives the zero value of its type.\<close>

definition publicItems :: "OrderItemRecord list \<Rightarrow> (uuid \<rightharpoonup> TicketTypeDisplay) \<Rightarrow> PublicOrderItem list" where
  "publicItems items displays =
     map (\<lambda>item.
       \<lparr>pit_type_name = (case displays (oi_type item) of None \<Rightarrow> [] | Some display \<Rightarrow> dy_type_name display),
        pit_quantity = oi_quantity item, pit_unit_price = oi_price item,
        pit_subtotal = oi_price item * of_int (sint (oi_quantity item))\<rparr>) items"

definition OrderByNumber :: "EventLookup \<Rightarrow> string \<Rightarrow> PublicOrderDetail go" where
  "OrderByNumber lk orderNumber =
     handle (order_GetOrderByNumber orderNumber)
       (\<lambda>err. if errors_Is err order_ErrNotFound then fail (NotFound CodeOrderNotFound orderNotFoundMessage)
              else fail err)
       (\<lambda>rec.
     bind (order_ListOrderItemsByOrderID (or_id rec)) (\<lambda>items.
     bind (ticketTypeDisplays lk items) (\<lambda>displays.
     bind now (\<lambda>t.
     ret \<lparr>po_number = or_number rec, po_status = or_status rec, po_total = or_total rec,
          po_buyer_name = or_buyer_name rec, po_buyer_email = or_buyer_email rec,
          po_created_at = or_created_at rec, po_event = eventOf items displays,
          po_items = publicItems items displays, po_server_time = t,
          po_payment = paymentInstruction rec t\<rparr>))))"

text \<open>
  The payload's pointer is read only when there is an instruction; reading it otherwise would
  panic, which echo's \<open>Recover\<close> turns into an error.
\<close>

definition nil_dereference :: goerror where
  "nil_dereference = Sentinel ''runtime error: invalid memory address or nil pointer dereference''"

definition PaymentQRPayload :: "string \<Rightarrow> string go" where
  "PaymentQRPayload orderNumber =
     handle (order_GetOrderByNumber orderNumber)
       (\<lambda>err. if errors_Is err order_ErrNotFound then fail (NotFound CodeOrderNotFound orderNotFoundMessage)
              else fail err)
       (\<lambda>rec. bind now (\<lambda>t.
          if paymentInstruction rec t = None then fail (NotFound CodeOrderNotFound orderNotFoundMessage)
          else case or_qr_string rec of None \<Rightarrow> fail nil_dereference | Some payload \<Rightarrow> ret payload))"

section \<open>The admin lists\<close>

definition ticketTypeScope :: "EventLookup \<Rightarrow> uuid option \<Rightarrow> (uuid list option) go" where
  "ticketTypeScope lk eventID =
     (case eventID of
        None \<Rightarrow> ret None
      | Some i \<Rightarrow> bind (el_TicketTypeIDsForEvent lk i) (\<lambda>ids. ret (Some ids)))"

definition ListOrders :: "EventLookup \<Rightarrow> OrderFilter \<Rightarrow> OrderSummary list go" where
  "ListOrders lk flt =
     bind (ticketTypeScope lk (of_event flt)) (\<lambda>scope.
     if scope = Some [] then ret []
     else bind (wrapping ''list orders: %w'' (query_rows (sql_ListOrdersAdmin (of_status flt) scope))) (\<lambda>rows.
       ret (map (\<lambda>row. \<lparr>sm_id = ord_id row, sm_number = ord_number row,
              sm_buyer_name = ord_buyer_name row, sm_buyer_email = ord_buyer_email row,
              sm_status = ord_status row, sm_total = ord_total row,
              sm_created_at = ord_created_at row\<rparr>) rows)))"

definition ticketTypeNames :: "EventLookup \<Rightarrow> (attendee_row \<times> string) list \<Rightarrow> (uuid \<rightharpoonup> string) go" where
  "ticketTypeNames lk rows =
     (if rows = [] then ret Map.empty
      else el_TicketTypeNames lk (collect_ids (\<lambda>(a, _). at_type a) rows [] []))"

definition ListAttendees :: "EventLookup \<Rightarrow> AttendeeFilter \<Rightarrow> AttendeeSummary list go" where
  "ListAttendees lk flt =
     bind (ticketTypeScope lk (tf_event flt)) (\<lambda>scope.
     if scope = Some [] then ret []
     else bind (wrapping ''list attendees: %w'' (query_rows (sql_ListAttendeesAdmin (tf_order flt) scope))) (\<lambda>rows.
       bind (ticketTypeNames lk rows) (\<lambda>names.
       ret (map (\<lambda>(a, number). \<lparr>as_name = at_name a, as_email = at_email a,
              as_type_name = (case names (at_type a) of None \<Rightarrow> [] | Some n \<Rightarrow> n),
              as_number = number\<rparr>) rows))))"

section \<open>Handlers\<close>

text \<open>A body that echo's \<open>Bind\<close> could not parse is the left of the sum.\<close>

definition checkout_handler ::
  "(string \<Rightarrow> bool) \<Rightarrow> (int32_map \<Rightarrow> int32_map) \<Rightarrow> EventProvider \<Rightarrow> PaymentGateway \<Rightarrow>
   goerror + CheckoutRequest \<Rightarrow> OrderResponse go" where
  "checkout_handler P iter ep gw body =
     (case body of
        Inl err \<Rightarrow> fail (Wrap err 400 CodeValidation (text_msg ''The request body could not be parsed.''))
      | Inr req \<Rightarrow>
          bind (Checkout P iter ep gw req) (\<lambda>resp.
          bind (log LevelInfo ''checkout accepted'') (\<lambda>_. ret resp)))"

text \<open>The \<open>Cache-Control\<close> header and the body.\<close>

definition orderDetail :: "EventLookup \<Rightarrow> string \<Rightarrow> (string \<times> PublicOrderDetail) go" where
  "orderDetail lk orderNumber =
     bind (OrderByNumber lk orderNumber) (\<lambda>detail. ret (''no-store'', detail))"

definition qrImage :: "(string \<Rightarrow> goerror + string) \<Rightarrow> string \<Rightarrow> (string \<times> string) go" where
  "qrImage encode orderNumber =
     bind (PaymentQRPayload orderNumber) (\<lambda>payload.
     bind (lift (encode payload)) (\<lambda>png. ret (''private, max-age=60'', png)))"

definition isKnownOrderStatus :: "string \<Rightarrow> bool" where
  "isKnownOrderStatus status \<longleftrightarrow>
     status = ''PENDING'' \<or> status = ''PAID'' \<or> status = ''CANCELLED'' \<or> status = ''EXPIRED''"

definition optionalUUIDParam :: "(string \<Rightarrow> goerror + uuid) \<Rightarrow> string \<Rightarrow> string \<Rightarrow> goerror + uuid option" where
  "optionalUUIDParam parse name val =
     (let raw = TrimSpace val in
      if raw = [] then Inr None
      else case parse raw of
        Inl err \<Rightarrow> Inl (Wrap err 400 CodeValidation (text_msg (name @ '' must be a UUID.'')))
      | Inr i \<Rightarrow> Inr (Some i))"

definition listOrders ::
  "(string \<Rightarrow> goerror + uuid) \<Rightarrow> EventLookup \<Rightarrow> string \<Rightarrow> string \<Rightarrow> OrderSummary list go" where
  "listOrders parse lk status_param event_param =
     (let status = TrimSpace status_param in
      if status \<noteq> [] \<and> \<not> isKnownOrderStatus status then
        fail (BadRequest CodeValidation (text_msg ''status must be one of PENDING, PAID, CANCELLED, or EXPIRED.''))
      else bind (lift (optionalUUIDParam parse ''event_id'' event_param)) (\<lambda>eventID.
        ListOrders lk \<lparr>of_status = (if status = [] then None else Some status), of_event = eventID\<rparr>))"

definition listAttendees ::
  "(string \<Rightarrow> goerror + uuid) \<Rightarrow> EventLookup \<Rightarrow> string \<Rightarrow> string \<Rightarrow> AttendeeSummary list go" where
  "listAttendees parse lk order_param event_param =
     bind (lift (optionalUUIDParam parse ''order_id'' order_param)) (\<lambda>orderID.
     bind (lift (optionalUUIDParam parse ''event_id'' event_param)) (\<lambda>eventID.
     ListAttendees lk \<lparr>tf_order = orderID, tf_event = eventID\<rparr>))"

section \<open>Collecting the ids of a page\<close>

lemma collect_ids_set:
  "set seen = set ids \<Longrightarrow> set (collect_ids key rows seen ids) = set ids \<union> key ` set rows"
  by (induction rows arbitrary: seen ids) auto

lemma collect_ids_distinct:
  "set seen = set ids \<Longrightarrow> distinct ids \<Longrightarrow> distinct (collect_ids key rows seen ids)"
  by (induction rows arbitrary: seen ids) auto

lemma collect_ids_Nil [simp]: "collect_ids key rows [] [] = [] \<longleftrightarrow> rows = []"
  using collect_ids_set [of "[]" "[]" key rows] by (cases rows) auto

section \<open>What the views rely on\<close>

locale event_lookup =
  fixes lk :: EventLookup
  assumes lookup_readonly: "readonly (el_TicketTypeNames lk ids)"
      "readonly (el_TicketTypeIDsForEvent lk i)" "readonly (el_TicketTypeDisplays lk ids)"
    and ids_answer: "el_TicketTypeIDsForEvent lk i w = (Inr ids, w') \<Longrightarrow>
      set ids = {tt_id t | t. t \<in> set (ticket_types (wdb w)) \<and> tt_event t = i}"
    and names_answer: "el_TicketTypeNames lk ids w = (Inr m, w') \<Longrightarrow> schema_ok (wdb w) \<Longrightarrow>
      t \<in> set (ticket_types (wdb w)) \<Longrightarrow> tt_id t \<in> set ids \<Longrightarrow> m (tt_id t) = Some (tt_name t)"
    and displays_answer: "el_TicketTypeDisplays lk ids w = (Inr dm, w') \<Longrightarrow> schema_ok (wdb w) \<Longrightarrow>
      t \<in> set (ticket_types (wdb w)) \<Longrightarrow> tt_id t \<in> set ids \<Longrightarrow> e \<in> set (events (wdb w)) \<Longrightarrow>
      ev_id e = tt_event t \<Longrightarrow>
      dm (tt_id t) = Some \<lparr>dy_type_name = tt_name t, dy_event_name = ev_name e, dy_event_slug = ev_slug e\<rparr>"
begin

lemmas [readonly_intros] = lookup_readonly

lemma readonly_OrderByNumber: "readonly (OrderByNumber lk n)"
  unfolding OrderByNumber_def ticketTypeDisplays_def by (intro readonly_intros)

lemma readonly_ListOrders: "readonly (ListOrders lk flt)"
  unfolding ListOrders_def ticketTypeScope_def by (intro readonly_intros)

lemma readonly_ListAttendees: "readonly (ListAttendees lk flt)"
  unfolding ListAttendees_def ticketTypeScope_def ticketTypeNames_def by (intro readonly_intros)

end

lemma readonly_PaymentQRPayload [readonly_intros]: "readonly (PaymentQRPayload n)"
  unfolding PaymentQRPayload_def by (intro readonly_intros)

end
