(* ===== verification/Notification.thy ===== *)
theory Notification
  imports Evolution Codes Sample
begin

text \<open>
  \<open>internal/notification\<close>: the ticket PDF, the email and its delivery. The PDF is the list of calls
  made on the gofpdf document; what that library, the QR encoder, the mail dialer and the
  formatting of a date in the server's zone do is \<open>delivery_env\<close>. The service's collaborators are
  the records \<open>DeliveryOrders\<close> and \<open>DeliveryTickets\<close>; the locale \<open>delivery\<close> is their contract.
\<close>

section \<open>Types\<close>

record OrderDelivery =
  dl_id :: uuid
  dl_number :: string
  dl_buyer_name :: string
  dl_buyer_email :: string
  dl_status :: string

record TicketDetail =
  nt_code :: string
  nt_attendee :: string
  nt_type :: string
  nt_event :: string
  nt_venue :: string
  nt_start :: gotime

record Attachment =
  af_filename :: string
  af_content_type :: string
  af_content :: string

record Message =
  ms_to :: string
  ms_subject :: string
  ms_html :: string
  ms_attachments :: "Attachment list"

record SMTPConfig =
  sc_host :: string
  sc_port :: int
  sc_username :: string
  sc_password :: string
  sc_from :: string
  sc_from_name :: string

text \<open>The calls the renderer makes; \<open>At\<close> marks the ones placed at the document's current height.\<close>

datatype pdf_call =
    SetTitle string
  | SetAuthor string
  | AddPage
  | SetFont string string int
  | CellFormat int string
  | Ln int
  | SetDrawColor int
  | LineAt int int
  | RegisterImage string string
  | ImageAt string int int int
  | AdvanceY int
  | SetTextColor int
  | MultiCell int string

text \<open>A composed mail, as handed to the dialer.\<close>

record mail =
  ml_from :: "string \<times> string"
  ml_to :: string
  ml_subject :: string
  ml_html :: string
  ml_parts :: "(string \<times> string \<times> string) list"

record delivery_env =
  de_qr :: "string \<Rightarrow> goerror + string"
  de_pdf_error :: "pdf_call list \<Rightarrow> goerror option"
  de_pdf_output :: "pdf_call list \<Rightarrow> goerror + string"
  de_date :: "gotime \<Rightarrow> string"
  de_dial :: "nat \<Rightarrow> SMTPConfig \<Rightarrow> mail \<Rightarrow> goerror option"

section \<open>Rendering\<close>

definition RenderQR :: "delivery_env \<Rightarrow> string \<Rightarrow> goerror + string" where
  "RenderQR env code =
     (if code = '''' then Inl (Sentinel ''notification: cannot render a QR for an empty ticket code'')
      else case de_qr env code of
        Inl err \<Rightarrow> Inl (Errorf (text_msg ''render QR for ticket code: %w'') [err])
      | Inr png \<Rightarrow> Inr png)"

definition imageName :: "nat \<Rightarrow> string \<Rightarrow> string" where
  "imageName index code = ''qr-'' @ decimal_digits index @ ''-'' @ code"

definition renderTicketPage ::
  "delivery_env \<Rightarrow> pdf_call list \<Rightarrow> OrderDelivery \<Rightarrow> TicketDetail \<Rightarrow> nat \<Rightarrow> goerror + pdf_call list" where
  "renderTicketPage env pdf order ticket index =
     (let before = pdf @
        [AddPage, SetFont ''Helvetica'' ''B'' 20, CellFormat 12 (nt_event ticket),
         SetFont ''Helvetica'' '''' 11, CellFormat 7 (nt_venue ticket), CellFormat 7 (de_date env (nt_start ticket)), Ln 4,
         SetDrawColor 200, LineAt 10 200, Ln 6,
         SetFont ''Helvetica'' ''B'' 14, CellFormat 8 (nt_attendee ticket),
         SetFont ''Helvetica'' '''' 11, CellFormat 7 (''Ticket type: '' @ nt_type ticket),
         CellFormat 7 (''Order: '' @ dl_number order), Ln 6]
      in case RenderQR env (nt_code ticket) of
        Inl err \<Rightarrow> Inl err
      | Inr png \<Rightarrow>
          let name = imageName index (nt_code ticket);
              done = before @
                [RegisterImage name png, ImageAt name 10 60 60, AdvanceY 64,
                 SetFont ''Courier'' ''B'' 18, CellFormat 10 (nt_code ticket),
                 SetFont ''Helvetica'' '''' 9, SetTextColor 110,
                 MultiCell 5 (''Show this QR code or read out the ticket code at the entrance. '' @
                   ''Each ticket admits one person and can only be used once.''),
                 SetTextColor 0]
          in (case de_pdf_error env done of Some err \<Rightarrow> Inl err | None \<Rightarrow> Inr done))"

fun render_pages ::
  "delivery_env \<Rightarrow> OrderDelivery \<Rightarrow> TicketDetail list \<Rightarrow> nat \<Rightarrow> pdf_call list \<Rightarrow> goerror + pdf_call list" where
  "render_pages env order [] i pdf = Inr pdf"
| "render_pages env order (ticket # ts) i pdf =
     (case renderTicketPage env pdf order ticket i of
        Inl err \<Rightarrow> Inl err
      | Inr pdf' \<Rightarrow> render_pages env order ts (Suc i) pdf')"

definition RenderTicketsPDF :: "delivery_env \<Rightarrow> OrderDelivery \<Rightarrow> TicketDetail list \<Rightarrow> goerror + string" where
  "RenderTicketsPDF env order ts =
     (if ts = [] then Inl (Sentinel ''notification: cannot render a ticket PDF with no tickets'')
      else case render_pages env order ts 0 [SetTitle (''E-Ticket '' @ dl_number order), SetAuthor ''Event Ticketing''] of
        Inl err \<Rightarrow> Inl err
      | Inr pdf \<Rightarrow>
          (case de_pdf_output env pdf of
             Inl err \<Rightarrow> Inl (Errorf (text_msg ''write ticket PDF: %w'') [err])
           | Inr bytes \<Rightarrow> Inr bytes))"

section \<open>The email\<close>

text \<open>\<open>html.EscapeString\<close>\<close>

definition escape_char :: "char \<Rightarrow> string" where
  "escape_char c =
     (if c = CHR ''<'' then ''&lt;'' else if c = CHR ''>'' then ''&gt;'' else if c = CHR ''&'' then ''&amp;''
      else if c = CHR 0x27 then ''&#39;'' else if c = CHR 0x22 then ''&#34;'' else [c])"

definition EscapeString :: "string \<Rightarrow> string" where
  "EscapeString s = concat (map escape_char s)"

definition dash :: string where
  "dash = [CHR '' '', CHR 0xE2, CHR 0x80, CHR 0x94, CHR '' '']"

definition ticket_item :: "TicketDetail \<Rightarrow> string" where
  "ticket_item ticket =
     ''<li>'' @ EscapeString (nt_attendee ticket) @ dash @ EscapeString (nt_type ticket) @
     '' (<code>'' @ EscapeString (nt_code ticket) @ ''</code>)</li>''"

definition buildEmailBody :: "OrderDelivery \<Rightarrow> TicketDetail list \<Rightarrow> string" where
  "buildEmailBody order ts =
     ''<div style=\"font-family:Helvetica,Arial,sans-serif;font-size:15px;color:#111\">'' @
     ''<p>Hi '' @ EscapeString (dl_buyer_name order) @ '',</p>'' @
     ''<p>Your payment for order <strong>'' @ EscapeString (dl_number order) @ ''</strong> is confirmed. '' @
     ''Your '' @ decimal_digits (length ts) @ '' ticket(s) for <strong>'' @ EscapeString (nt_event (hd ts)) @
     ''</strong> are attached as a PDF.</p>'' @
     ''<ul>'' @ concat (map ticket_item ts) @ ''</ul>'' @
     ''<p>Show the QR code or read out the ticket code at the entrance. '' @
     ''Each ticket admits one person and can only be used once.</p>'' @
     ''<p>See you there!</p></div>''"

definition Compose :: "SMTPConfig \<Rightarrow> Message \<Rightarrow> mail" where
  "Compose cfg msg =
     \<lparr>ml_from = (sc_from cfg, sc_from_name cfg), ml_to = ms_to msg, ml_subject = ms_subject msg,
      ml_html = ms_html msg,
      ml_parts = map (\<lambda>a. (af_filename a, af_content_type a, af_content a)) (ms_attachments msg)\<rparr>"

definition smtp_Send :: "delivery_env \<Rightarrow> SMTPConfig \<Rightarrow> Message \<Rightarrow> unit go" where
  "smtp_Send env cfg msg = (\<lambda>w.
     case de_dial env (tick w) cfg (Compose cfg msg) of
       None \<Rightarrow> (Inr (), step_tick w)
     | Some err \<Rightarrow> (Inl (Errorf (Msg ''send email to %s: %w'' [ArgS (ms_to msg)]) [err]), step_tick w))"

section \<open>The service\<close>

record DeliveryOrders =
  do_OrderForDelivery :: "uuid \<Rightarrow> OrderDelivery go"
  do_MarkEmailSent :: "uuid \<Rightarrow> unit go"

record NotificationService =
  n_orders :: DeliveryOrders
  n_tickets :: "uuid \<Rightarrow> TicketDetail list go"
  n_Send :: "Message \<Rightarrow> unit go"
  n_env :: delivery_env

definition ticket_message :: "OrderDelivery \<Rightarrow> TicketDetail list \<Rightarrow> string \<Rightarrow> Message" where
  "ticket_message order ts pdf =
     \<lparr>ms_to = dl_buyer_email order,
      ms_subject = ''Your tickets for '' @ nt_event (hd ts),
      ms_html = buildEmailBody order ts,
      ms_attachments = [\<lparr>af_filename = ''tickets-'' @ dl_number order @ ''.pdf'',
        af_content_type = ''application/pdf'', af_content = pdf\<rparr>]\<rparr>"

definition SendTicketEmail :: "NotificationService \<Rightarrow> uuid \<Rightarrow> unit go" where
  "SendTicketEmail s orderID =
     bind (do_OrderForDelivery (n_orders s) orderID) (\<lambda>order.
     if dl_status order \<noteq> OrderStatusPaid then
       fail (BadRequest CodeOrderNotPaid
         (Msg ''Tickets can only be sent for a paid order; this order is %s.'' [ArgS (dl_status order)]))
     else
       bind (n_tickets s orderID) (\<lambda>ts.
       if ts = [] then fail (Sentinel ''notification: order is paid but has no tickets to deliver'')
       else case RenderTicketsPDF (n_env s) order ts of
         Inl err \<Rightarrow> fail err
       | Inr pdf \<Rightarrow>
           bind (n_Send s (ticket_message order ts pdf)) (\<lambda>_.
           bind (handle (do_MarkEmailSent (n_orders s) orderID)
               (\<lambda>err. log LevelError ''ticket email delivered but email_sent could not be recorded'')
               ret) (\<lambda>_.
           log LevelInfo ''ticket email delivered''))))"

record ResendResponse =
  rp_message :: string
  rp_sent_to :: string

text \<open>The admin's resend; \<open>id\<close> is the parsed path parameter.\<close>

definition resend :: "NotificationService \<Rightarrow> goerror + uuid \<Rightarrow> ResendResponse go" where
  "resend s i =
     (case i of
        Inl err \<Rightarrow> fail (Wrap err 400 CodeValidation (text_msg ''id must be a UUID.''))
      | Inr orderID \<Rightarrow>
          bind (do_OrderForDelivery (n_orders s) orderID) (\<lambda>order.
          bind (SendTicketEmail s orderID) (\<lambda>_.
          ret \<lparr>rp_message = ''Email resent'', rp_sent_to = dl_buyer_email order\<rparr>)))"

section \<open>The document\<close>

text \<open>The images a document registers, and the codes it prints.\<close>

fun image_names :: "pdf_call list \<Rightarrow> string list" where
  "image_names [] = []"
| "image_names (RegisterImage name png # cs) = name # image_names cs"
| "image_names (_ # cs) = image_names cs"

lemma image_names_append [simp]: "image_names (xs @ ys) = image_names xs @ image_names ys"
  by (induction xs rule: image_names.induct) auto

definition pages :: "pdf_call list \<Rightarrow> nat" where
  "pages cs = length (filter (\<lambda>c. c = AddPage) cs)"

lemma imageName_inject: "imageName i c = imageName j c' \<longleftrightarrow> i = j \<and> c = c'"
proof
  assume "imageName i c = imageName j c'"
  then have eq: "decimal_digits i @ CHR ''-'' # c = decimal_digits j @ CHR ''-'' # c'" by (simp add: imageName_def)
  have "CHR ''-'' \<notin> set (decimal_digits n)" for n
    using decimal_digits_range [of "CHR ''-''" n] by auto
  then have "takeWhile (\<lambda>x. x \<noteq> CHR ''-'') (decimal_digits n @ CHR ''-'' # s) = decimal_digits n" for n s
    by (subst takeWhile_append2) auto
  then have "decimal_digits i = decimal_digits j" using eq by metis
  with eq show "i = j \<and> c = c'" by simp
qed simp

lemma renderTicketPage_Inr:
  assumes "renderTicketPage env pdf order ticket i = Inr pdf'"
  shows "image_names pdf' = image_names pdf @ [imageName i (nt_code ticket)] \<and> pages pdf' = Suc (pages pdf) \<and>
    nt_code ticket \<noteq> []"
  using assms by (auto simp: renderTicketPage_def Let_def pages_def RenderQR_def split: sum.splits option.splits if_splits)

lemma render_pages_Inr:
  "render_pages env order ts i pdf = Inr pdf' \<Longrightarrow>
   image_names pdf' = image_names pdf @ map (\<lambda>(j, t). imageName j (nt_code t)) (enumerate i ts) \<and>
   pages pdf' = pages pdf + length ts"
proof (induction env order ts i pdf rule: render_pages.induct)
  case (2 env order ticket ts i pdf)
  then obtain pdf1 where "renderTicketPage env pdf order ticket i = Inr pdf1" and "render_pages env order ts (Suc i) pdf1 = Inr pdf'"
    by (auto split: sum.splits)
  with 2 renderTicketPage_Inr [of env pdf order ticket i pdf1] show ?case by simp
qed simp

section \<open>The markup\<close>

definition markup :: "char set" where
  "markup = {CHR ''<'', CHR ''>'', CHR 0x22, CHR 0x27}"

lemma EscapeString_markup: "set (EscapeString s) \<inter> markup = {}"
  by (auto simp: EscapeString_def escape_char_def markup_def split: if_splits)

lemma EscapeString_count: "count_list (EscapeString s) CHR ''<'' = 0"
  using EscapeString_markup [of s] by (auto simp: markup_def count_list_0_iff)

section \<open>Delivery\<close>

text \<open>
  What the service relies on: reading the order and its tickets and sending the mail leave the
  database alone, the order read has the status the database has, and recording the delivery is
  an ordinary step of the shop.
\<close>

locale delivery =
  fixes s :: NotificationService
  assumes order_readonly: "readonly (do_OrderForDelivery (n_orders s) i)"
    and order_answer: "do_OrderForDelivery (n_orders s) i w = (Inr order, w') \<Longrightarrow>
      order_status (wdb w) i = Some (dl_status order)"
    and tickets_readonly: "readonly (n_tickets s i)"
    and send_readonly: "readonly (n_Send s msg)"
    and mark_evolves: "ensures evolves (do_MarkEmailSent (n_orders s) i)"
    and delivery_quiet: "quiet (do_OrderForDelivery (n_orders s) i)" "quiet (n_tickets s i)" "quiet (n_Send s msg)"
      "quiet (do_MarkEmailSent (n_orders s) i)"
begin

lemma send_evolves: "ensures evolves (SendTicketEmail s i)"
  unfolding SendTicketEmail_def
  by (intro evolve_intros readonly_evolves [OF order_readonly] readonly_evolves [OF tickets_readonly]
      readonly_evolves [OF send_readonly] mark_evolves)

lemma send_quiet: "quiet (SendTicketEmail s i)"
  unfolding SendTicketEmail_def by (intro quiet_intros delivery_quiet)

lemma resend_evolves: "ensures evolves (resend s parsed)"
  unfolding resend_def by (intro evolve_intros readonly_evolves [OF order_readonly] send_evolves)

text \<open>Nothing is recorded, and success is not reported, unless the mail went out for a paid order.\<close>

lemma send_run:
  assumes run: "SendTicketEmail s i w = (r, w')"
  shows "wdb w' = wdb w \<and> r \<noteq> Inr () \<or>
    order_status (wdb w) i = Some OrderStatusPaid \<and>
    (\<exists>order w0 v v' ts pdf w1 w2 q w3. do_OrderForDelivery (n_orders s) i w = (Inr order, w0) \<and>
       n_tickets s i v = (Inr ts, v') \<and> wdb v = wdb w \<and>
       ts \<noteq> [] \<and> RenderTicketsPDF (n_env s) order ts = Inr pdf \<and>
       n_Send s (ticket_message order ts pdf) w1 = (Inr (), w2) \<and> wdb w1 = wdb w \<and> wdb w2 = wdb w \<and>
       do_MarkEmailSent (n_orders s) i w2 = (q, w3) \<and> wdb w' = wdb w3 \<and> r = Inr ())"
proof -
  obtain q w1 where get: "do_OrderForDelivery (n_orders s) i w = (q, w1)" by fastforce
  have w1: "wdb w1 = wdb w" using readonlyD [OF order_readonly get] .
  show ?thesis
  proof (cases "\<exists>order. q = Inr order \<and> dl_status order = OrderStatusPaid")
    case False
    with run get w1 show ?thesis by (cases q) (auto simp: SendTicketEmail_def bind_run)
  next
    case True
    then obtain order where q: "q = Inr order" and paid: "dl_status order = OrderStatusPaid" by blast
    obtain x w2 where ts: "n_tickets s i w1 = (x, w2)" by fastforce
    have w2: "wdb w2 = wdb w" using readonlyD [OF tickets_readonly ts] w1 by simp
    show ?thesis
    proof (cases "\<exists>ts pdf. x = Inr ts \<and> ts \<noteq> [] \<and> RenderTicketsPDF (n_env s) order ts = Inr pdf")
      case False
      with run get q paid ts w2 show ?thesis
        by (cases x) (auto simp: SendTicketEmail_def bind_run split: sum.splits if_splits)
    next
      case True
      then obtain ts pdf where x: "x = Inr ts" "ts \<noteq> []" and pdf: "RenderTicketsPDF (n_env s) order ts = Inr pdf" by blast
      obtain y w3 where sent: "n_Send s (ticket_message order ts pdf) w2 = (y, w3)" by fastforce
      have w3: "wdb w3 = wdb w" using readonlyD [OF send_readonly sent] w2 by simp
      show ?thesis
      proof (cases y)
        case (Inl e)
        with run get q paid \<open>n_tickets s i w1 = _\<close> x pdf sent w3 show ?thesis
          by (auto simp: SendTicketEmail_def bind_run)
      next
        case (Inr u)
        then have Inr: "y = Inr ()" by simp
        obtain z w4 where mark: "do_MarkEmailSent (n_orders s) i w3 = (z, w4)" by fastforce
        have "r = Inr () \<and> wdb w' = wdb w4"
          using run get q paid \<open>n_tickets s i w1 = _\<close> x pdf sent Inr mark
          by (cases z) (auto simp: SendTicketEmail_def bind_run handle_def)
        moreover have "order_status (wdb w) i = Some OrderStatusPaid" using order_answer [OF get [unfolded q]] paid by simp
        ultimately show ?thesis using x(2) pdf sent [unfolded Inr] w1 w2 w3 ts [unfolded x(1)] mark
          get [unfolded q] by blast
      qed
    qed
  qed
qed

end

section \<open>Properties\<close>

text \<open>
  C18: The rendered document has one page per ticket, in the order given, and a different image name
  on every page even when two tickets carry the same code, so no page can show another page's QR
  code; an empty code is never rendered.
\<close>

theorem pages_of_tickets:
  assumes "render_pages env order ts 0 [SetTitle t, SetAuthor a] = Inr pdf"
  shows "pages pdf = length ts \<and> distinct (image_names pdf) \<and>
    image_names pdf = map (\<lambda>i. imageName i (nt_code (ts ! i))) [0..<length ts]"
proof -
  have "map (\<lambda>(j, t). imageName j (nt_code t)) (enumerate 0 ts) = map (\<lambda>i. imageName i (nt_code (ts ! i))) [0..<length ts]"
    by (rule nth_equalityI) (auto simp: nth_enumerate_eq)
  with render_pages_Inr [OF assms] have names: "image_names pdf = map (\<lambda>i. imageName i (nt_code (ts ! i))) [0..<length ts]"
    and "pages pdf = length ts" by (simp_all add: pages_def)
  moreover have "distinct (image_names pdf)" unfolding names by (auto simp: distinct_map inj_on_def imageName_inject)
  ultimately show ?thesis by simp
qed

definition sample_delivery_env :: delivery_env where
  "sample_delivery_env = \<lparr>de_qr = Inr, de_pdf_error = (\<lambda>_. None), de_pdf_output = (\<lambda>_. Inr ''pdf''),
     de_date = (\<lambda>_. ''date''), de_dial = (\<lambda>_ _ _. None)\<rparr>"

definition sample_page_order :: OrderDelivery where
  "sample_page_order = \<lparr>dl_id = 1, dl_number = ''A'', dl_buyer_name = ''B'', dl_buyer_email = ''C'', dl_status = ''PAID''\<rparr>"

definition sample_page_ticket :: TicketDetail where
  "sample_page_ticket = \<lparr>nt_code = ''SAME'', nt_attendee = ''D'', nt_type = ''E'', nt_event = ''F'', nt_venue = ''G'', nt_start = 0\<rparr>"

theorem pages_of_tickets_witness:
  "\<exists>pdf. render_pages sample_delivery_env sample_page_order [sample_page_ticket, sample_page_ticket] 0
      [SetTitle ''T'', SetAuthor ''A''] = Inr pdf \<and> image_names pdf = [''qr-0-SAME'', ''qr-1-SAME'']"
    (is "\<exists>pdf. ?run = Inr pdf \<and> _")
proof -
  have page: "\<exists>pdf'. renderTicketPage sample_delivery_env pdf order sample_page_ticket i = Inr pdf'" for pdf order i
    by (simp add: renderTicketPage_def RenderQR_def Let_def sample_delivery_env_def sample_page_ticket_def del: append.simps)
  then obtain p1 where p1: "renderTicketPage sample_delivery_env [SetTitle ''T'', SetAuthor ''A''] sample_page_order
      sample_page_ticket 0 = Inr p1" by blast
  from page obtain p2 where "renderTicketPage sample_delivery_env p1 sample_page_order sample_page_ticket (Suc 0) = Inr p2"
    by blast
  with p1 have run: "?run = Inr p2" by simp
  have "map (\<lambda>i. imageName i (nt_code ([sample_page_ticket, sample_page_ticket] ! i))) [0..<length [sample_page_ticket, sample_page_ticket]]
      = [''qr-0-SAME'', ''qr-1-SAME'']" by code_simp
  with pages_of_tickets [OF run] run show ?thesis by metis
qed

text \<open>
  C19: Nothing a buyer, attendee or admin has typed can add markup to the email: whatever the names
  are, the body has exactly the tags of the template, four for each ticket and sixteen for the rest.
\<close>

theorem email_body_markup:
  "count_list (buildEmailBody order ts) CHR ''<'' = 16 + 4 * length ts"
proof -
  have digits: "count_list (decimal_digits n) CHR ''<'' = 0" for n
    using decimal_digits_range [of "CHR ''<''" n] by (auto simp: count_list_0_iff)
  have "count_list (concat (map ticket_item xs)) CHR ''<'' = 4 * length xs" for xs
    by (induction xs) (simp_all add: ticket_item_def count_list_append EscapeString_count dash_def)
  then show ?thesis
    by (simp add: buildEmailBody_def count_list_append EscapeString_count digits)
qed

end
