(* ===== verification/Delivery_Adapters.thy ===== *)
theory Delivery_Adapters
  imports Notification Ticket
begin

text \<open>
  The adapters of \<open>cmd/api/adapters.go\<close> that give delivery its view of orders and tickets, the
  service as \<open>main.go\<close> wires it with the SMTP mailer, and the proof that this wiring keeps the
  contract \<open>delivery\<close>.
\<close>

section \<open>Adapters\<close>

definition notificationOrderAdapter :: DeliveryOrders where
  "notificationOrderAdapter =
     \<lparr>do_OrderForDelivery = (\<lambda>orderID.
        handle (order_GetOrderByID orderID)
          (\<lambda>err. if errors_Is err order_ErrNotFound
                 then fail (NotFound CodeOrderNotFound (text_msg ''Order not found.'')) else fail err)
          (\<lambda>rec. ret \<lparr>dl_id = or_id rec, dl_number = or_number rec, dl_buyer_name = or_buyer_name rec,
                     dl_buyer_email = or_buyer_email rec, dl_status = or_status rec\<rparr>)),
      do_MarkEmailSent = order_SetEmailSent\<rparr>"

definition notificationTicketAdapter :: "uuid \<Rightarrow> TicketDetail list go" where
  "notificationTicketAdapter orderID =
     bind (ticket_ListDetailsByOrderID orderID) (\<lambda>details.
     ret (map (\<lambda>d. \<lparr>nt_code = fd_code d, nt_attendee = fd_attendee d, nt_type = fd_type d,
                   nt_event = fd_event d, nt_venue = fd_venue d, nt_start = fd_start d\<rparr>) details))"

definition notificationService :: "delivery_env \<Rightarrow> SMTPConfig \<Rightarrow> NotificationService" where
  "notificationService env cfg =
     \<lparr>n_orders = notificationOrderAdapter, n_tickets = notificationTicketAdapter,
      n_Send = smtp_Send env cfg, n_env = env\<rparr>"

section \<open>The contract\<close>

lemma readonly_smtp [readonly_intros]: "readonly (smtp_Send env cfg msg)"
  by (simp add: ensures_def smtp_Send_def split: option.split)

lemma quiet_smtp [quiet_intros]: "quiet (smtp_Send env cfg msg)"
  by (simp add: quiet_def smtp_Send_def split: option.split)

lemma SetEmailSent_evolves [evolve_intros]: "ensures evolves (order_SetEmailSent i)"
proof -
  have "evolves d d'" if "sql_SetEmailSent i u t d = Inr (n, d')" for u t d n d'
  proof -
    from that have "statuses_kept d d'"
      by (auto simp: sql_SetEmailSent_def intro!: statuses_kept_update)
    moreover have "schema_ok d \<Longrightarrow> schema_ok d'" by (rule schema_order_sql(6) [OF that])
    ultimately show ?thesis
      using statuses_kept_evolves by (cases "schema_ok d") (auto simp: evolves_def orders_evolve_def)
  qed
  then show ?thesis unfolding order_SetEmailSent_def by (intro evolve_intros evo.ensures_stmt)
qed

interpretation deliveries: delivery "notificationService env cfg" for env cfg
proof
  let ?s = "notificationService env cfg"
  fix i w order w' msg
  show "do_OrderForDelivery (n_orders ?s) i w = (Inr order, w') \<Longrightarrow> order_status (wdb w) i = Some (dl_status order)"
    by (auto simp: notificationService_def notificationOrderAdapter_def handle_Inr order_GetOrderByID_def bind_Inr
        sql_GetOrderByID_def order_status_def toOrderRecord_def dest!: query_row_Inr split: if_splits)
  show "ensures evolves (do_MarkEmailSent (n_orders ?s) i)"
    by (simp add: notificationService_def notificationOrderAdapter_def SetEmailSent_evolves)
  show "quiet (do_OrderForDelivery (n_orders ?s) i)" "quiet (n_tickets ?s i)" "quiet (n_Send ?s msg)"
    "quiet (do_MarkEmailSent (n_orders ?s) i)"
    by (simp_all add: notificationService_def notificationOrderAdapter_def notificationTicketAdapter_def
        ticket_ListDetailsByOrderID_def order_SetEmailSent_def del: bind_ret_unit)
       (intro quiet_intros)+
  show "readonly (do_OrderForDelivery (n_orders ?s) i)" "readonly (n_tickets ?s i)" "readonly (n_Send ?s msg)"
    by (simp_all add: notificationService_def notificationOrderAdapter_def notificationTicketAdapter_def)
       (intro readonly_intros)+
qed

section \<open>Properties\<close>

text \<open>The order \<open>i\<close>, and no other, is marked as emailed.\<close>

definition marked_sent :: "uuid \<Rightarrow> gotime \<Rightarrow> database \<Rightarrow> database" where
  "marked_sent i t d = d\<lparr>orders := map (\<lambda>r. if ord_id r = i
     then r\<lparr>ord_email_sent := Some True, ord_updated_at := Some t\<rparr> else r) (orders d)\<rparr>"

lemma SetEmailSent_run:
  "order_SetEmailSent i w = (q, w') \<Longrightarrow> wdb w' = wdb w \<or> (\<exists>t. wdb w' = marked_sent i t (wdb w))"
  by (auto simp: order_SetEmailSent_def bind_run wrapping_def handle_def stmt_def sql_SetEmailSent_def
      marked_sent_def upd_where_def split: prod.splits sum.splits if_splits)

lemma notification_tickets:
  "notificationTicketAdapter i w = (Inr ts, w') \<Longrightarrow> set (map nt_code ts) \<subseteq> tk_code ` set (tickets_of (wdb w) i)"
  by (fastforce simp: notificationTicketAdapter_def ticket_ListDetailsByOrderID_def bind_Inr tickets_of_def
      sql_ListTicketDetailsByOrderID_def ticket_joins_def dest!: query_Inr)

text \<open>
  C17: Delivery sends tickets for paid orders only and records it only when the mail is out: if a run
  changed the database or reported success, the order was paid, the mail with at least one of its own
  tickets was rendered for its buyer and the mailer accepted it. What it records is the mark on that
  one order; no other order, and nothing else, changes.
\<close>

theorem email_recorded_only_if_sent:
  assumes "SendTicketEmail (notificationService env cfg) i w = (r, w')"
    and "wdb w' \<noteq> wdb w \<or> r = Inr ()"
  shows "(\<exists>row order ts pdf w1 w2. row \<in> set (orders (wdb w)) \<and> ord_id row = i \<and> ord_status row = OrderStatusPaid \<and>
      ts \<noteq> [] \<and> set (map nt_code ts) \<subseteq> tk_code ` set (tickets_of (wdb w) i) \<and>
      RenderTicketsPDF env order ts = Inr pdf \<and> ms_to (ticket_message order ts pdf) = ord_buyer_email row \<and>
      smtp_Send env cfg (ticket_message order ts pdf) w1 = (Inr (), w2)) \<and>
    (wdb w' = wdb w \<or> (\<exists>t. wdb w' = marked_sent i t (wdb w)))"
proof -
  from deliveries.send_run [OF assms(1), unfolded notificationService_def NotificationService.select_convs] assms(2)
  obtain order w0 v v' ts pdf w1 w2 q w3 where get: "do_OrderForDelivery notificationOrderAdapter i w = (Inr order, w0)"
    and paid: "order_status (wdb w) i = Some OrderStatusPaid"
    and read: "notificationTicketAdapter i v = (Inr ts, v')" "wdb v = wdb w"
    and mail: "ts \<noteq> []" "RenderTicketsPDF env order ts = Inr pdf" "smtp_Send env cfg (ticket_message order ts pdf) w1 = (Inr (), w2)"
    and mark: "do_MarkEmailSent notificationOrderAdapter i w2 = (q, w3)" "wdb w2 = wdb w" "wdb w' = wdb w3"
    by blast
  have marked: "wdb w' = wdb w \<or> (\<exists>t. wdb w' = marked_sent i t (wdb w))"
    using SetEmailSent_run [of i w2 q w3] mark by (simp add: notificationOrderAdapter_def)
  note own = notification_tickets [OF read(1), unfolded read(2)]
  from get obtain row where "find (\<lambda>r. ord_id r = i) (orders (wdb w)) = Some row" "dl_buyer_email order = ord_buyer_email row"
    by (auto simp: notificationOrderAdapter_def handle_Inr order_GetOrderByID_def bind_Inr sql_GetOrderByID_def
        toOrderRecord_def dest!: query_row_Inr split: if_splits)
  moreover from this paid have "row \<in> set (orders (wdb w)) \<and> ord_id row = i \<and> ord_status row = OrderStatusPaid"
    by (auto simp: order_status_def dest: find_SomeD)
  moreover have "ms_to (ticket_message order ts pdf) = dl_buyer_email order" by (simp add: ticket_message_def)
  ultimately have "row \<in> set (orders (wdb w)) \<and> ord_id row = i \<and> ord_status row = OrderStatusPaid \<and>
      ms_to (ticket_message order ts pdf) = ord_buyer_email row" by simp
  with mail own marked show ?thesis by blast
qed

definition sample_smtp :: SMTPConfig where
  "sample_smtp = \<lparr>sc_host = ''h'', sc_port = 25, sc_username = [], sc_password = [], sc_from = ''f'', sc_from_name = ''n''\<rparr>"

definition sample_delivery :: "unit go" where
  "sample_delivery = SendTicketEmail (notificationService sample_delivery_env sample_smtp) 21"

theorem email_recorded_only_if_sent_witness:
  "fst (sample_delivery sample_world) = Inr () \<and>
   (\<exists>row. row \<in> set (orders sample_db) \<and> ord_id row = 21 \<and> ord_status row = OrderStatusPaid) \<and>
   map ord_email_sent (orders (wdb (snd (sample_delivery sample_world)))) = [Some False, Some True]"
proof -
  have run: "fst (sample_delivery sample_world) = Inr ()" by code_simp
  then have "sample_delivery sample_world = (Inr (), snd (sample_delivery sample_world))" by (metis prod.collapse)
  from email_recorded_only_if_sent [OF this [unfolded sample_delivery_def]]
  have "\<exists>row. row \<in> set (orders (wdb sample_world)) \<and> ord_id row = 21 \<and> ord_status row = OrderStatusPaid" by blast
  moreover have "map ord_email_sent (orders (wdb (snd (sample_delivery sample_world)))) = [Some False, Some True]"
    by code_simp
  ultimately show ?thesis using run by (simp add: sample_world_def)
qed

end
