(* ===== verification/Payment_Status.thy ===== *)
theory Payment_Status
  imports Database
begin

text \<open>
  \<open>internal/payment/status.go\<close>: the decision a provider's status implies for an order, as the code
  computes it and as the specification's table (\<open>spec.md\<close>, Payment Status Mapping) lists it.
  \<open>strings.ToLower\<close> beyond ASCII is the argument \<open>lc\<close>.
\<close>

abbreviation OrderStatusUnchanged :: string where "OrderStatusUnchanged \<equiv> ''''"

record Outcome =
  oc_OrderStatus :: string
  oc_RestoreQuota :: bool
  oc_Handled :: bool

definition ChangesOrder :: "Outcome \<Rightarrow> bool" where
  "ChangesOrder out \<longleftrightarrow> oc_OrderStatus out \<noteq> OrderStatusUnchanged"

definition normalize :: "(string \<Rightarrow> string) \<Rightarrow> string \<Rightarrow> string" where
  "normalize lc s = ToLower lc (TrimSpace s)"

definition MapProviderStatus :: "(string \<Rightarrow> string) \<Rightarrow> string \<Rightarrow> string \<Rightarrow> Outcome" where
  "MapProviderStatus lc transactionStatus fraudStatus =
     (let s = normalize lc transactionStatus in
      if s = ''settlement'' then
        \<lparr>oc_OrderStatus = OrderStatusPaid, oc_RestoreQuota = False, oc_Handled = True\<rparr>
      else if s = ''capture'' then
        (let f = normalize lc fraudStatus in
         if f = ''accept'' then
           \<lparr>oc_OrderStatus = OrderStatusPaid, oc_RestoreQuota = False, oc_Handled = True\<rparr>
         else if f = ''challenge'' then
           \<lparr>oc_OrderStatus = OrderStatusUnchanged, oc_RestoreQuota = False, oc_Handled = True\<rparr>
         else \<lparr>oc_OrderStatus = OrderStatusUnchanged, oc_RestoreQuota = False, oc_Handled = False\<rparr>)
      else if s = ''pending'' then
        \<lparr>oc_OrderStatus = OrderStatusUnchanged, oc_RestoreQuota = False, oc_Handled = True\<rparr>
      else if s = ''deny'' \<or> s = ''cancel'' \<or> s = ''failure'' then
        \<lparr>oc_OrderStatus = OrderStatusCancelled, oc_RestoreQuota = True, oc_Handled = True\<rparr>
      else if s = ''expire'' then
        \<lparr>oc_OrderStatus = OrderStatusExpired, oc_RestoreQuota = True, oc_Handled = True\<rparr>
      else \<lparr>oc_OrderStatus = OrderStatusUnchanged, oc_RestoreQuota = False, oc_Handled = False\<rparr>)"

text \<open>
  Whatever the provider says, seats are restored exactly when the order is to be cancelled or
  expired, only handled outcomes change an order, and the statuses are those of the schema.
\<close>

definition good_outcome :: "Outcome \<Rightarrow> bool" where
  "good_outcome out \<longleftrightarrow>
     (oc_RestoreQuota out \<longleftrightarrow> oc_OrderStatus out = OrderStatusCancelled \<or> oc_OrderStatus out = OrderStatusExpired) \<and>
     (ChangesOrder out \<longrightarrow> oc_Handled out \<and>
        oc_OrderStatus out \<in> {OrderStatusPaid, OrderStatusCancelled, OrderStatusExpired})"

lemma MapProviderStatus_good: "good_outcome (MapProviderStatus lc t f)"
  by (simp add: MapProviderStatus_def good_outcome_def ChangesOrder_def Let_def)

end
