(* ===== verification/Payment.thy ===== *)
theory Payment
  imports Payment_Status Evolution
begin

text \<open>
  \<open>internal/payment\<close>: the payments table, the service that drives an order through its lifecycle
  (\<open>service.go\<close>), its HTTP handler and the sweeper. The service's collaborators are the records
  \<open>Gateway\<close> and \<open>OrderProvider\<close> and the functions for quota, tickets and delivery, gathered in
  \<open>PaymentService\<close>; the locale \<open>payment_service\<close> states what they promise.

  A goroutine started by \<open>fulfillAsync\<close> is an entry of \<open>fulfillment\<close>; \<open>fulfill\<close> is its body.
\<close>

section \<open>Types\<close>

abbreviation ErrOrderNotFound :: goerror where
  "ErrOrderNotFound \<equiv> Sentinel ''payment: order not found''"
abbreviation ErrProviderHasNoRecord :: goerror where
  "ErrProviderHasNoRecord \<equiv> Sentinel ''payment: provider has no record of this order''"
abbreviation ErrInvalidSignature :: goerror where
  "ErrInvalidSignature \<equiv> Sentinel ''payment: invalid webhook signature''"

record TransactionItem =
  ti_item_id :: uuid
  ti_item_name :: string
  ti_item_price :: decimal
  ti_item_quantity :: int32

record TransactionRequest =
  tq_number :: string
  tq_gross :: decimal
  tq_name :: string
  tq_email :: string
  tq_phone :: string
  tq_items :: "TransactionItem list"

record GatewaySession =
  gs_ref :: string
  gs_qr_string :: string
  gs_qr_image :: string
  gs_expires_at :: gotime
  gs_redirect :: string

record WebhookResult =
  wr_number :: string
  wr_transaction :: string
  wr_status :: string
  wr_fraud :: string
  wr_type :: string
  wr_raw :: string

record Gateway =
  g_Name :: string
  g_CreateTransaction :: "TransactionRequest \<Rightarrow> GatewaySession go"
  g_VerifyWebhook :: "string \<Rightarrow> string \<Rightarrow> goerror + WebhookResult"
  g_FetchStatus :: "string \<Rightarrow> WebhookResult go"

record OrderRef =
  rf_id :: uuid
  rf_number :: string
  rf_status :: string
  rf_expires_at :: "gotime option"

record LineItem =
  li_type :: uuid
  li_quantity :: int32

record OrderProvider =
  op_OrderByNumber :: "string \<Rightarrow> OrderRef go"
  op_LineItems :: "uuid \<Rightarrow> LineItem list go"
  op_UpdateStatusIfPending :: "uuid \<Rightarrow> string \<Rightarrow> bool go"
  op_DueForExpiry :: "gotime \<Rightarrow> int32 \<Rightarrow> OrderRef list go"

record PaymentService =
  s_gateway :: Gateway
  s_orders :: OrderProvider
  s_quota :: "uuid \<Rightarrow> int32 \<Rightarrow> unit go"
  s_issuer :: "uuid \<Rightarrow> unit go"
  s_deliverer :: "uuid \<Rightarrow> unit go"
  s_lower :: "string \<Rightarrow> string"

section \<open>The payments table\<close>

record PaymentLog =
  pl_order :: uuid
  pl_provider :: string
  pl_transaction :: string
  pl_type :: string
  pl_status :: string
  pl_raw :: string

definition sql_CreatePayment ::
  "uuid \<Rightarrow> string \<Rightarrow> string \<Rightarrow> string option \<Rightarrow> string \<Rightarrow> string \<Rightarrow> payment_row sql" where
  "sql_CreatePayment orderID provider transactionID paymentType status raw = (\<lambda>i t d.
     if has_key pay_id i (payments d) then Inl unique_violation
     else if \<not> has_key ord_id orderID (orders d) then Inl foreign_key_violation
     else let r = \<lparr>pay_id = i, pay_order = orderID, pay_provider = provider,
                   pay_transaction = transactionID, pay_type = paymentType, pay_status = status,
                   pay_raw = raw, pay_created_at = Some t\<rparr>
          in Inr (r, d\<lparr>payments := payments d @ [r]\<rparr>))"

definition payment_CreatePayment :: "PaymentLog \<Rightarrow> unit go" where
  "payment_CreatePayment l =
     (let paymentType = (if pl_type l \<noteq> '''' then Some (pl_type l) else None) in
      bind (wrapping ''record payment notification: %w''
              (stmt (sql_CreatePayment (pl_order l) (pl_provider l) (pl_transaction l) paymentType
                      (pl_status l) (pl_raw l)))) (\<lambda>_. ret ()))"

section \<open>Applying an outcome\<close>

definition applyOutcome_tx :: "PaymentService \<Rightarrow> OrderRef \<Rightarrow> Outcome \<Rightarrow> bool go" where
  "applyOutcome_tx s ord outcome =
     bind (op_UpdateStatusIfPending (s_orders s) (rf_id ord) (oc_OrderStatus outcome)) (\<lambda>applied.
     if \<not> applied \<or> \<not> oc_RestoreQuota outcome then ret applied
     else
       bind (op_LineItems (s_orders s) (rf_id ord)) (\<lambda>items.
       bind (for_each items (\<lambda>item. s_quota s (li_type item) (li_quantity item))) (\<lambda>_.
       ret applied)))"

definition applyOutcome :: "PaymentService \<Rightarrow> OrderRef \<Rightarrow> Outcome \<Rightarrow> bool go" where
  "applyOutcome s ord outcome = InTx (applyOutcome_tx s ord outcome)"

definition expiredOutcome :: Outcome where
  "expiredOutcome = \<lparr>oc_OrderStatus = OrderStatusExpired, oc_RestoreQuota = True, oc_Handled = True\<rparr>"

definition expireIfDue :: "PaymentService \<Rightarrow> OrderRef \<Rightarrow> bool go" where
  "expireIfDue s ord =
     (if rf_status ord \<noteq> OrderStatusPending then ret False
      else case rf_expires_at ord of
        None \<Rightarrow> ret False
      | Some deadline \<Rightarrow>
          bind now (\<lambda>t.
          if deadline > t then ret False
          else
            bind (applyOutcome s ord expiredOutcome) (\<lambda>applied.
            if applied then
              bind (log LevelInfo ''order expired at its payment deadline; quota restored'') (\<lambda>_. ret applied)
            else ret applied)))"

definition fulfillAsync :: "OrderRef \<Rightarrow> unit go" where
  "fulfillAsync ord = spawn (rf_id ord)"

definition fulfill :: "PaymentService \<Rightarrow> uuid \<Rightarrow> unit go" where
  "fulfill s i =
     handle (s_issuer s i)
       (\<lambda>err. log LevelError ''ticket generation failed for a paid order'')
       (\<lambda>_. handle (s_deliverer s i)
         (\<lambda>err. log LevelError ''ticket email delivery failed for a paid order'')
         ret)"

section \<open>Provider results\<close>

text \<open>What follows once the provider's result is recorded.\<close>

definition settle :: "PaymentService \<Rightarrow> OrderRef \<Rightarrow> WebhookResult \<Rightarrow> bool go" where
  "settle s ord result =
     (if rf_status ord = OrderStatusPaid then
       bind (log LevelInfo ''order is already paid; provider result acknowledged as a no-op'') (\<lambda>_. ret False)
     else let outcome = MapProviderStatus (s_lower s) (wr_status result) (wr_fraud result) in
     if \<not> oc_Handled outcome then
       bind (log LevelError ''unrecognized provider status; order left unchanged and acknowledged'') (\<lambda>_. ret False)
     else if \<not> ChangesOrder outcome then
       bind (log LevelInfo ''provider result is a legitimate no-op; order left pending'') (\<lambda>_. ret False)
     else if oc_OrderStatus outcome = OrderStatusPaid \<and> rf_status ord \<noteq> OrderStatusPending then
       bind (log LevelError ''provider reports a successful payment for an order that is no longer pending; needs manual reconciliation'')
         (\<lambda>_. ret False)
     else
       bind (applyOutcome s ord outcome) (\<lambda>applied.
       if \<not> applied then
         bind (log LevelInfo ''order was no longer pending; transition skipped'') (\<lambda>_. ret False)
       else
         bind (log LevelInfo ''order status updated'') (\<lambda>_.
         bind (if oc_OrderStatus outcome = OrderStatusPaid then fulfillAsync ord else ret ()) (\<lambda>_.
         ret True))))"

definition applyProviderResult ::
  "PaymentService \<Rightarrow> OrderRef \<Rightarrow> string \<Rightarrow> WebhookResult \<Rightarrow> bool go" where
  "applyProviderResult s ord provider result =
     bind (payment_CreatePayment \<lparr>pl_order = rf_id ord, pl_provider = provider,
             pl_transaction = wr_transaction result, pl_type = wr_type result,
             pl_status = wr_status result, pl_raw = wr_raw result\<rparr>) (\<lambda>_. settle s ord result)"

definition HandleNotification :: "PaymentService \<Rightarrow> string \<Rightarrow> string \<Rightarrow> string \<Rightarrow> unit go" where
  "HandleNotification s provider payload signature =
     (case g_VerifyWebhook (s_gateway s) payload signature of
        Inl err \<Rightarrow> bind (log LevelWarn ''rejected unverified payment notification'') (\<lambda>_. fail err)
      | Inr result \<Rightarrow>
          handle (op_OrderByNumber (s_orders s) (wr_number result))
            (\<lambda>err. if errors_Is err ErrOrderNotFound then
                     log LevelError ''notification names an unknown order; acknowledging without processing''
                   else fail err)
            (\<lambda>ord. bind (applyProviderResult s ord provider result) (\<lambda>_. ret ())))"

section \<open>Expiry and reconciliation\<close>

abbreviation expiryBatchSize :: int32 where
  "expiryBatchSize \<equiv> 100"

definition ExpireDueOrders :: "PaymentService \<Rightarrow> int go" where
  "ExpireDueOrders s =
     bind now (\<lambda>t.
     bind (op_DueForExpiry (s_orders s) t expiryBatchSize) (\<lambda>due.
     fold_each due (\<lambda>expired ord.
       handle (expireIfDue s ord)
         (\<lambda>err. bind (log LevelError ''could not expire an order past its deadline'') (\<lambda>_. ret expired))
         (\<lambda>applied. ret (if applied then expired + 1 else expired))) 0))"

record RefreshResult =
  rr_number :: string
  rr_status :: string
  rr_changed :: bool

definition RefreshStatus :: "PaymentService \<Rightarrow> string \<Rightarrow> RefreshResult go" where
  "RefreshStatus s orderNumber =
     bind (op_OrderByNumber (s_orders s) orderNumber) (\<lambda>ord.
     if rf_status ord \<noteq> OrderStatusPending then
       ret \<lparr>rr_number = rf_number ord, rr_status = rf_status ord, rr_changed = False\<rparr>
     else
       bind (expireIfDue s ord) (\<lambda>expired.
       if expired then
         ret \<lparr>rr_number = rf_number ord, rr_status = OrderStatusExpired, rr_changed = True\<rparr>
       else
         handle (g_FetchStatus (s_gateway s) orderNumber)
           (\<lambda>err. if errors_Is err ErrOrderNotFound then
                    bind (log LevelError ''provider has no record of an order we hold'') (\<lambda>_.
                    fail ErrProviderHasNoRecord)
                  else fail err)
           (\<lambda>result.
         bind (applyProviderResult s ord (g_Name (s_gateway s)) result) (\<lambda>changed.
         bind (op_OrderByNumber (s_orders s) orderNumber) (\<lambda>current.
         ret \<lparr>rr_number = rf_number current, rr_status = rf_status current, rr_changed = changed\<rparr>)))))"

section \<open>Handler and sweeper\<close>

record refreshResponse =
  rs_result :: RefreshResult
  rs_checked_at :: gotime

definition refreshStatus :: "PaymentService \<Rightarrow> string \<Rightarrow> refreshResponse go" where
  "refreshStatus s orderNumber =
     handle (RefreshStatus s orderNumber)
       (\<lambda>err. if errors_Is err ErrOrderNotFound then
                fail (NotFound CodeOrderNotFound (text_msg ''Order not found.''))
              else if errors_Is err ErrProviderHasNoRecord then
                fail (Wrap err 502 CodePaymentStatusUnavailable (text_msg
                  ''We could not confirm this payment with the provider. Please try again shortly.''))
              else
                bind (log LevelError ''could not reconcile order status with the provider'') (\<lambda>_.
                fail (Wrap err 502 CodePaymentStatusUnavailable (text_msg
                  (''We could not reach the payment provider just now. Your payment is unaffected '' @
                   [CHR 0xE2, CHR 0x80, CHR 0x94] @ '' please try again shortly.'')))))
       (\<lambda>result. bind now (\<lambda>t. ret \<lparr>rs_result = result, rs_checked_at = t\<rparr>))"

abbreviation maxWebhookBody :: nat where
  "maxWebhookBody \<equiv> 2 ^ 20"

text \<open>The request's body, \<open>None\<close> when reading it fails; only its first megabyte is read.\<close>

definition webhook :: "PaymentService \<Rightarrow> string \<Rightarrow> string option \<Rightarrow> string \<Rightarrow> unit go" where
  "webhook s provider body signature =
     (if provider \<noteq> g_Name (s_gateway s) then
        bind (log LevelWarn ''notification for an unconfigured provider'') (\<lambda>_.
        fail (NotFound CodeNotFound (text_msg ''Unknown payment provider.'')))
      else case body of
        None \<Rightarrow> fail (Wrap (DriverError ''body'') 400 CodeValidation
                  (text_msg ''The notification body could not be read.''))
      | Some bytes \<Rightarrow>
          handle (HandleNotification s provider (take maxWebhookBody bytes) signature)
            (\<lambda>err. if errors_Is err ErrInvalidSignature then
                     fail (Wrap err 401 CodeInvalidSignature
                       (text_msg ''The notification signature could not be verified.''))
                   else fail err)
            ret)"

definition sweepOnce :: "PaymentService \<Rightarrow> unit go" where
  "sweepOnce s =
     handle (ExpireDueOrders s)
       (\<lambda>err. log LevelError ''expiry sweep failed'')
       (\<lambda>expired. if expired > 0 then log LevelInfo ''expiry sweep completed'' else ret ())"

section \<open>What the service relies on\<close>

lemma schema_CreatePayment:
  "sql_CreatePayment a b c e f g i t d = Inr (x, d') \<Longrightarrow> schema_ok d \<Longrightarrow> schema_ok d'"
  by (auto simp: sql_CreatePayment_def Let_def has_key_iff split: if_splits intro!: schema_ok_payments)
     (auto simp: schema_defs)

lemma CreatePayment_evolves [evolve_intros]: "ensures evolves (payment_CreatePayment l)"
proof -
  have "evolves d d'" if "sql_CreatePayment a b c e f g i t d = Inr (x, d')" for a b c e f g i t d x d'
    using that schema_CreatePayment [OF that]
    by (intro shop_kept_evolves) (auto simp: sql_CreatePayment_def Let_def shop_kept_def split: if_splits)
  then show ?thesis
    unfolding payment_CreatePayment_def Let_def by (intro evolve_intros evo.ensures_stmt)
qed

lemma CreatePayment_run:
  "payment_CreatePayment l w = (r, w') \<Longrightarrow>
   (schema_ok (wdb w) \<longrightarrow> schema_ok (wdb w')) \<and> order_status (wdb w') = order_status (wdb w) \<and>
   order_items (wdb w') = order_items (wdb w) \<and> ticket_types (wdb w') = ticket_types (wdb w)"
  using ensuresD [OF CreatePayment_evolves, of l w r w']
  by (auto simp: payment_CreatePayment_def Let_def bind_run wrapping_def handle_def stmt_def evolves_def
      orders_evolve_def sql_CreatePayment_def order_status_def
      split: prod.splits sum.splits if_splits)

lemma quiet_CreatePayment [quiet_intros]: "quiet (payment_CreatePayment l)"
  unfolding payment_CreatePayment_def Let_def by (intro quiet_intros)

locale payment_service = quota_restorer "s_quota s" for s :: PaymentService +
  assumes number_readonly: "readonly (op_OrderByNumber (s_orders s) n)"
    and items_readonly: "readonly (op_LineItems (s_orders s) i)"
    and due_readonly: "readonly (op_DueForExpiry (s_orders s) t k)"
    and fetch_readonly: "readonly (g_FetchStatus (s_gateway s) n)"
    and items_answer: "op_LineItems (s_orders s) i w = (Inr items, w') \<Longrightarrow> schema_ok (wdb w) \<Longrightarrow>
      mset (map (\<lambda>l. (li_type l, sint (li_quantity l))) items) = mset (lines_of (wdb w) i)"
    and update_answer: "op_UpdateStatusIfPending (s_orders s) i st w = (Inr b, w') \<Longrightarrow> schema_ok (wdb w) \<Longrightarrow>
      schema_ok (wdb w') \<and> b = (order_status (wdb w) i = Some OrderStatusPending) \<and>
      (if b then status_moved i st (wdb w) (wdb w') else wdb w' = wdb w)"
    and due_answer: "op_DueForExpiry (s_orders s) t k w = (Inr refs, w') \<Longrightarrow> schema_ok (wdb w) \<Longrightarrow> ref \<in> set refs \<Longrightarrow>
      rf_status ref = OrderStatusPending \<and> order_status (wdb w) (rf_id ref) = Some OrderStatusPending \<and>
      (\<exists>e. rf_expires_at ref = Some e \<and> e \<le> t)"
    and provider_quiet: "quiet (op_OrderByNumber (s_orders s) n)" "quiet (op_LineItems (s_orders s) i)"
      "quiet (op_UpdateStatusIfPending (s_orders s) i st)" "quiet (op_DueForExpiry (s_orders s) t k)"
      "quiet (g_FetchStatus (s_gateway s) n)"
begin

subsection \<open>Applying an outcome\<close>

text \<open>
  The transaction applies to a pending order and to no other; when it applies, the status moves
  and, if the outcome says so, exactly the seats of the order come back.
\<close>

lemma applyOutcome_tx_Inr:
  assumes run: "applyOutcome_tx s ord outcome w = (Inr b, w')" and ok: "schema_ok (wdb w)"
  shows "schema_ok (wdb w')" and "b = (order_status (wdb w) (rf_id ord) = Some OrderStatusPending)"
    and "if \<not> b then wdb w' = wdb w
      else if oc_RestoreQuota outcome
      then order_released (rf_id ord) (oc_OrderStatus outcome) (wdb w) (wdb w')
      else status_moved (rf_id ord) (oc_OrderStatus outcome) (wdb w) (wdb w')"
proof -
  from run obtain a w1 where upd: "op_UpdateStatusIfPending (s_orders s) (rf_id ord) (oc_OrderStatus outcome) w = (Inr a, w1)"
    and rest: "(if \<not> a \<or> \<not> oc_RestoreQuota outcome then ret a
     else bind (op_LineItems (s_orders s) (rf_id ord)) (\<lambda>items.
       bind (for_each items (\<lambda>item. s_quota s (li_type item) (li_quantity item))) (\<lambda>_. ret a))) w1 = (Inr b, w')"
    unfolding applyOutcome_tx_def by (rule bind_InrE)
  note moved = update_answer [OF upd ok]
  have "b = a \<and> schema_ok (wdb w') \<and> (if \<not> b then wdb w' = wdb w
      else if oc_RestoreQuota outcome
      then order_released (rf_id ord) (oc_OrderStatus outcome) (wdb w) (wdb w')
      else status_moved (rf_id ord) (oc_OrderStatus outcome) (wdb w) (wdb w'))"
  proof (cases "\<not> a \<or> \<not> oc_RestoreQuota outcome")
    case True
    with rest moved show ?thesis by (auto split: if_splits)
  next
    case False
    with rest obtain items w2 where items: "op_LineItems (s_orders s) (rf_id ord) w1 = (Inr items, w2)"
      and restored: "for_each items (\<lambda>item. s_quota s (li_type item) (li_quantity item)) w2 = (Inr (), w')"
      and b: "b = a" by (auto elim!: bind_InrE)
    have w2: "wdb w2 = wdb w1" using readonlyD [OF items_readonly items] .
    have st: "status_moved (rf_id ord) (oc_OrderStatus outcome) (wdb w) (wdb w1)" and ok1: "schema_ok (wdb w1)"
      using moved False by auto
    then have "lines_of (wdb w1) = lines_of (wdb w)"
      unfolding status_moved_def by (metis database.ext_inject database.surjective database.update_convs(4) lines_of_cong)
    with line_seats_mset [OF items_answer [OF items ok1]] restore_loop [OF restored] ok1 have "schema_ok (wdb w')"
      and "seats_moved (line_seats (lines_of (wdb w) (rf_id ord))) (wdb w1) (wdb w')"
      by (simp_all add: w2)
    with status_then_seats [OF st] b False show ?thesis by auto
  qed
  with moved show "schema_ok (wdb w')" and "b = (order_status (wdb w) (rf_id ord) = Some OrderStatusPending)"
    and "if \<not> b then wdb w' = wdb w
      else if oc_RestoreQuota outcome
      then order_released (rf_id ord) (oc_OrderStatus outcome) (wdb w) (wdb w')
      else status_moved (rf_id ord) (oc_OrderStatus outcome) (wdb w) (wdb w')" by blast+
qed

lemma applyOutcome_Inr:
  assumes "applyOutcome s ord outcome w = (Inr b, w')" and "schema_ok (wdb w)"
  shows "schema_ok (wdb w')" and "b = (order_status (wdb w) (rf_id ord) = Some OrderStatusPending)"
    and "if \<not> b then wdb w' = wdb w
      else if oc_RestoreQuota outcome
      then order_released (rf_id ord) (oc_OrderStatus outcome) (wdb w) (wdb w')
      else status_moved (rf_id ord) (oc_OrderStatus outcome) (wdb w) (wdb w')"
proof -
  from assms(1) obtain w1 w2 where eq: "wdb w1 = wdb w" "wdb w' = wdb w2"
    and tx: "applyOutcome_tx s ord outcome w1 = (Inr b, w2)" unfolding applyOutcome_def by (rule InTx_Inr)
  from applyOutcome_tx_Inr [OF tx, unfolded eq(1), OF assms(2)] show "schema_ok (wdb w')"
    and "b = (order_status (wdb w) (rf_id ord) = Some OrderStatusPending)"
    and "if \<not> b then wdb w' = wdb w
      else if oc_RestoreQuota outcome
      then order_released (rf_id ord) (oc_OrderStatus outcome) (wdb w) (wdb w')
      else status_moved (rf_id ord) (oc_OrderStatus outcome) (wdb w) (wdb w')" unfolding eq(2) by blast+
qed

lemma applyOutcome_Inl: "applyOutcome s ord outcome w = (Inl e, w') \<Longrightarrow> wdb w' = wdb w"
  unfolding applyOutcome_def by (rule InTx_Inl)

lemma applyOutcome_evolves:
  assumes "good_outcome outcome" and "ChangesOrder outcome"
  shows "ensures evolves (applyOutcome s ord outcome)"
proof (rule ensuresI)
  fix w r w'
  assume run: "applyOutcome s ord outcome w = (r, w')"
  show "evolves (wdb w) (wdb w')"
  proof (cases "\<exists>b. r = Inr b \<and> b \<and> schema_ok (wdb w)")
    case True
    then have "r = Inr True" and ok: "schema_ok (wdb w)" by auto
    note out = applyOutcome_Inr [OF run [unfolded this(1)] ok]
    from assms have "oc_OrderStatus outcome = OrderStatusPaid \<and> \<not> oc_RestoreQuota outcome \<or>
        oc_OrderStatus outcome \<in> {OrderStatusCancelled, OrderStatusExpired} \<and> oc_RestoreQuota outcome"
      by (auto simp: good_outcome_def)
    with out show ?thesis
      by (auto intro: status_paid_evolves order_released_evolves)
  next
    case False
    then consider "\<not> schema_ok (wdb w)" | e where "r = Inl e" | "schema_ok (wdb w)" "r = Inr False"
      by (cases r) auto
    then show ?thesis
    proof cases
      case 3
      with applyOutcome_Inr(3) [OF run [unfolded 3(2)] 3(1)] show ?thesis by (simp add: evo.G_refl)
    qed (use run in \<open>auto simp: evolves_def orders_evolve_def applyOutcome_Inl evo.G_refl status_path_def\<close>)
  qed
qed

lemma quiet_applyOutcome: "quiet (applyOutcome s ord outcome)"
  unfolding applyOutcome_def applyOutcome_tx_def
  by (intro quiet_intros provider_quiet restore_quiet)

subsection \<open>Every path evolves\<close>

lemma good_expiredOutcome: "good_outcome expiredOutcome" "ChangesOrder expiredOutcome"
  by (simp_all add: expiredOutcome_def good_outcome_def ChangesOrder_def)

lemma expireIfDue_evolves: "ensures evolves (expireIfDue s ord)"
  unfolding expireIfDue_def
  by (intro evolve_intros applyOutcome_evolves good_expiredOutcome)

lemma settle_evolves: "ensures evolves (settle s ord result)"
  unfolding settle_def Let_def fulfillAsync_def
  by (intro evolve_intros applyOutcome_evolves MapProviderStatus_good; simp)

lemma applyProviderResult_evolves: "ensures evolves (applyProviderResult s ord provider result)"
  unfolding applyProviderResult_def by (intro evolve_intros settle_evolves)

lemmas evolving_reads = readonly_evolves [OF number_readonly] readonly_evolves [OF items_readonly]
  readonly_evolves [OF due_readonly] readonly_evolves [OF fetch_readonly]

lemma notification_evolves: "ensures evolves (HandleNotification s provider payload signature)"
  unfolding HandleNotification_def
  by (cases "g_VerifyWebhook (s_gateway s) payload signature")
     (auto intro!: evolve_intros evolving_reads applyProviderResult_evolves)

lemma expire_evolves: "ensures evolves (ExpireDueOrders s)"
  unfolding ExpireDueOrders_def by (intro evolve_intros evolving_reads expireIfDue_evolves)

lemma refresh_evolves: "ensures evolves (RefreshStatus s n)"
  unfolding RefreshStatus_def
  by (intro evolve_intros evolving_reads expireIfDue_evolves applyProviderResult_evolves)

lemma refreshStatus_evolves: "ensures evolves (refreshStatus s n)"
  unfolding refreshStatus_def by (intro evolve_intros refresh_evolves)

lemma webhook_evolves: "ensures evolves (webhook s provider body signature)"
  unfolding webhook_def by (intro evolve_intros notification_evolves)

lemma sweepOnce_evolves: "ensures evolves (sweepOnce s)"
  unfolding sweepOnce_def by (intro evolve_intros expire_evolves)

subsection \<open>Fulfilment is started at most once\<close>

text \<open>
  What settling a result does: nothing, or the one move that the provider's status implies, on an
  order that was pending; a goroutine is started for the order exactly when that move has just made
  it paid.
\<close>

lemma settle_run:
  assumes run: "settle s ord result w = (r, w')" and ok: "schema_ok (wdb w)"
  obtains (unchanged) "wdb w' = wdb w" "fulfillment w' = fulfillment w"
    | (released) st where "order_released (rf_id ord) st (wdb w) (wdb w')" "st \<in> {OrderStatusCancelled, OrderStatusExpired}"
        "oc_OrderStatus (MapProviderStatus (s_lower s) (wr_status result) (wr_fraud result)) = st"
        "fulfillment w' = fulfillment w" "schema_ok (wdb w')"
    | (paid) "status_moved (rf_id ord) OrderStatusPaid (wdb w) (wdb w')" "r = Inr True"
        "oc_OrderStatus (MapProviderStatus (s_lower s) (wr_status result) (wr_fraud result)) = OrderStatusPaid"
        "fulfillment w' = fulfillment w @ [rf_id ord]" "schema_ok (wdb w')"
proof -
  let ?out = "MapProviderStatus (s_lower s) (wr_status result) (wr_fraud result)"
  have good: "good_outcome ?out" by (rule MapProviderStatus_good)
  obtain q w2 where app: "applyOutcome s ord ?out w = (q, w2)" by fastforce
  have quiet2: "fulfillment w2 = fulfillment w" using quietD [OF quiet_applyOutcome app] .
  show thesis
  proof (cases "wdb w' = wdb w \<and> fulfillment w' = fulfillment w")
    case False
    with run app have changes: "ChangesOrder ?out" and res: "q = Inr True" "wdb w' = wdb w2" "r = Inr True"
        "fulfillment w' = (if oc_OrderStatus ?out = OrderStatusPaid then fulfillment w2 @ [rf_id ord] else fulfillment w2)"
      using applyOutcome_Inl [of ord ?out w _ w2] applyOutcome_Inr(3) [of ord ?out w False w2] ok quiet2
      by (auto simp: settle_def bind_run Let_def fulfillAsync_def spawn_def
          split: if_splits sum.splits prod.splits)
    note out = applyOutcome_Inr [OF app [unfolded res(1)] ok]
    show thesis
    proof (cases "oc_OrderStatus ?out = OrderStatusPaid")
      case True
      with good have "\<not> oc_RestoreQuota ?out" by (simp add: good_outcome_def)
      with out True res quiet2 show thesis by (intro paid) auto
    next
      case False
      with good changes have "oc_OrderStatus ?out \<in> {OrderStatusCancelled, OrderStatusExpired}" "oc_RestoreQuota ?out"
        by (auto simp: good_outcome_def)
      with out False res quiet2 show thesis by (intro released) auto
    qed
  qed (blast intro: unchanged)
qed

end

end
