(* ===== verification/Handlers.thy ===== *)
theory Handlers
  imports Event_Service Ticket Admin Order_Views Delivery_Adapters Payment
begin

text \<open>
  What the HTTP handlers of the domains do with echo's context: \<open>internal/event/handler.go\<close> and
  \<open>admin_handler.go\<close>, the rest of \<open>internal/ticket/handler.go\<close> and \<open>internal/admin/handler.go\<close>. A handler
  answers a \<open>reply\<close> or an error, which the error handler turns into one.

  A context is the request with the values of its path parameters. Decoding the body is echo's
  \<open>Bind\<close> and parsing an identifier the UUID package's business: they are the functions of
  \<open>decoders\<close>.
\<close>

section \<open>Requests and replies\<close>

record http_request =
  rq_method :: string
  rq_path :: "string list"
  rq_query :: "(string \<times> string) list"
  rq_authorization :: string
  rq_signature :: string
  rq_body :: "string option"
  rq_ip :: string

record ctx =
  cx_request :: http_request
  cx_params :: "(string \<times> string) list"

definition Param :: "ctx \<Rightarrow> string \<Rightarrow> string" where
  "Param c name = (case map_of (cx_params c) name of None \<Rightarrow> [] | Some v \<Rightarrow> v)"

definition QueryParam :: "ctx \<Rightarrow> string \<Rightarrow> string" where
  "QueryParam c name = (case map_of (rq_query (cx_request c)) name of None \<Rightarrow> [] | Some v \<Rightarrow> v)"

record decoders =
  dc_uuid :: "string \<Rightarrow> goerror + uuid"
  dc_event :: "http_request \<Rightarrow> goerror + EventRequest"
  dc_ticket_type :: "http_request \<Rightarrow> goerror + TicketTypeRequest"
  dc_checkout :: "http_request \<Rightarrow> goerror + CheckoutRequest"
  dc_validate :: "http_request \<Rightarrow> goerror + string"
  dc_login :: "http_request \<Rightarrow> goerror + LoginRequest"

datatype reply_body =
    EventsBody "EventSummary list" | EventBody EventDetail
  | AdminEventsBody "EventAdminView list" | AdminEventBody EventAdminView
  | AdminEventDetailBody EventAdminDetail
  | TicketTypesBody "TicketTypeAdminView list" | TicketTypeBody TicketTypeAdminView
  | PlacedBody OrderResponse | OrderPageBody PublicOrderDetail | PngBody string
  | OrdersBody "OrderSummary list" | AttendeesBody "AttendeeSummary list"
  | RefreshBody refreshResponse
  | ValidationBody ValidationResult | UsedBody MarkUsedResponse | TicketBody PublicTicket
  | ResentBody ResendResponse | TokenBody LoginResponse
  | HealthBody | ErrorBody Body | NoBody

record reply =
  re_status :: int
  re_cache :: "string option"
  re_body :: reply_body

definition JSON :: "int \<Rightarrow> reply_body \<Rightarrow> reply go" where
  "JSON st b = ret \<lparr>re_status = st, re_cache = None, re_body = b\<rparr>"

definition NoContent :: "int \<Rightarrow> reply go" where
  "NoContent st = ret \<lparr>re_status = st, re_cache = None, re_body = NoBody\<rparr>"

section \<open>Events for guests\<close>

definition listEvents :: "reply go" where
  "listEvents = bind ListPublishedEvents (\<lambda>es. JSON 200 (EventsBody es))"

definition getEventBySlug :: "ctx \<Rightarrow> reply go" where
  "getEventBySlug c = bind (GetPublishedEventBySlug (Param c ''slug'')) (\<lambda>detail. JSON 200 (EventBody detail))"

section \<open>Binding\<close>

definition pathUUID :: "decoders \<Rightarrow> ctx \<Rightarrow> string \<Rightarrow> goerror + uuid" where
  "pathUUID dc c name =
     (case dc_uuid dc (Param c name) of
        Inl err \<Rightarrow> Inl (Wrap err 400 CodeValidation (text_msg (name @ '' must be a UUID.'')))
      | Inr i \<Rightarrow> Inr i)"

definition bindEventRequest :: "decoders \<Rightarrow> ctx \<Rightarrow> goerror + EventRequest" where
  "bindEventRequest dc c =
     (case dc_event dc (cx_request c) of
        Inl err \<Rightarrow> Inl (Wrap err 400 CodeValidation (text_msg ''The request body could not be parsed.''))
      | Inr req \<Rightarrow> Inr req)"

definition bindTicketTypeRequest :: "decoders \<Rightarrow> ctx \<Rightarrow> goerror + TicketTypeRequest" where
  "bindTicketTypeRequest dc c =
     (case dc_ticket_type dc (cx_request c) of
        Inl err \<Rightarrow> Inl (Wrap err 400 CodeValidation (text_msg ''The request body could not be parsed.''))
      | Inr req \<Rightarrow> Inr req)"

section \<open>Events for admins\<close>

definition adminListEvents :: "reply go" where
  "adminListEvents = bind ListEvents (\<lambda>es. JSON 200 (AdminEventsBody es))"

definition adminCreateEvent :: "decoders \<Rightarrow> ctx \<Rightarrow> reply go" where
  "adminCreateEvent dc c =
     bind (lift (bindEventRequest dc c)) (\<lambda>req.
     bind (CreateEvent req) (\<lambda>created. JSON 201 (AdminEventBody created)))"

definition adminGetEvent :: "OrderChecker option \<Rightarrow> decoders \<Rightarrow> ctx \<Rightarrow> reply go" where
  "adminGetEvent oc dc c =
     bind (lift (pathUUID dc c ''id'')) (\<lambda>i.
     bind (GetEventDetail oc i) (\<lambda>detail. JSON 200 (AdminEventDetailBody detail)))"

definition adminUpdateEvent :: "decoders \<Rightarrow> ctx \<Rightarrow> reply go" where
  "adminUpdateEvent dc c =
     bind (lift (pathUUID dc c ''id'')) (\<lambda>i.
     bind (lift (bindEventRequest dc c)) (\<lambda>req.
     bind (UpdateEvent i req) (\<lambda>updated. JSON 200 (AdminEventBody updated))))"

definition adminDeleteEvent :: "OrderChecker option \<Rightarrow> decoders \<Rightarrow> ctx \<Rightarrow> reply go" where
  "adminDeleteEvent oc dc c =
     bind (lift (pathUUID dc c ''id'')) (\<lambda>i.
     bind (DeleteEvent oc i) (\<lambda>_. NoContent 204))"

definition adminListTicketTypes :: "OrderChecker option \<Rightarrow> decoders \<Rightarrow> ctx \<Rightarrow> reply go" where
  "adminListTicketTypes oc dc c =
     (let raw = QueryParam c ''event_id'' in
      if raw = [] then fail (BadRequest CodeValidation (text_msg ''event_id is required.''))
      else case dc_uuid dc raw of
        Inl err \<Rightarrow> fail (Wrap err 400 CodeValidation (text_msg ''event_id must be a UUID.''))
      | Inr eventID \<Rightarrow> bind (ListTicketTypes oc eventID) (\<lambda>types. JSON 200 (TicketTypesBody types)))"

definition adminCreateTicketType :: "decoders \<Rightarrow> ctx \<Rightarrow> reply go" where
  "adminCreateTicketType dc c =
     bind (lift (bindTicketTypeRequest dc c)) (\<lambda>req.
     bind (CreateTicketType req) (\<lambda>created. JSON 201 (TicketTypeBody created)))"

definition adminGetTicketType :: "OrderChecker option \<Rightarrow> decoders \<Rightarrow> ctx \<Rightarrow> reply go" where
  "adminGetTicketType oc dc c =
     bind (lift (pathUUID dc c ''id'')) (\<lambda>i.
     bind (GetTicketType oc i) (\<lambda>got. JSON 200 (TicketTypeBody got)))"

definition adminUpdateTicketType :: "OrderChecker option \<Rightarrow> decoders \<Rightarrow> ctx \<Rightarrow> reply go" where
  "adminUpdateTicketType oc dc c =
     bind (lift (pathUUID dc c ''id'')) (\<lambda>i.
     bind (lift (bindTicketTypeRequest dc c)) (\<lambda>req.
     bind (UpdateTicketType oc i req) (\<lambda>updated. JSON 200 (TicketTypeBody updated))))"

definition adminDeleteTicketType :: "OrderChecker option \<Rightarrow> decoders \<Rightarrow> ctx \<Rightarrow> reply go" where
  "adminDeleteTicketType oc dc c =
     bind (lift (pathUUID dc c ''id'')) (\<lambda>i.
     bind (DeleteTicketType oc i) (\<lambda>_. NoContent 204))"

section \<open>Tickets\<close>

definition markUsed_handler :: "(string \<Rightarrow> string) \<Rightarrow> ctx \<Rightarrow> reply go" where
  "markUsed_handler uc c = bind (MarkUsed uc (Param c ''code'')) (\<lambda>resp. JSON 200 (UsedBody resp))"

definition lookup_handler :: "(string \<Rightarrow> string) \<Rightarrow> ctx \<Rightarrow> reply go" where
  "lookup_handler uc c = bind (LookupPublic uc (Param c ''code'')) (\<lambda>got. JSON 200 (TicketBody got))"

section \<open>Login and health\<close>

definition login :: "auth_lib \<Rightarrow> TokenIssuer \<Rightarrow> decoders \<Rightarrow> ctx \<Rightarrow> reply go" where
  "login lib t dc c =
     (case dc_login dc (cx_request c) of
        Inl err \<Rightarrow> fail (Wrap err 400 CodeValidation (text_msg ''The request body could not be parsed.''))
      | Inr req \<Rightarrow> bind (Login lib t req) (\<lambda>resp. JSON 200 (TokenBody resp)))"

text \<open>\<open>pool.Ping\<close> is a round trip to the database that asks for nothing.\<close>

definition healthz :: "reply go" where
  "healthz =
     handle (query (\<lambda>_. ()))
       (\<lambda>err. fail (Wrap err 503 ''DATABASE_UNAVAILABLE'' (text_msg ''The database is not reachable.'')))
       (\<lambda>_. JSON 200 HealthBody)"

section \<open>What the handlers guarantee\<close>

named_theorems orders_intros \<open>operations under which the orders evolve, whatever happens to the inventory\<close>

lemmas [orders_intros] = orders_evo.ensures_rules

lemma reply_frames [readonly_intros]: "readonly (JSON st b)" "readonly (NoContent st)"
  unfolding JSON_def NoContent_def by (intro readonly_intros)+

lemma reply_evolves [evolve_intros]: "ensures evolves (JSON st b)" "ensures evolves (NoContent st)"
  by (simp_all add: readonly_evolves readonly_intros)

lemma reply_orders [orders_intros]: "ensures orders_evolve (JSON st b)" "ensures orders_evolve (NoContent st)"
  unfolding JSON_def NoContent_def by (intro orders_intros)+

lemma evolves_ensures_orders: "ensures evolves m \<Longrightarrow> ensures orders_evolve m"
  by (simp add: ensures_def evolves_orders)

lemma readonly_ensures_orders: "readonly m \<Longrightarrow> ensures orders_evolve m"
  by (intro evolves_ensures_orders readonly_evolves)

subsection \<open>The admin's edits of the inventory\<close>

lemma inventory_orders_evolve:
  assumes "orders d' = orders d" and "order_items d' = order_items d" and "schema_ok d \<Longrightarrow> schema_ok d'"
  shows "orders_evolve d d'"
  using assms by (auto simp: orders_evolve_def status_path_def order_status_def lines_of_def)

lemma event_sql_frame:
  "sql_CreateEvent p i t d = Inr (e, d') \<Longrightarrow> orders d' = orders d \<and> order_items d' = order_items d"
  "sql_UpdateEvent j p i t d = Inr (e, d') \<Longrightarrow> orders d' = orders d \<and> order_items d' = order_items d"
  "sql_DeleteTicketTypesByEventID j i t d = Inr (n, d') \<Longrightarrow> orders d' = orders d \<and> order_items d' = order_items d"
  "sql_DeleteEvent j i t d = Inr (n, d') \<Longrightarrow> orders d' = orders d \<and> order_items d' = order_items d"
  "sql_CreateTicketType q i t d = Inr (tt, d') \<Longrightarrow> orders d' = orders d \<and> order_items d' = order_items d"
  "sql_UpdateTicketType j q i t d = Inr (tt, d') \<Longrightarrow> orders d' = orders d \<and> order_items d' = order_items d"
  "sql_DeleteTicketType j i t d = Inr (n, d') \<Longrightarrow> orders d' = orders d \<and> order_items d' = order_items d"
  by (auto simp: sql_CreateEvent_def sql_UpdateEvent_def sql_DeleteTicketTypesByEventID_def sql_DeleteEvent_def
      sql_CreateTicketType_def sql_UpdateTicketType_def sql_DeleteTicketType_def Let_def
      split: if_splits option.splits)

lemma inventory_writes [orders_intros]:
  "ensures orders_evolve (event_CreateEvent p)"
  "ensures orders_evolve (event_UpdateEvent i p)"
  "ensures orders_evolve (event_DeleteTicketTypesByEventID i)"
  "ensures orders_evolve (event_DeleteEvent i)"
  "ensures orders_evolve (event_CreateTicketType tp)"
  "ensures orders_evolve (event_UpdateTicketType i tp)"
  "ensures orders_evolve (event_DeleteTicketType i)"
  unfolding event_CreateEvent_def event_UpdateEvent_def event_DeleteTicketTypesByEventID_def event_DeleteEvent_def
    event_CreateTicketType_def event_UpdateTicketType_def event_DeleteTicketType_def
  by (intro orders_intros orders_evo.ensures_stmt inventory_orders_evolve;
      auto dest: event_sql_frame schema_event_sql)+

lemmas [readonly_intros] = order_guards.one_readonly order_guards.many_readonly order_guards.sold_readonly

lemma event_admin_reads [readonly_intros]:
  "readonly ListEvents" "readonly (event_GetEventByID i)" "readonly (ListTicketTypes (Some orderChecker) i)"
  "readonly (withSoldCounts (Some orderChecker) rows)" "readonly (GetEventDetail (Some orderChecker) i)"
  "readonly (GetTicketType (Some orderChecker) i)" "readonly ListPublishedEvents"
  "readonly (GetPublishedEventBySlug slug)"
  unfolding ListEvents_def event_ListEvents_def ListTicketTypes_def withSoldCounts_def GetEventDetail_def
    GetTicketType_def ListPublishedEvents_def event_ListPublishedEvents_def GetPublishedEventBySlug_def
    event_GetPublishedEventBySlug_def event_ListTicketTypesByEventID_def
  by (simp_all only: option.case) (intro readonly_intros)+

lemmas [orders_intros] = event_admin_reads [THEN readonly_ensures_orders] readonly_event_reads [THEN readonly_ensures_orders]
  readonly_check [THEN readonly_ensures_orders] order_guards.one_readonly [THEN readonly_ensures_orders]
  order_guards.many_readonly [THEN readonly_ensures_orders]

lemma inventory_service [orders_intros]:
  "ensures orders_evolve (CreateEvent req)" "ensures orders_evolve (UpdateEvent i req)"
  "ensures orders_evolve (DeleteEvent (Some orderChecker) i)" "ensures orders_evolve (CreateTicketType treq)"
  "ensures orders_evolve (UpdateTicketType (Some orderChecker) i treq)"
  "ensures orders_evolve (DeleteTicketType (Some orderChecker) i)"
  unfolding CreateEvent_def UpdateEvent_def DeleteEvent_alone CreateTicketType_def UpdateTicketType_def
    DeleteTicketType_alone option.case
  by (intro orders_intros)+

end
