(* ===== verification/Order_Adapters.thy ===== *)
theory Order_Adapters
  imports Checkout
begin

text \<open>
  \<open>cmd/api/adapters.go\<close>, the adapter that gives checkout its view of the event domain, and the
  proof that the event service behind it keeps the contract checkout relies on.
\<close>

definition eventProviderAdapter :: EventProvider where
  "eventProviderAdapter =
     \<lparr>ep_TicketTypeForCheckout = (\<lambda>i.
        bind (GetTicketTypeForCheckout i) (\<lambda>row.
        ret \<lparr>ti_id = ttr_id row, ti_event = ttr_event row, ti_name = ttr_name row,
             ti_price = ttr_price row, ti_sales_start = ttr_sales_start row,
             ti_sales_end = ttr_sales_end row\<rparr>)),
      ep_CheckAndDeductQuota = (\<lambda>i qty.
        handle (CheckAndDeductQuota i qty)
          (\<lambda>err. if errors_Is err ErrInsufficientQuota then fail order_ErrInsufficientQuota else fail err)
          ret),
      ep_RestoreQuota = (\<lambda>i qty. RestoreQuota i qty)\<rparr>"

interpretation event_quota: quota_restorer RestoreQuota
proof
  fix t q w u w'
  show "RestoreQuota t q w = (Inr u, w') \<Longrightarrow> schema_ok (wdb w) \<Longrightarrow> quota_moved t (sint q) (wdb w) (wdb w')"
    by (rule RestoreQuota_Inr)
qed (intro keeps_intros quiet_intros)+

interpretation events: event_provider eventProviderAdapter
proof
  fix t q w u w' info
  show "ep_RestoreQuota eventProviderAdapter t q w = (Inr u, w') \<Longrightarrow> schema_ok (wdb w) \<Longrightarrow>
      quota_moved t (sint q) (wdb w) (wdb w')"
    by (simp add: eventProviderAdapter_def RestoreQuota_Inr)
  show "ep_CheckAndDeductQuota eventProviderAdapter t q w = (Inr u, w') \<Longrightarrow> schema_ok (wdb w) \<Longrightarrow>
      quota_moved t (- sint q) (wdb w) (wdb w')"
    by (auto simp: eventProviderAdapter_def handle_Inr CheckAndDeductQuota_Inr split: if_splits)
  show "ep_TicketTypeForCheckout eventProviderAdapter t w = (Inr info, w') \<Longrightarrow>
      \<exists>r. find (\<lambda>r. tt_id r = t) (ticket_types (wdb w)) = Some r \<and> ti_price info = tt_price r \<and>
        ti_name info = tt_name r \<and> ti_sales_start info = tt_sales_start r \<and> ti_sales_end info = tt_sales_end r"
    by (auto simp: eventProviderAdapter_def bind_Inr toTicketTypeRow_def dest!: GetTicketTypeForCheckout_Inr)
qed (simp_all add: eventProviderAdapter_def, (intro keeps_intros quiet_intros readonly_intros row_intros)+)

end
