(* ===== verification/View_Adapters.thy ===== *)
theory View_Adapters
  imports Order_Views Order_Adapters Sample
begin

text \<open>
  \<open>cmd/api/adapters.go\<close>, the adapter that gives the order views their view of the event domain; the
  proof that it keeps the contract of \<open>event_lookup\<close>, and what the views show.
\<close>

definition orderEventLookupAdapter :: EventLookup where
  "orderEventLookupAdapter =
     \<lparr>el_TicketTypeNames = TicketTypeNames,
      el_TicketTypeIDsForEvent = TicketTypeIDsForEvent,
      el_TicketTypeDisplays = (\<lambda>ids.
        bind (TicketTypeDisplays ids) (\<lambda>records.
        ret (\<lambda>i. case records i of
             None \<Rightarrow> None
           | Some r \<Rightarrow> Some \<lparr>dy_type_name = td_type_name r, dy_event_name = td_event_name r,
                           dy_event_slug = td_event_slug r\<rparr>)))\<rparr>"

lemma fold_upd_notin:
  "x \<notin> k ` set rows \<Longrightarrow> fold (\<lambda>r m. m(k r \<mapsto> v r)) rows m x = m x"
  by (induction rows arbitrary: m) auto

lemma fold_upd_lookup:
  assumes "\<And>r. r \<in> set rows \<Longrightarrow> k r = x \<Longrightarrow> v r = y" and "x \<in> k ` set rows"
  shows "fold (\<lambda>r m. m(k r \<mapsto> v r)) rows m x = Some y"
  using assms
proof (induction rows arbitrary: m)
  case (Cons s rows)
  show ?case
  proof (cases "x \<in> k ` set rows")
    case True
    with Cons show ?thesis by simp
  next
    case False
    with Cons.prems have "k s = x" "v s = y" by auto
    with False show ?thesis by (simp add: fold_upd_notin del: fun_upd_apply) simp
  qed
qed simp

lemma schema_event_unique:
  "schema_ok d \<Longrightarrow> r \<in> set (events d) \<Longrightarrow> r' \<in> set (events d) \<Longrightarrow> ev_id r = ev_id r' \<Longrightarrow> r = r'"
  by (auto simp: schema_ok_def keys_ok_def dest: distinct_map_inj)

lemma type_names_fold:
  "fold (\<lambda>(i, name) m. m(i \<mapsto> name)) rows m = fold (\<lambda>r m. m(fst r \<mapsto> snd r)) rows m"
  by (induction rows arbitrary: m) auto

lemma type_displays_fold:
  "fold (\<lambda>(i, n, en, sl) m. m(i \<mapsto> \<lparr>td_type_name = n, td_event_name = en, td_event_slug = sl\<rparr>)) rows m =
   fold (\<lambda>r m. m(fst r \<mapsto> \<lparr>td_type_name = fst (snd r), td_event_name = fst (snd (snd r)),
                        td_event_slug = snd (snd (snd r))\<rparr>)) rows m"
  by (induction rows arbitrary: m) auto

lemma TicketTypeNames_Inr:
  assumes run: "TicketTypeNames ids w = (Inr m, w')" and ok: "schema_ok (wdb w)"
    and t: "t \<in> set (ticket_types (wdb w))" "tt_id t \<in> set ids"
  shows "m (tt_id t) = Some (tt_name t)"
proof -
  from run t(2) obtain s where
    m: "m = fold (\<lambda>r m. m(fst r \<mapsto> snd r)) (sql_ListTicketTypeNamesByIDs ids s (wdb w)) Map.empty"
    by (auto simp: TicketTypeNames_def event_TicketTypeNamesByIDs_def bind_Inr type_names_fold split: if_splits
        dest!: query_rows_Inr)
  have "snd r = tt_name t" if "r \<in> set (sql_ListTicketTypeNamesByIDs ids s (wdb w))" "fst r = tt_id t" for r
    using that schema_type_unique [OF ok t(1)] by (fastforce simp: sql_ListTicketTypeNamesByIDs_def)
  moreover have "tt_id t \<in> fst ` set (sql_ListTicketTypeNamesByIDs ids s (wdb w))"
    using t by (force simp: sql_ListTicketTypeNamesByIDs_def)
  ultimately show ?thesis unfolding m by (simp add: fold_upd_lookup)
qed

lemma TicketTypeDisplays_Inr:
  assumes run: "TicketTypeDisplays ids w = (Inr m, w')" and ok: "schema_ok (wdb w)"
    and t: "t \<in> set (ticket_types (wdb w))" "tt_id t \<in> set ids"
    and e: "e \<in> set (events (wdb w))" "ev_id e = tt_event t"
  shows "m (tt_id t) = Some \<lparr>td_type_name = tt_name t, td_event_name = ev_name e, td_event_slug = ev_slug e\<rparr>"
proof -
  from run t(2) obtain s where
    m: "m = fold (\<lambda>r m. m(fst r \<mapsto> \<lparr>td_type_name = fst (snd r), td_event_name = fst (snd (snd r)),
      td_event_slug = snd (snd (snd r))\<rparr>)) (sql_ListTicketTypeDisplaysByIDs ids s (wdb w)) Map.empty"
    by (auto simp: TicketTypeDisplays_def event_TicketTypeDisplaysByIDs_def bind_Inr type_displays_fold
        split: if_splits dest!: query_rows_Inr)
  let ?rows = "sql_ListTicketTypeDisplaysByIDs ids s (wdb w)"
  have "r = (tt_id t, tt_name t, ev_name e, ev_slug e)" if "r \<in> set ?rows" "fst r = tt_id t" for r
    using that schema_type_unique [OF ok t(1)] schema_event_unique [OF ok e(1)] e(2)
    by (fastforce simp: sql_ListTicketTypeDisplaysByIDs_def)
  moreover have "tt_id t \<in> fst ` set ?rows"
    using t e by (force simp: sql_ListTicketTypeDisplaysByIDs_def)
  ultimately show ?thesis unfolding m by (intro fold_upd_lookup) auto
qed

interpretation event_views: event_lookup orderEventLookupAdapter
proof
  fix ids i w w' idl m dm t e
  show "readonly (el_TicketTypeNames orderEventLookupAdapter ids)"
    "readonly (el_TicketTypeIDsForEvent orderEventLookupAdapter i)"
    "readonly (el_TicketTypeDisplays orderEventLookupAdapter ids)"
    by (simp_all add: orderEventLookupAdapter_def readonly_intros)
  show "el_TicketTypeIDsForEvent orderEventLookupAdapter i w = (Inr idl, w') \<Longrightarrow>
      set idl = {tt_id t | t. t \<in> set (ticket_types (wdb w)) \<and> tt_event t = i}"
    by (auto simp: orderEventLookupAdapter_def TicketTypeIDsForEvent_def event_ListTicketTypeIDsByEventID_def
        sql_ListTicketTypeIDsByEventID_def dest!: query_rows_Inr)
  show "el_TicketTypeNames orderEventLookupAdapter ids w = (Inr m, w') \<Longrightarrow> schema_ok (wdb w) \<Longrightarrow>
      t \<in> set (ticket_types (wdb w)) \<Longrightarrow> tt_id t \<in> set ids \<Longrightarrow> m (tt_id t) = Some (tt_name t)"
    by (simp add: orderEventLookupAdapter_def TicketTypeNames_Inr)
  show "el_TicketTypeDisplays orderEventLookupAdapter ids w = (Inr dm, w') \<Longrightarrow> schema_ok (wdb w) \<Longrightarrow>
      t \<in> set (ticket_types (wdb w)) \<Longrightarrow> tt_id t \<in> set ids \<Longrightarrow> e \<in> set (events (wdb w)) \<Longrightarrow>
      ev_id e = tt_event t \<Longrightarrow>
      dm (tt_id t) = Some \<lparr>dy_type_name = tt_name t, dy_event_name = ev_name e, dy_event_slug = ev_slug e\<rparr>"
    by (auto simp: orderEventLookupAdapter_def bind_Inr dest!: TicketTypeDisplays_Inr)
qed

lemma schema_find_event:
  "schema_ok d \<Longrightarrow> r \<in> set (events d) \<Longrightarrow> find (\<lambda>x. ev_id x = ev_id r) (events d) = Some r"
  by (auto simp: schema_ok_def keys_ok_def intro: find_key_unique)

lemma schema_number_unique:
  "schema_ok d \<Longrightarrow> r \<in> set (orders d) \<Longrightarrow> r' \<in> set (orders d) \<Longrightarrow> ord_number r = ord_number r' \<Longrightarrow> r = r'"
  by (auto simp: schema_ok_def keys_ok_def dest: distinct_map_inj)

section \<open>The guest's page\<close>

text \<open>An order is payable while it is pending, has an instruction and its deadline lies ahead.\<close>

definition payable :: "order_row \<Rightarrow> gotime \<Rightarrow> bool" where
  "payable row t \<longleftrightarrow> ord_status row = OrderStatusPending \<and>
     (case ord_qr_string row of None \<Rightarrow> False | Some qr \<Rightarrow> qr \<noteq> []) \<and>
     (case ord_expires_at row of None \<Rightarrow> False | Some deadline \<Rightarrow> t < deadline)"

lemma instruction_iff_payable:
  "paymentInstruction (toOrderRecord row) t =
   (if payable row t then Some \<lparr>py_method = paymentMethod,
        py_provider = (case ord_provider row of None \<Rightarrow> [] | Some p \<Rightarrow> p), py_amount = ord_total row,
        py_expires_at = the (ord_expires_at row), py_image_path = QRImagePath (ord_number row)\<rparr> else None)"
  by (auto simp: paymentInstruction_def payable_def toOrderRecord_def split: option.splits)

lemma or_qr_string_toOrderRecord [simp]: "or_qr_string (toOrderRecord row) = ord_qr_string row"
  by (simp add: toOrderRecord_def)

lemma GetOrderByNumber_run:
  "order_GetOrderByNumber n w =
   (if faults w (tick w) then Inl (Errorf (text_msg ''get order by number: %w'') [DriverError ''database''])
    else case sql_GetOrderByNumber n (wdb w) of
      None \<Rightarrow> Inl order_ErrNotFound | Some row \<Rightarrow> Inr (toOrderRecord row), step_tick w)"
  by (simp add: order_GetOrderByNumber_def bind_run row_or_def handle_def query_row_def stmt_def step_tick_def
      split: option.splits)

lemma OrderByNumber_Inr:
  assumes "OrderByNumber lk n w = (Inr detail, w')"
  obtains row s items dm t w1 w2 where "sql_GetOrderByNumber n (wdb w) = Some row" and "wdb w1 = wdb w"
    and "items = map toOrderItemRecord (sql_ListOrderItemsByOrderID (ord_id row) s (wdb w))"
    and "ticketTypeDisplays lk items w1 = (Inr dm, w2)"
    and "detail = \<lparr>po_number = ord_number row, po_status = ord_status row, po_total = ord_total row,
          po_buyer_name = ord_buyer_name row, po_buyer_email = ord_buyer_email row,
          po_created_at = ord_created_at row, po_event = eventOf items dm,
          po_items = publicItems items dm, po_server_time = t,
          po_payment = paymentInstruction (toOrderRecord row) t\<rparr>"
  using assms
  by (auto simp: OrderByNumber_def handle_Inr bind_Inr GetOrderByNumber_run order_ListOrderItemsByOrderID_def now_def
      toOrderRecord_def split: if_splits option.splits dest!: query_rows_Inr)

text \<open>
  C27: The guest's page reads without writing and shows the one order with the number asked for. It
  carries a payment instruction exactly when that order is payable at the server time the page
  reports: pending, with a QR payload recorded and its deadline still ahead. The instruction's
  amount and deadline are the order's.
\<close>

theorem page_shows_payment_iff_payable:
  assumes "orderDetail orderEventLookupAdapter n w = (Inr (cache, detail), w')"
  shows "wdb w' = wdb w \<and> cache = ''no-store'' \<and>
    (\<exists>row \<in> set (orders (wdb w)). ord_number row = n \<and> po_number detail = n \<and>
       po_status detail = ord_status row \<and> po_total detail = ord_total row \<and>
       (po_payment detail \<noteq> None) = payable row (po_server_time detail) \<and>
       (case po_payment detail of None \<Rightarrow> True
        | Some p \<Rightarrow> py_amount p = ord_total row \<and> ord_expires_at row = Some (py_expires_at p) \<and>
            po_server_time detail < py_expires_at p))"
proof -
  from assms obtain w1 where run: "OrderByNumber orderEventLookupAdapter n w = (Inr detail, w1)"
    and w': "w1 = w'" "cache = ''no-store''" by (auto simp: orderDetail_def bind_Inr)
  from run obtain row where row: "sql_GetOrderByNumber n (wdb w) = Some row"
    and "po_number detail = ord_number row" "po_status detail = ord_status row" "po_total detail = ord_total row"
      "po_payment detail = paymentInstruction (toOrderRecord row) (po_server_time detail)"
    by (elim OrderByNumber_Inr) simp
  moreover from row have "row \<in> set (orders (wdb w))" "ord_number row = n"
    by (auto simp: sql_GetOrderByNumber_def dest: find_SomeD)
  moreover have "wdb w' = wdb w" using readonlyD [OF event_views.readonly_OrderByNumber run] w' by simp
  ultimately show ?thesis using w'
    by (intro conjI bexI [of _ row]) (auto simp: instruction_iff_payable payable_def split: option.splits)
qed

definition sample_early :: world where
  "sample_early = sample_world\<lparr>clock := (\<lambda>_. 3)\<rparr>"

theorem page_shows_payment_iff_payable_witness:
  "\<exists>detail w'. orderDetail orderEventLookupAdapter ''ORD-A'' sample_early = (Inr (''no-store'', detail), w') \<and>
     po_payment detail \<noteq> None \<and> payable sample_order (po_server_time detail)"
proof -
  have "case fst (orderDetail orderEventLookupAdapter ''ORD-A'' sample_early) of
      Inl _ \<Rightarrow> False | Inr (c, d) \<Rightarrow> c = ''no-store'' \<and> po_payment d \<noteq> None" by code_simp
  then obtain d w' where run: "orderDetail orderEventLookupAdapter ''ORD-A'' sample_early = (Inr (''no-store'', d), w')"
    and pay: "po_payment d \<noteq> None" by (auto split: sum.splits prod.splits simp: prod_eq_iff)
  have "row = sample_order" if "row \<in> set (orders (wdb sample_early))" "ord_number row = ''ORD-A''" for row
    using that by (auto simp: sample_early_def sample_world_def sample_db_def sample_order_def)
  with page_shows_payment_iff_payable [OF run] run pay show ?thesis by blast
qed

text \<open>
  C28: What the QR image endpoint answers, the database being reachable, is decided by the order and
  the clock: the image of the recorded payload while the order is payable, and otherwise the same
  404 as for an order number that does not exist.
\<close>

theorem qr_image_exact:
  assumes "\<not> faults w (tick w)"
  shows "fst (qrImage encode n w) =
    (case sql_GetOrderByNumber n (wdb w) of
       None \<Rightarrow> Inl (NotFound CodeOrderNotFound orderNotFoundMessage)
     | Some row \<Rightarrow>
         if payable row (clock w (Suc (tick w)))
         then (case encode (the (ord_qr_string row)) of Inl e \<Rightarrow> Inl e | Inr png \<Rightarrow> Inr (''private, max-age=60'', png))
         else Inl (NotFound CodeOrderNotFound orderNotFoundMessage))"
proof (cases "sql_GetOrderByNumber n (wdb w)")
  case None
  with assms show ?thesis
    by (simp add: qrImage_def PaymentQRPayload_def bind_run handle_def GetOrderByNumber_run)
next
  case (Some row)
  have t: "now (step_tick w) = (Inr (clock w (Suc (tick w))), step_tick (step_tick w))"
    by (simp add: now_def step_tick_def)
  show ?thesis
  proof (cases "payable row (clock w (Suc (tick w)))")
    case True
    then obtain qr where "ord_qr_string row = Some qr" by (auto simp: payable_def split: option.splits)
    with True Some assms show ?thesis
      by (cases "encode qr") (simp_all add: qrImage_def PaymentQRPayload_def bind_run handle_def GetOrderByNumber_run t
          instruction_iff_payable)
  next
    case False
    with Some assms show ?thesis
      by (simp add: qrImage_def PaymentQRPayload_def bind_run handle_def GetOrderByNumber_run t instruction_iff_payable)
  qed
qed

theorem qr_image_exact_witness:
  "fst (qrImage Inr ''ORD-A'' sample_early) = Inr (''private, max-age=60'', ''QR'') \<and>
   fst (qrImage Inr ''ORD-A'' sample_world) = Inl (NotFound CodeOrderNotFound orderNotFoundMessage) \<and>
   fst (qrImage Inr ''ORD-X'' sample_world) = Inl (NotFound CodeOrderNotFound orderNotFoundMessage)"
proof -
  have up: "\<not> faults sample_early (tick sample_early)" "\<not> faults sample_world (tick sample_world)"
    by (simp_all add: sample_early_def sample_world_def)
  have rows: "sql_GetOrderByNumber ''ORD-A'' (wdb sample_early) = Some sample_order"
    "sql_GetOrderByNumber ''ORD-A'' (wdb sample_world) = Some sample_order"
    "sql_GetOrderByNumber ''ORD-X'' (wdb sample_world) = None" by code_simp+
  have "payable sample_order (clock sample_early (Suc (tick sample_early)))"
    "\<not> payable sample_order (clock sample_world (Suc (tick sample_world)))" by code_simp+
  then show ?thesis
    using qr_image_exact [OF up(1), of Inr "''ORD-A''"] qr_image_exact [OF up(2), of Inr "''ORD-A''"]
      qr_image_exact [OF up(2), of Inr "''ORD-X''"]
    by (simp add: rows sample_order_def)
qed

section \<open>The lines of the page\<close>

definition order_rows :: "database \<Rightarrow> uuid \<Rightarrow> item_row list" where
  "order_rows d i = filter (\<lambda>r. it_order r = i) (order_items d)"

definition order_value :: "database \<Rightarrow> uuid \<Rightarrow> decimal" where
  "order_value d i = (\<Sum>r \<leftarrow> order_rows d i. it_price r * of_int (it_qty r))"

definition type_name_in :: "database \<Rightarrow> uuid \<Rightarrow> string" where
  "type_name_in d i = (case find (\<lambda>t. tt_id t = i) (ticket_types d) of None \<Rightarrow> [] | Some t \<Rightarrow> tt_name t)"

definition event_of_type :: "database \<Rightarrow> uuid \<Rightarrow> PublicOrderEvent" where
  "event_of_type d i =
     (case find (\<lambda>t. tt_id t = i) (ticket_types d) of
        None \<Rightarrow> \<lparr>pe_name = [], pe_slug = []\<rparr>
      | Some t \<Rightarrow> (case find (\<lambda>e. ev_id e = tt_event t) (events d) of
            None \<Rightarrow> \<lparr>pe_name = [], pe_slug = []\<rparr>
          | Some e \<Rightarrow> \<lparr>pe_name = ev_name e, pe_slug = ev_slug e\<rparr>))"

lemma schema_type_event:
  assumes ok: "schema_ok d" and "r \<in> set (order_items d)"
  obtains t e where "t \<in> set (ticket_types d)" "tt_id t = it_type r" "e \<in> set (events d)" "ev_id e = tt_event t"
    "type_name_in d (it_type r) = tt_name t" "event_of_type d (it_type r) = \<lparr>pe_name = ev_name e, pe_slug = ev_slug e\<rparr>"
proof -
  from assms obtain t where t: "t \<in> set (ticket_types d)" "tt_id t = it_type r"
    by (auto simp: schema_ok_def fks_ok_def)
  with ok obtain e where e: "e \<in> set (events d)" "ev_id e = tt_event t"
    by (force simp: schema_ok_def fks_ok_def)
  have "find (\<lambda>x. tt_id x = it_type r) (ticket_types d) = Some t"
    using schema_find_type [OF ok t(1)] t(2) by simp
  moreover have "find (\<lambda>x. ev_id x = tt_event t) (events d) = Some e"
    using schema_find_event [OF ok e(1)] e(2) by simp
  ultimately show thesis using that t e by (simp add: type_name_in_def event_of_type_def)
qed

lemma page_displays:
  assumes run: "ticketTypeDisplays orderEventLookupAdapter (map toOrderItemRecord rs) w = (Inr dm, w')"
    and ok: "schema_ok (wdb w)" and rs: "set rs \<subseteq> set (order_items (wdb w))" and r: "r \<in> set rs"
  shows "\<exists>dy. dm (it_type r) = Some dy \<and> dy_type_name dy = type_name_in (wdb w) (it_type r) \<and>
      \<lparr>pe_name = dy_event_name dy, pe_slug = dy_event_slug dy\<rparr> = event_of_type (wdb w) (it_type r)"
proof -
  let ?ids = "collect_ids oi_type (map toOrderItemRecord rs) [] []"
  from run r have run': "el_TicketTypeDisplays orderEventLookupAdapter ?ids w = (Inr dm, w')"
    by (auto simp: ticketTypeDisplays_def split: if_splits)
  have "it_type r \<in> set ?ids" using r by (force simp: collect_ids_set toOrderItemRecord_def)
  moreover from rs r have "r \<in> set (order_items (wdb w))" by blast
  then obtain t e where "t \<in> set (ticket_types (wdb w))" "tt_id t = it_type r" "e \<in> set (events (wdb w))"
      "ev_id e = tt_event t" "type_name_in (wdb w) (it_type r) = tt_name t"
      "event_of_type (wdb w) (it_type r) = \<lparr>pe_name = ev_name e, pe_slug = ev_slug e\<rparr>"
    by (rule schema_type_event [OF ok])
  ultimately show ?thesis using event_views.displays_answer [OF run' ok, of t e] by simp
qed

text \<open>
  C29: The page lists the lines of the order, each once and named after its ticket type, with the
  unit price it was sold at and unit price times quantity; the subtotals add up to the value of the
  order's lines, and the event is that of the line shown first. The query has no \<open>ORDER BY\<close>, so
  which line that is, is the database's choice.
\<close>

theorem page_lines_exact:
  assumes run: "orderDetail orderEventLookupAdapter n w = (Inr (cache, detail), w')" and ok: "schema_ok (wdb w)"
    and row: "row \<in> set (orders (wdb w))" "ord_number row = n"
  shows "(\<exists>rs. mset rs = mset (order_rows (wdb w) (ord_id row)) \<and>
      po_items detail = map (\<lambda>r. \<lparr>pit_type_name = type_name_in (wdb w) (it_type r),
        pit_quantity = word_of_int (it_qty r), pit_unit_price = it_price r,
        pit_subtotal = it_price r * of_int (it_qty r)\<rparr>) rs \<and>
      (case rs of [] \<Rightarrow> True | r # _ \<Rightarrow> po_event detail = event_of_type (wdb w) (it_type r))) \<and>
    sum_list (map pit_subtotal (po_items detail)) = order_value (wdb w) (ord_id row)"
proof -
  from run obtain u where "OrderByNumber orderEventLookupAdapter n w = (Inr detail, u)"
    by (auto simp: orderDetail_def bind_Inr)
  then obtain row' s dm w1 w2 where row': "sql_GetOrderByNumber n (wdb w) = Some row'" and w1: "wdb w1 = wdb w"
    and dm: "ticketTypeDisplays orderEventLookupAdapter
        (map toOrderItemRecord (sql_ListOrderItemsByOrderID (ord_id row') s (wdb w))) w1 = (Inr dm, w2)"
    and det: "po_items detail = publicItems (map toOrderItemRecord (sql_ListOrderItemsByOrderID (ord_id row') s (wdb w))) dm"
      "po_event detail = eventOf (map toOrderItemRecord (sql_ListOrderItemsByOrderID (ord_id row') s (wdb w))) dm"
    by (elim OrderByNumber_Inr) simp
  have "row' = row" using schema_number_unique [OF ok] row row' by (auto simp: sql_GetOrderByNumber_def dest: find_SomeD)
  note dm = dm [unfolded this] and det = det [unfolded this]
  let ?rs = "sql_ListOrderItemsByOrderID (ord_id row) s (wdb w)"
  have rs: "mset ?rs = mset (order_rows (wdb w) (ord_id row))"
    by (simp add: sql_ListOrderItemsByOrderID_def order_rows_def)
  have sub: "set ?rs \<subseteq> set (order_items (wdb w))" by (auto simp: sql_ListOrderItemsByOrderID_def)
  note disp = page_displays [OF dm, unfolded w1, OF ok sub]
  have qty: "(signed (word_of_int (it_qty r) :: int32) :: rat) = of_int (it_qty r)" if "r \<in> set ?rs" for r
  proof -
    have "int4_range (it_qty r)" using that sub ok by (auto simp: schema_ok_def checks_ok_def)
    then have "rat_of_int (sint (word_of_int (it_qty r) :: int32)) = of_int (it_qty r)"
      by (simp only: sint_of_int32)
    then show ?thesis by simp
  qed
  have items: "po_items detail = map (\<lambda>r. \<lparr>pit_type_name = type_name_in (wdb w) (it_type r),
      pit_quantity = word_of_int (it_qty r), pit_unit_price = it_price r,
      pit_subtotal = it_price r * of_int (it_qty r)\<rparr>) ?rs"
    using disp by (fastforce simp: det publicItems_def toOrderItemRecord_def qty)
  have "sum_list (map f ?rs) = sum_list (map f (order_rows (wdb w) (ord_id row)))" for f :: "item_row \<Rightarrow> decimal"
    using rs by (metis mset_map sum_mset_sum_list)
  then have "sum_list (map pit_subtotal (po_items detail)) = order_value (wdb w) (ord_id row)"
    by (simp add: items order_value_def comp_def)
  moreover have "case ?rs of [] \<Rightarrow> True | r # _ \<Rightarrow> po_event detail = event_of_type (wdb w) (it_type r)"
    using disp by (cases ?rs) (force simp: det toOrderItemRecord_def)+
  ultimately show ?thesis using items rs by blast
qed

theorem page_lines_exact_witness:
  "\<exists>detail w'. orderDetail orderEventLookupAdapter ''ORD-A'' sample_world = (Inr (''no-store'', detail), w') \<and>
     map pit_subtotal (po_items detail) = [100] \<and> sum_list (map pit_subtotal (po_items detail)) = order_value sample_db 20"
proof -
  have "case fst (orderDetail orderEventLookupAdapter ''ORD-A'' sample_world) of
      Inl _ \<Rightarrow> False | Inr (c, d) \<Rightarrow> c = ''no-store'' \<and> map pit_subtotal (po_items d) = [100]" by code_simp
  then obtain d w' where run: "orderDetail orderEventLookupAdapter ''ORD-A'' sample_world = (Inr (''no-store'', d), w')"
    and "map pit_subtotal (po_items d) = [100]" by (auto split: sum.splits prod.splits simp: prod_eq_iff)
  moreover have "sample_order \<in> set (orders (wdb sample_world))" "ord_number sample_order = ''ORD-A''"
    by (simp_all add: sample_world_def sample_db_def sample_order_def)
  note page_lines_exact [OF run sample_world_schema this]
  ultimately show ?thesis by (auto simp: sample_world_def sample_order_def)
qed

section \<open>The admin lists\<close>

definition type_of_event :: "database \<Rightarrow> uuid \<Rightarrow> uuid option \<Rightarrow> bool" where
  "type_of_event d i ev =
     (case ev of None \<Rightarrow> True | Some e \<Rightarrow> list_ex (\<lambda>t. tt_id t = i \<and> tt_event t = e) (ticket_types d))"

definition order_matches :: "database \<Rightarrow> OrderFilter \<Rightarrow> order_row \<Rightarrow> bool" where
  "order_matches d flt row \<longleftrightarrow>
     (case of_status flt of None \<Rightarrow> True | Some s \<Rightarrow> ord_status row = s) \<and>
     (of_event flt = None \<or> list_ex (\<lambda>r. type_of_event d (it_type r) (of_event flt)) (order_rows d (ord_id row)))"

definition summary_of :: "order_row \<Rightarrow> OrderSummary" where
  "summary_of row = \<lparr>sm_id = ord_id row, sm_number = ord_number row, sm_buyer_name = ord_buyer_name row,
     sm_buyer_email = ord_buyer_email row, sm_status = ord_status row, sm_total = ord_total row,
     sm_created_at = ord_created_at row\<rparr>"

lemma ticketTypeScope_Inr:
  assumes "ticketTypeScope orderEventLookupAdapter ev w = (Inr scope, w')"
  shows "wdb w' = wdb w" and "(case scope of None \<Rightarrow> ev = None
      | Some ids \<Rightarrow> ev \<noteq> None \<and> (\<forall>i. i \<in> set ids \<longleftrightarrow> type_of_event (wdb w) i ev))"
proof -
  have "readonly (ticketTypeScope orderEventLookupAdapter ev)"
    unfolding ticketTypeScope_def by (intro readonly_intros)
  then show "wdb w' = wdb w" by (rule readonlyD) (rule assms)
  show "case scope of None \<Rightarrow> ev = None
      | Some ids \<Rightarrow> ev \<noteq> None \<and> (\<forall>i. i \<in> set ids \<longleftrightarrow> type_of_event (wdb w) i ev)"
  proof (cases ev)
    case None
    with assms show ?thesis by (simp add: ticketTypeScope_def)
  next
    case (Some e)
    with assms obtain ids where "scope = Some ids" "el_TicketTypeIDsForEvent orderEventLookupAdapter e w = (Inr ids, w')"
      by (auto simp: ticketTypeScope_def bind_Inr)
    with event_views.ids_answer [OF this(2)] Some show ?thesis
      by (auto simp: type_of_event_def list_ex_iff)
  qed
qed

text \<open>
  C30: The admin's order list shows, newest first, exactly the orders with the status asked for and,
  when an event is given, with a line for one of its ticket types, each once; an event without
  ticket types gives the empty list. Orders placed at the same instant come in any order. Listing
  changes nothing.
\<close>

theorem list_orders_exact:
  assumes run: "ListOrders orderEventLookupAdapter flt w = (Inr rows, w')"
  shows "wdb w' = wdb w \<and>
    (\<exists>os. mset os = mset (filter (order_matches (wdb w) flt) (orders (wdb w))) \<and>
      sorted (map (\<lambda>r. newest_first (ord_created_at r)) os) \<and> rows = map summary_of os)"
proof -
  from run obtain scope w1 where scope: "ticketTypeScope orderEventLookupAdapter (of_event flt) w = (Inr scope, w1)"
    and rest: "(if scope = Some [] then ret []
      else bind (wrapping ''list orders: %w'' (query_rows (sql_ListOrdersAdmin (of_status flt) scope))) (\<lambda>rows.
        ret (map (\<lambda>row. \<lparr>sm_id = ord_id row, sm_number = ord_number row,
              sm_buyer_name = ord_buyer_name row, sm_buyer_email = ord_buyer_email row,
              sm_status = ord_status row, sm_total = ord_total row,
              sm_created_at = ord_created_at row\<rparr>) rows))) w1 = (Inr rows, w')"
    unfolding ListOrders_def bind_Inr by blast
  note sc = ticketTypeScope_Inr [OF scope]
  have match: "order_matches (wdb w) flt = (\<lambda>r. (case of_status flt of None \<Rightarrow> True | Some s \<Rightarrow> ord_status r = s) \<and>
      (case scope of None \<Rightarrow> True
       | Some ts \<Rightarrow> list_ex (\<lambda>i. it_order i = ord_id r \<and> List.member ts (it_type i)) (order_items (wdb w))))"
    using sc(2) by (intro ext) (cases scope; auto simp: order_matches_def order_rows_def list_ex_iff)
  show ?thesis
  proof (cases "scope = Some []")
    case True
    with rest sc match show ?thesis by (simp add: list_ex_iff cong: filter_cong)
  next
    case False
    with rest obtain s where "rows = map summary_of (sql_ListOrdersAdmin (of_status flt) scope s (wdb w1))"
      and "wdb w' = wdb w1"
      by (auto simp: bind_Inr summary_of_def [abs_def] dest!: query_rows_Inr)
    with sc(1) match show ?thesis
      by (intro conjI exI [of _ "sql_ListOrdersAdmin (of_status flt) scope s (wdb w1)"])
        (simp_all add: sql_ListOrdersAdmin_def)
  qed
qed

theorem list_orders_exact_witness:
  "\<exists>rows w'. ListOrders orderEventLookupAdapter \<lparr>of_status = Some ''PAID'', of_event = Some 1\<rparr> sample_world =
     (Inr rows, w') \<and> wdb w' = sample_db \<and> map sm_id rows = [21]"
proof -
  let ?flt = "\<lparr>of_status = Some ''PAID'', of_event = Some 1\<rparr>"
  have "case fst (ListOrders orderEventLookupAdapter ?flt sample_world) of Inl _ \<Rightarrow> False | Inr _ \<Rightarrow> True" by code_simp
  then obtain rows w' where run: "ListOrders orderEventLookupAdapter ?flt sample_world = (Inr rows, w')"
    by (auto split: sum.splits simp: prod_eq_iff)
  have "filter (order_matches sample_db ?flt) (orders sample_db) =
      [sample_order\<lparr>ord_id := 21, ord_number := ''ORD-B'', ord_total := 50, ord_status := OrderStatusPaid\<rparr>]"
    by code_simp
  moreover from list_orders_exact [OF run] obtain os
    where "mset os = mset (filter (order_matches sample_db ?flt) (orders sample_db))"
      and "rows = map summary_of os" and "wdb w' = sample_db" by (auto simp: sample_world_def)
  ultimately have "wdb w' = sample_db \<and> map sm_id rows = [21]"
    by (simp add: summary_of_def del: mset_filter)
  with run show ?thesis by (metis (no_types))
qed

subsection \<open>Attendees\<close>

definition number_of_order :: "database \<Rightarrow> uuid \<Rightarrow> string" where
  "number_of_order d i = (case find (\<lambda>r. ord_id r = i) (orders d) of None \<Rightarrow> [] | Some r \<Rightarrow> ord_number r)"

definition order_placed_at :: "database \<Rightarrow> uuid \<Rightarrow> gotime option" where
  "order_placed_at d i = (case find (\<lambda>r. ord_id r = i) (orders d) of None \<Rightarrow> None | Some r \<Rightarrow> ord_created_at r)"

definition attendee_matches :: "database \<Rightarrow> AttendeeFilter \<Rightarrow> attendee_row \<Rightarrow> bool" where
  "attendee_matches d flt a \<longleftrightarrow>
     (case tf_order flt of None \<Rightarrow> True | Some i \<Rightarrow> at_order a = i) \<and> type_of_event d (at_type a) (tf_event flt)"

definition attendee_shown :: "database \<Rightarrow> attendee_row \<Rightarrow> AttendeeSummary" where
  "attendee_shown d a = \<lparr>as_name = at_name a, as_email = at_email a, as_type_name = type_name_in d (at_type a),
     as_number = number_of_order d (at_order a)\<rparr>"

definition attendee_rank :: "database \<Rightarrow> attendee_row \<Rightarrow> (bool \<times> gotime) \<times> rat" where
  "attendee_rank d a = (newest_first (order_placed_at d (at_order a)), collate d (at_name a))"

lemma filter_key_unique:
  "distinct (map k t) \<Longrightarrow> r \<in> set t \<Longrightarrow> filter (\<lambda>x. k x = k r) t = [r]"
proof (induction t)
  case (Cons x t)
  from Cons.prems(1) have "\<forall>y \<in> set t. k y \<noteq> k x" by (auto simp: image_iff)
  with Cons show ?case by (cases "x = r") (auto simp: filter_empty_conv)
qed simp

lemma schema_attendee_order:
  assumes ok: "schema_ok d" and a: "a \<in> set (attendees d)"
  obtains r where "filter (\<lambda>r. ord_id r = at_order a) (orders d) = [r]"
    and "number_of_order d (at_order a) = ord_number r" and "order_placed_at d (at_order a) = ord_created_at r"
proof -
  from assms obtain r where r: "r \<in> set (orders d)" "ord_id r = at_order a"
    by (auto simp: schema_ok_def fks_ok_def)
  have keys: "distinct (map ord_id (orders d))" using ok by (simp add: schema_ok_def keys_ok_def)
  have "find (\<lambda>x. ord_id x = at_order a) (orders d) = Some r"
    using find_key_unique [OF keys r(1)] r(2) by simp
  with that filter_key_unique [OF keys r(1)] r(2) show thesis
    by (simp add: number_of_order_def order_placed_at_def)
qed

text \<open>
  The join gives every attendee its one order, so the answer of the query is the matching
  attendees, each once, in the order of their rank.
\<close>

lemma ListAttendeesAdmin_rows:
  assumes ok: "schema_ok d"
    and match: "\<And>a. P a \<longleftrightarrow> (case orderID of None \<Rightarrow> True | Some i \<Rightarrow> at_order a = i) \<and>
      (case ids of None \<Rightarrow> True | Some ts \<Rightarrow> List.member ts (at_type a))"
  obtains as where "mset as = mset (filter P (attendees d))" and "sorted (map (attendee_rank d) as)"
    and "sql_ListAttendeesAdmin orderID ids s d = map (\<lambda>a. (a, number_of_order d (at_order a))) as"
proof -
  let ?k = "\<lambda>(a, r). (newest_first (ord_created_at r), collate d (at_name a))"
  define f where "f a = (a, hd (filter (\<lambda>r. ord_id r = at_order a) (orders d)))" for a :: attendee_row
  define xs where "xs = filter P (scanned s at_id (attendees d))"
  define ps where "ps = sort_key ?k (map f xs)"
  have one: "filter (\<lambda>r. ord_id r = at_order a) (orders d) = [snd (f a)] \<and>
    number_of_order d (at_order a) = ord_number (snd (f a)) \<and> attendee_rank d a = ?k (f a)"
    if "a \<in> set (attendees d)" for a
    by (rule schema_attendee_order [OF ok that]) (simp add: attendee_rank_def f_def)
  have xs: "set xs \<subseteq> set (attendees d)" by (auto simp: xs_def)
  have "map (\<lambda>r. (a, r)) (filter (\<lambda>r. ord_id r = at_order a) (orders d)) = [f a]" if "a \<in> set xs" for a
  proof -
    have "filter (\<lambda>r. ord_id r = at_order a) (orders d) = [snd (f a)]" using one xs that by blast
    then show ?thesis by (simp only: list.map) (simp add: f_def)
  qed
  then have "map (\<lambda>a. map (\<lambda>r. (a, r)) (filter (\<lambda>r. ord_id r = at_order a) (orders d))) xs = map (\<lambda>a. [f a]) xs"
    by (intro map_cong refl)
  then have rows: "sql_ListAttendeesAdmin orderID ids s d = map (\<lambda>(a, r). (a, ord_number r)) ps"
    unfolding sql_ListAttendeesAdmin_def match [symmetric] xs_def [symmetric] ps_def
    by (simp only: concat_map_singleton)
  have in_ps: "fst p \<in> set (attendees d) \<and> p = f (fst p)" if "p \<in> set ps" for p
    using that xs by (auto simp: ps_def f_def)
  have "mset (map fst ps) = mset (filter P (attendees d))"
    by (simp add: ps_def xs_def f_def multiset.map_comp comp_def)
  moreover have "map (attendee_rank d) (map fst ps) = map ?k ps"
    unfolding map_map by (rule map_cong) (use one in_ps in \<open>force+\<close>)
  then have "sorted (map (attendee_rank d) (map fst ps))" using sorted_sort_key [of ?k] by (simp only: ps_def)
  moreover have "map (\<lambda>(a, r). (a, ord_number r)) ps = map (\<lambda>a. (a, number_of_order d (at_order a))) (map fst ps)"
    unfolding map_map
    by (rule map_cong) (use one in_ps in \<open>force+\<close>)
  ultimately show thesis using rows by (intro that [of "map fst ps"]) simp_all
qed

text \<open>
  C31: The admin's attendee list shows exactly the attendees of the order and of the event asked for,
  each of them once, with the number of its own order and the name of its ticket type: those of the
  newest order first, those of one order (or of one instant) by name in the database's collation.
  Listing changes nothing.
\<close>

theorem list_attendees_exact:
  assumes run: "ListAttendees orderEventLookupAdapter flt w = (Inr rows, w')" and ok: "schema_ok (wdb w)"
  shows "wdb w' = wdb w \<and>
    (\<exists>as. mset as = mset (filter (attendee_matches (wdb w) flt) (attendees (wdb w))) \<and>
      sorted (map (attendee_rank (wdb w)) as) \<and> rows = map (attendee_shown (wdb w)) as)"
proof -
  have ro: "wdb w' = wdb w" by (rule readonlyD [OF event_views.readonly_ListAttendees run])
  from run obtain scope w1 where scope: "ticketTypeScope orderEventLookupAdapter (tf_event flt) w = (Inr scope, w1)"
    and rest: "scope = Some [] \<and> rows = [] \<or> scope \<noteq> Some [] \<and>
      (\<exists>pairs w2 names w3. query_rows (sql_ListAttendeesAdmin (tf_order flt) scope) w1 = (Inr pairs, w2) \<and>
        ticketTypeNames orderEventLookupAdapter pairs w2 = (Inr names, w3) \<and>
        rows = map (\<lambda>(a, number). \<lparr>as_name = at_name a, as_email = at_email a,
              as_type_name = (case names (at_type a) of None \<Rightarrow> [] | Some n \<Rightarrow> n),
              as_number = number\<rparr>) pairs)"
    unfolding ListAttendees_def by (fastforce simp: bind_Inr split: if_splits)
  note sc = ticketTypeScope_Inr [OF scope]
  have match: "attendee_matches (wdb w) flt a \<longleftrightarrow> (case tf_order flt of None \<Rightarrow> True | Some i \<Rightarrow> at_order a = i) \<and>
      (case scope of None \<Rightarrow> True | Some ts \<Rightarrow> List.member ts (at_type a))" for a
    using sc(2) by (auto simp: attendee_matches_def type_of_event_def split: option.splits)
  show ?thesis
  proof (cases "scope = Some []")
    case True
    then have "\<not> attendee_matches (wdb w) flt a" for a by (simp add: match)
    with rest True ro show ?thesis by simp
  next
    case False
    with rest obtain pairs w2 names w3 where q: "query_rows (sql_ListAttendeesAdmin (tf_order flt) scope) w1 = (Inr pairs, w2)"
      and names: "ticketTypeNames orderEventLookupAdapter pairs w2 = (Inr names, w3)"
      and rows: "rows = map (\<lambda>(a, number). \<lparr>as_name = at_name a, as_email = at_email a,
              as_type_name = (case names (at_type a) of None \<Rightarrow> [] | Some n \<Rightarrow> n), as_number = number\<rparr>) pairs"
      by blast
    from query_rows_Inr [OF q] sc(1) obtain s where db: "wdb w2 = wdb w"
      and pairs: "pairs = sql_ListAttendeesAdmin (tf_order flt) scope s (wdb w)" by auto
    obtain as where as: "mset as = mset (filter (attendee_matches (wdb w) flt) (attendees (wdb w)))"
      "sorted (map (attendee_rank (wdb w)) as)"
      and eq: "pairs = map (\<lambda>a. (a, number_of_order (wdb w) (at_order a))) as"
      unfolding pairs by (rule ListAttendeesAdmin_rows [OF ok match])
    have name: "names (at_type a) = Some (type_name_in (wdb w) (at_type a))" if p: "a \<in> set as" for a
    proof -
      from p as(1) have "a \<in> set (attendees (wdb w))" by (metis mem_Collect_eq mset_eq_setD set_filter)
      then obtain t where t: "t \<in> set (ticket_types (wdb w))" "tt_id t = at_type a"
        using ok by (auto simp: schema_ok_def fks_ok_def)
      from names p have "el_TicketTypeNames orderEventLookupAdapter (collect_ids (\<lambda>(a, _). at_type a) pairs [] []) w2 = (Inr names, w3)"
        by (auto simp: ticketTypeNames_def eq split: if_splits)
      moreover have "tt_id t \<in> set (collect_ids (\<lambda>(a, _). at_type a) pairs [] [])"
        using p t by (force simp: collect_ids_set eq)
      ultimately have "names (tt_id t) = Some (tt_name t)"
        using event_views.names_answer db ok t(1) by simp
      with t schema_find_type [OF ok t(1)] show ?thesis by (simp add: type_name_in_def)
    qed
    then have "rows = map (attendee_shown (wdb w)) as" by (simp add: rows eq attendee_shown_def)
    with as ro show ?thesis by blast
  qed
qed

theorem list_attendees_exact_witness:
  "\<exists>rows w'. ListAttendees orderEventLookupAdapter \<lparr>tf_order = Some 21, tf_event = None\<rparr> sample_world = (Inr rows, w') \<and>
     wdb w' = sample_db \<and> map as_name rows = [''Cid''] \<and> map as_number rows = [''ORD-B'']"
proof -
  let ?flt = "\<lparr>tf_order = Some 21, tf_event = None\<rparr>"
  have "case fst (ListAttendees orderEventLookupAdapter ?flt sample_world) of Inl _ \<Rightarrow> False | Inr _ \<Rightarrow> True" by code_simp
  then obtain rows w' where run: "ListAttendees orderEventLookupAdapter ?flt sample_world = (Inr rows, w')"
    by (auto split: sum.splits simp: prod_eq_iff)
  have "filter (attendee_matches sample_db ?flt) (attendees sample_db) =
      [\<lparr>at_id = 42, at_order = 21, at_type = 2, at_name = ''Cid'', at_email = ''cid@x''\<rparr>]"
    and "number_of_order sample_db 21 = ''ORD-B''" by code_simp+
  moreover from list_attendees_exact [OF run sample_world_schema] obtain as
    where "mset as = mset (filter (attendee_matches sample_db ?flt) (attendees sample_db))"
      and "rows = map (attendee_shown sample_db) as" and "wdb w' = sample_db" by (auto simp: sample_world_def)
  ultimately have "wdb w' = sample_db \<and> map as_name rows = [''Cid''] \<and> map as_number rows = [''ORD-B'']"
    by (simp add: attendee_shown_def del: mset_filter)
  with run show ?thesis by (metis (no_types))
qed

end
