(* ===== verification/Gotime.thy ===== *)
theory Gotime
  imports Codes
begin

text \<open>
  \<open>time.ParseInLocation\<close> for the one layout the backend parses, \<open>"2006-01-02 15:04:05"\<close>, following
  the rules of package \<open>time\<close>: a year of four digits, two digits for every other element but the
  hour, which may have one, any number of spaces for the space of the layout, an optional fraction
  after the seconds, and the ranges of the calendar.
\<close>

section \<open>Scanning\<close>

definition isDigit :: "char \<Rightarrow> bool" where
  "isDigit c \<longleftrightarrow> (48 :: nat) \<le> of_char c \<and> of_char c \<le> (57 :: nat)"

definition digit_val :: "char \<Rightarrow> int" where
  "digit_val c = int (of_char c) - 48"

fun getnum :: "bool \<Rightarrow> string \<Rightarrow> (int \<times> string) option" where
  "getnum fixed [] = None"
| "getnum fixed [c] = (if isDigit c \<and> \<not> fixed then Some (digit_val c, []) else None)"
| "getnum fixed (c # e # s) =
     (if \<not> isDigit c then None
      else if \<not> isDigit e then (if fixed then None else Some (digit_val c, e # s))
      else Some (10 * digit_val c + digit_val e, s))"

fun get_year :: "string \<Rightarrow> (int \<times> string) option" where
  "get_year (a # b # c # e # s) =
     (if list_all isDigit [a, b, c, e]
      then Some (1000 * digit_val a + 100 * digit_val b + 10 * digit_val c + digit_val e, s) else None)"
| "get_year _ = None"

fun skip_char :: "char \<Rightarrow> string \<Rightarrow> string option" where
  "skip_char p [] = None"
| "skip_char p (c # s) = (if c = p then Some s else None)"

text \<open>A space of the layout matches one or more spaces, or the end of the value.\<close>

fun skip_space :: "string \<Rightarrow> string option" where
  "skip_space [] = Some []"
| "skip_space (c # s) = (if c = CHR '' '' then Some (dropWhile (\<lambda>c. c = CHR '' '') s) else None)"

definition number_of :: "string \<Rightarrow> int" where
  "number_of ds = foldl (\<lambda>n c. 10 * n + digit_val c) 0 ds"

text \<open>A fraction of the second: nine digits count, further ones are dropped.\<close>

fun get_fraction :: "string \<Rightarrow> int \<times> string" where
  "get_fraction (p # c # s) =
     (if (p = CHR ''.'' \<or> p = CHR '','') \<and> isDigit c then
        let ds = c # takeWhile isDigit s; kept = take 9 ds
        in (number_of kept * 10 ^ (9 - length kept), dropWhile isDigit s)
      else (0, p # c # s))"
| "get_fraction s = (0, s)"

section \<open>Dates\<close>

definition month_lengths :: "int \<Rightarrow> int list" where
  "month_lengths y = [31, if is_leap y then 29 else 28, 31, 30, 31, 30, 31, 31, 30, 31, 30, 31]"

definition daysIn :: "int \<Rightarrow> int \<Rightarrow> int" where
  "daysIn m y = month_lengths y ! nat (m - 1)"

definition days_before_year :: "int \<Rightarrow> int" where
  "days_before_year y = 365 * (y - 1) + (y - 1) div 4 - (y - 1) div 100 + (y - 1) div 400"

definition days_before_month :: "int \<Rightarrow> int \<Rightarrow> int" where
  "days_before_month m y = sum_list (take (nat (m - 1)) (month_lengths y))"

text \<open>\<open>time.Date\<close> of a valid date in a zone \<open>offset\<close> seconds east of UTC.\<close>

definition Date :: "int \<Rightarrow> int \<Rightarrow> int \<Rightarrow> int \<Rightarrow> int \<Rightarrow> int \<Rightarrow> int \<Rightarrow> int \<Rightarrow> gotime" where
  "Date y m d hour mi sec nsec offset =
     ((((days_before_year y + days_before_month m y + (d - 1)) * 24 + hour) * 60 + mi) * 60 + sec - offset)
       * 1000000000 + nsec"

definition in_range :: "int \<Rightarrow> int \<Rightarrow> int \<Rightarrow> unit option" where
  "in_range lo n hi = (if lo \<le> n \<and> n < hi then Some () else None)"

definition parse_timestamp :: "int \<Rightarrow> string \<Rightarrow> gotime option" where
  "parse_timestamp offset s =
     Option.bind (get_year s) (\<lambda>(y, s).
     Option.bind (skip_char CHR ''-'' s) (\<lambda>s.
     Option.bind (getnum True s) (\<lambda>(m, s).
     Option.bind (in_range 1 m 13) (\<lambda>_.
     Option.bind (skip_char CHR ''-'' s) (\<lambda>s.
     Option.bind (getnum True s) (\<lambda>(d, s).
     Option.bind (skip_space s) (\<lambda>s.
     Option.bind (getnum False s) (\<lambda>(hour, s).
     Option.bind (in_range 0 hour 24) (\<lambda>_.
     Option.bind (skip_char CHR '':'' s) (\<lambda>s.
     Option.bind (getnum True s) (\<lambda>(mi, s).
     Option.bind (in_range 0 mi 60) (\<lambda>_.
     Option.bind (skip_char CHR '':'' s) (\<lambda>s.
     Option.bind (getnum True s) (\<lambda>(sec, s).
     Option.bind (in_range 0 sec 60) (\<lambda>_.
     case get_fraction s of (nsec, s) \<Rightarrow>
     if s \<noteq> [] then None
     else Option.bind (in_range 1 d (daysIn m y + 1)) (\<lambda>_.
     Some (Date y m d hour mi sec nsec offset)))))))))))))))))"

end
