(* ===== verification/Midtrans.thy ===== *)
theory Midtrans
  imports Payment Gotime
begin

text \<open>
  \<open>internal/payment/midtrans.go\<close>: the Midtrans gateway. The HTTP client, \<open>encoding/json\<close> on the
  three response types, SHA-512 and path escaping are the fields of \<open>provider_env\<close>; a call may
  answer anything, differently each time.
\<close>

section \<open>Messages\<close>

record itemDetail =
  id_id :: uuid
  id_name :: string
  id_price :: int
  id_quantity :: int32

record chargeRequest =
  cq_payment_type :: string
  cq_order_id :: string
  cq_gross_amount :: int
  cq_first_name :: string
  cq_email :: string
  cq_phone :: string
  cq_items :: "itemDetail list"
  cq_acquirer :: string
  cq_expiry_duration :: int
  cq_unit :: string

record chargeAction =
  ca_action_name :: string
  ca_method :: string
  ca_url :: string

record chargeResponse =
  cs_transaction_id :: string
  cs_qr_string :: string
  cs_expiry_time :: string
  cs_status_message :: string
  cs_actions :: "chargeAction list"
  cs_validation_messages :: "string list"

record statusResponse =
  st_status_code :: string
  st_transaction_id :: string
  st_order_id :: string
  st_transaction_status :: string
  st_fraud_status :: string
  st_payment_type :: string
  st_status_message :: string

record midtransNotification =
  mn_order_id :: string
  mn_status_code :: string
  mn_gross_amount :: string
  mn_signature_key :: string
  mn_transaction_id :: string
  mn_transaction_status :: string
  mn_fraud_status :: string
  mn_payment_type :: string

record provider_env =
  env_call :: "nat \<Rightarrow> string \<Rightarrow> string \<Rightarrow> chargeRequest option \<Rightarrow> goerror + string \<times> int"
  env_charge :: "string \<Rightarrow> goerror + chargeResponse"
  env_status :: "string \<Rightarrow> goerror + statusResponse"
  env_notification :: "string \<Rightarrow> goerror + midtransNotification"
  env_sha512_hex :: "string \<Rightarrow> string"
  env_PathEscape :: "string \<Rightarrow> string"
  env_lower :: "string \<Rightarrow> string"
  env_runes :: "string \<Rightarrow> string list"

record MidtransGateway =
  mg_serverKey :: string
  mg_baseURL :: string
  mg_paymentExpiry :: int

section \<open>Helpers\<close>

text \<open>
  \<open>amount.Truncate(0).IntPart()\<close>: towards zero, and the low 64 bits of what is left.
\<close>

definition truncate :: "rat \<Rightarrow> int" where
  "truncate a = (if 0 \<le> a then \<lfloor>a\<rfloor> else \<lceil>a\<rceil>)"

definition toRupiah :: "decimal \<Rightarrow> int" where
  "toRupiah amount = sint (word_of_int (truncate amount) :: 64 word)"

text \<open>
  Truncating each price and the total does not keep the items summing to the total unless prices
  are whole: two seats at 10.50 are charged as two times 10 against a total of 21.
\<close>

lemma truncation_breaks_sum: "2 * toRupiah (21 / 2) \<noteq> toRupiah (2 * (21 / 2))"
  by code_simp

text \<open>\<open>[]rune(s)\<close> splits a string into its runes, here the encoded ones.\<close>

definition truncateRunes :: "provider_env \<Rightarrow> string \<Rightarrow> nat \<Rightarrow> string" where
  "truncateRunes env s mx =
     (let runes = env_runes env s in
      if length runes \<le> mx then s else concat (take mx runes))"

fun qrCodeAction :: "chargeAction list \<Rightarrow> string" where
  "qrCodeAction [] = ''''"
| "qrCodeAction (a # as) = (if ca_action_name a = ''generate-qr-code'' then ca_url a else qrCodeAction as)"

fun strings_Join :: "string list \<Rightarrow> string \<Rightarrow> string" where
  "strings_Join [] sep = ''''"
| "strings_Join [s] sep = s"
| "strings_Join (s # t # ss) sep = s @ sep @ strings_Join (t # ss) sep"

abbreviation jakarta :: int where
  "jakarta \<equiv> 7 * 60 * 60"

definition parseExpiryTime :: "string \<Rightarrow> goerror + gotime" where
  "parseExpiryTime val =
     (if val = '''' then Inl (Sentinel ''midtrans: charge response contained no expiry_time'')
      else case parse_timestamp jakarta val of
        None \<Rightarrow> Inl (Errorf (Msg ''midtrans: parse expiry_time %q: %w'' [ArgS val]) [DriverError ''time''])
      | Some t \<Rightarrow> Inr t)"

text \<open>Minutes of a duration, \<open>int(d.Minutes())\<close>.\<close>

definition whole_minutes :: "int \<Rightarrow> int" where
  "whole_minutes d = (if 0 \<le> d then d div 60000000000 else - (- d div 60000000000))"

section \<open>The gateway\<close>

abbreviation chargePath :: string where
  "chargePath \<equiv> ''/v2/charge''"

definition midtrans_do ::
  "provider_env \<Rightarrow> string \<Rightarrow> string \<Rightarrow> chargeRequest option \<Rightarrow> (string \<times> int) go" where
  "midtrans_do env meth path payload = (\<lambda>w. (env_call env (tick w) meth path payload, step_tick w))"

definition charge_items :: "provider_env \<Rightarrow> TransactionItem list \<Rightarrow> itemDetail list" where
  "charge_items env items =
     map (\<lambda>item. \<lparr>id_id = ti_item_id item, id_name = truncateRunes env (ti_item_name item) 50,
                 id_price = toRupiah (ti_item_price item), id_quantity = ti_item_quantity item\<rparr>) items"

definition midtrans_CreateTransaction ::
  "provider_env \<Rightarrow> MidtransGateway \<Rightarrow> TransactionRequest \<Rightarrow> GatewaySession go" where
  "midtrans_CreateTransaction env g req =
     (let payload = \<lparr>cq_payment_type = ''qris'', cq_order_id = tq_number req,
            cq_gross_amount = toRupiah (tq_gross req), cq_first_name = tq_name req,
            cq_email = tq_email req, cq_phone = tq_phone req,
            cq_items = charge_items env (tq_items req), cq_acquirer = ''gopay'',
            cq_expiry_duration = whole_minutes (mg_paymentExpiry g), cq_unit = ''minute''\<rparr>
      in bind (midtrans_do env ''POST'' chargePath (Some payload)) (\<lambda>(raw, status).
         handle (lift (env_charge env raw))
           (\<lambda>err. fail (Errorf (Msg ''midtrans: decode charge response (status %d): %w'' [ArgI status]) [err]))
           (\<lambda>parsed.
         if status < 200 \<or> status \<ge> 300 then
           fail (Errorf (Msg ''midtrans: charge returned %d: %s %s'' 
             [ArgI status, ArgS (cs_status_message parsed), ArgS (strings_Join (cs_validation_messages parsed) ''; '')]) [])
         else if cs_qr_string parsed = '''' then
           fail (Sentinel ''midtrans: charge response contained no qr_string'')
         else
           bind (lift (parseExpiryTime (cs_expiry_time parsed))) (\<lambda>expiresAt.
           ret \<lparr>gs_ref = cs_transaction_id parsed, gs_qr_string = cs_qr_string parsed,
                gs_qr_image = qrCodeAction (cs_actions parsed), gs_expires_at = expiresAt,
                gs_redirect = ''''\<rparr>))))"

definition midtrans_FetchStatus :: "provider_env \<Rightarrow> string \<Rightarrow> WebhookResult go" where
  "midtrans_FetchStatus env orderNumber =
     bind (midtrans_do env ''GET'' (''/v2/'' @ env_PathEscape env orderNumber @ ''/status'') None) (\<lambda>(raw, status).
     handle (lift (env_status env raw))
       (\<lambda>err. fail (Errorf (Msg ''midtrans: decode status response (status %d): %w'' [ArgI status]) [err]))
       (\<lambda>parsed.
     if status = 404 \<or> st_status_code parsed = ''404'' then fail ErrOrderNotFound
     else if status < 200 \<or> status \<ge> 300 then
       fail (Errorf (Msg ''midtrans: status returned %d: %s'' [ArgI status, ArgS (st_status_message parsed)]) [])
     else if st_status_code parsed \<noteq> '''' \<and> \<not> has_prefix ''2'' (st_status_code parsed) then
       fail (Errorf (Msg ''midtrans: status returned code %s: %s''
         [ArgS (st_status_code parsed), ArgS (st_status_message parsed)]) [])
     else
       ret \<lparr>wr_number = st_order_id parsed, wr_transaction = st_transaction_id parsed,
            wr_status = st_transaction_status parsed, wr_fraud = st_fraud_status parsed,
            wr_type = st_payment_type parsed, wr_raw = raw\<rparr>))"

text \<open>\<open>subtle.ConstantTimeCompare\<close> is 1 exactly for equal byte strings.\<close>

definition midtrans_VerifyWebhook ::
  "provider_env \<Rightarrow> MidtransGateway \<Rightarrow> string \<Rightarrow> string \<Rightarrow> goerror + WebhookResult" where
  "midtrans_VerifyWebhook env g payload signature =
     (case env_notification env payload of
        Inl err \<Rightarrow> Inl (Errorf (text_msg ''midtrans: decode notification: %w: %w'') [err, ErrInvalidSignature])
      | Inr n \<Rightarrow>
          if mn_order_id n = '''' then
            Inl (Errorf (text_msg ''midtrans: notification has no order_id: %w'') [ErrInvalidSignature])
          else
            let provided = (if signature = '''' then mn_signature_key n else signature) in
            if provided = '''' then Inl ErrInvalidSignature
            else
              let expected = env_sha512_hex env
                (mn_order_id n @ mn_status_code n @ mn_gross_amount n @ mg_serverKey g) in
              if ToLower (env_lower env) provided \<noteq> expected then Inl ErrInvalidSignature
              else Inr \<lparr>wr_number = mn_order_id n, wr_transaction = mn_transaction_id n,
                   wr_status = mn_transaction_status n, wr_fraud = mn_fraud_status n,
                   wr_type = mn_payment_type n, wr_raw = payload\<rparr>)"

text \<open>A notification that verifies carries the digest of its own fields and the secret server key.\<close>

definition signed :: "provider_env \<Rightarrow> MidtransGateway \<Rightarrow> string \<Rightarrow> WebhookResult \<Rightarrow> bool" where
  "signed env g payload result \<longleftrightarrow>
     (\<exists>n provided. env_notification env payload = Inr n \<and> mn_order_id n \<noteq> [] \<and> provided \<noteq> [] \<and>
        ToLower (env_lower env) provided =
          env_sha512_hex env (mn_order_id n @ mn_status_code n @ mn_gross_amount n @ mg_serverKey g) \<and>
        wr_number result = mn_order_id n \<and> wr_status result = mn_transaction_status n \<and>
        wr_fraud result = mn_fraud_status n \<and> wr_raw result = payload)"

lemma VerifyWebhook_signed:
  "midtrans_VerifyWebhook env g payload signature = Inr result \<Longrightarrow> signed env g payload result"
  by (auto simp: midtrans_VerifyWebhook_def signed_def Let_def split: sum.splits if_splits)

definition midtransGateway :: "provider_env \<Rightarrow> MidtransGateway \<Rightarrow> Gateway" where
  "midtransGateway env g =
     \<lparr>g_Name = ''midtrans'', g_CreateTransaction = midtrans_CreateTransaction env g,
      g_VerifyWebhook = midtrans_VerifyWebhook env g, g_FetchStatus = midtrans_FetchStatus env\<rparr>"

section \<open>Frames\<close>

lemma readonly_do [readonly_intros]: "readonly (midtrans_do env m p x)"
  by (simp add: ensures_def midtrans_do_def)

lemma quiet_do [quiet_intros]: "quiet (midtrans_do env m p x)"
  by (simp add: quiet_def midtrans_do_def)

lemma readonly_CreateTransaction [readonly_intros]: "readonly (midtrans_CreateTransaction env g req)"
  unfolding midtrans_CreateTransaction_def Let_def case_prod_beta by (intro readonly_intros)

lemma readonly_FetchStatus [readonly_intros]: "readonly (midtrans_FetchStatus env n)"
  unfolding midtrans_FetchStatus_def case_prod_beta by (intro readonly_intros)

lemma quiet_FetchStatus [quiet_intros]: "quiet (midtrans_FetchStatus env n)"
  unfolding midtrans_FetchStatus_def case_prod_beta by (intro quiet_intros)

end
