(* ===== verification/Payment_Adapters.thy ===== *)
theory Payment_Adapters
  imports Order_Adapters Midtrans
begin

text \<open>
  The rest of \<open>cmd/api/adapters.go\<close> that ties orders and payments together: checkout's view of the
  payment gateway and the payment service's view of the orders, with the proofs that they keep the
  contracts of \<open>checkout\<close> and \<open>payment_service\<close>.
\<close>

section \<open>Checkout's gateway\<close>

definition gatewayAdapter :: "Gateway \<Rightarrow> PaymentGateway" where
  "gatewayAdapter g =
     \<lparr>gw_Name = g_Name g,
      gw_CreateTransaction = (\<lambda>req.
        bind (g_CreateTransaction g
            \<lparr>tq_number = pr_number req, tq_gross = pr_gross req, tq_name = pr_name req,
             tq_email = pr_email req, tq_phone = pr_phone req,
             tq_items = map (\<lambda>item. \<lparr>ti_item_id = pi_id item, ti_item_name = pi_name item,
                 ti_item_price = pi_price item, ti_item_quantity = pi_quantity item\<rparr>) (pr_items req)\<rparr>)
          (\<lambda>session.
        ret \<lparr>ps_ref = gs_ref session, ps_qr_string = gs_qr_string session,
             ps_qr_image = gs_qr_image session, ps_expires_at = gs_expires_at session,
             ps_redirect = gs_redirect session\<rparr>))\<rparr>"

interpretation checkouts: checkout eventProviderAdapter "gatewayAdapter (midtransGateway env g)" for env g
proof
  fix r
  show "readonly (gw_CreateTransaction (gatewayAdapter (midtransGateway env g)) r)"
    by (simp add: gatewayAdapter_def midtransGateway_def) (intro readonly_intros)
qed

section \<open>The payment service's orders\<close>

definition paymentOrderAdapter :: OrderProvider where
  "paymentOrderAdapter =
     \<lparr>op_OrderByNumber = (\<lambda>orderNumber.
        handle (order_GetOrderByNumber orderNumber)
          (\<lambda>err. if errors_Is err order_ErrNotFound then fail ErrOrderNotFound else fail err)
          (\<lambda>rec. ret \<lparr>rf_id = or_id rec, rf_number = or_number rec, rf_status = or_status rec,
                     rf_expires_at = or_expires_at rec\<rparr>)),
      op_LineItems = (\<lambda>orderID.
        bind (order_ListOrderItemsByOrderID orderID) (\<lambda>items.
        ret (map (\<lambda>item. \<lparr>li_type = oi_type item, li_quantity = oi_quantity item\<rparr>) items))),
      op_UpdateStatusIfPending = order_UpdateOrderStatusIfPending,
      op_DueForExpiry = (\<lambda>t limit.
        bind (order_ListOrdersDueForExpiry t limit) (\<lambda>candidates.
        ret (map (\<lambda>c. \<lparr>rf_id = xc_id c, rf_number = xc_number c, rf_status = xc_status c,
                      rf_expires_at = xc_expires_at c\<rparr>) candidates)))\<rparr>"

text \<open>The service as \<open>main.go\<close> wires it; tickets and delivery are the last two arguments.\<close>

definition paymentService ::
  "provider_env \<Rightarrow> MidtransGateway \<Rightarrow> (uuid \<Rightarrow> unit go) \<Rightarrow> (uuid \<Rightarrow> unit go) \<Rightarrow> PaymentService" where
  "paymentService env g issuer deliverer =
     \<lparr>s_gateway = midtransGateway env g, s_orders = paymentOrderAdapter, s_quota = RestoreQuota,
      s_issuer = issuer, s_deliverer = deliverer, s_lower = env_lower env\<rparr>"

lemma ListOrderItems_lines:
  assumes "order_ListOrderItemsByOrderID i w = (Inr items, w')" and "schema_ok (wdb w)"
  shows "mset (map (\<lambda>item. (oi_type item, sint (oi_quantity item))) items) = mset (lines_of (wdb w) i)"
proof -
  have qty: "sint (word_of_int (it_qty r) :: int32) = it_qty r" if "r \<in> set (order_items (wdb w))" for r
    using that assms(2) by (intro sint_of_int32) (simp add: schema_defs)
  from assms(1) obtain s where
    "items = map toOrderItemRecord (filter (\<lambda>r. it_order r = i) (scanned s it_id (order_items (wdb w))))"
    by (auto simp: order_ListOrderItemsByOrderID_def bind_Inr sql_ListOrderItemsByOrderID_def
        dest!: query_rows_Inr)
  then have "map (\<lambda>item. (oi_type item, sint (oi_quantity item))) items =
      map (\<lambda>r. (it_type r, it_qty r)) (filter (\<lambda>r. it_order r = i) (scanned s it_id (order_items (wdb w))))"
    by (simp add: toOrderItemRecord_def qty)
  then show ?thesis by (simp add: lines_of_def)
qed

lemma DueForExpiry_due:
  assumes run: "order_ListOrdersDueForExpiry t limit w = (Inr cs, w')" and ok: "schema_ok (wdb w)"
    and c: "c \<in> set cs"
  shows "xc_status c = OrderStatusPending \<and> order_status (wdb w) (xc_id c) = Some OrderStatusPending \<and>
    (\<exists>e. xc_expires_at c = Some e \<and> e \<le> t)"
proof -
  from run c obtain r where r: "r \<in> set (orders (wdb w))" "ord_status r = OrderStatusPending"
    and due: "case ord_expires_at r of None \<Rightarrow> False | Some e \<Rightarrow> e \<le> t"
    and fields: "xc_id c = ord_id r" "xc_status c = ord_status r" "xc_expires_at c = ord_expires_at r"
    by (auto simp: order_ListOrdersDueForExpiry_def bind_Inr sql_ListOrdersDueForExpiry_def
        dest!: query_rows_Inr in_set_takeD)
  with order_status_row [OF ok r(1)] show ?thesis by (auto split: option.splits)
qed

interpretation payments: payment_service "paymentService env g issuer deliverer" for env g issuer deliverer
proof
  let ?s = "paymentService env g issuer deliverer"
  fix n i t k q u w w' items st b refs ref
  show "s_quota ?s t q w = (Inr u, w') \<Longrightarrow> schema_ok (wdb w) \<Longrightarrow> quota_moved t (sint q) (wdb w) (wdb w')"
    by (simp add: paymentService_def RestoreQuota_Inr)
  show "op_LineItems (s_orders ?s) i w = (Inr items, w') \<Longrightarrow> schema_ok (wdb w) \<Longrightarrow>
      mset (map (\<lambda>l. (li_type l, sint (li_quantity l))) items) = mset (lines_of (wdb w) i)"
    by (auto simp: paymentService_def paymentOrderAdapter_def bind_Inr comp_def multiset.map_comp
        dest!: ListOrderItems_lines)
  show "op_UpdateStatusIfPending (s_orders ?s) i st w = (Inr b, w') \<Longrightarrow> schema_ok (wdb w) \<Longrightarrow>
      schema_ok (wdb w') \<and> b = (order_status (wdb w) i = Some OrderStatusPending) \<and>
      (if b then status_moved i st (wdb w) (wdb w') else wdb w' = wdb w)"
    using UpdateStatus_Inr [of i st w b w'] by (simp add: paymentService_def paymentOrderAdapter_def)
  show "op_DueForExpiry (s_orders ?s) tt k w = (Inr refs, w') \<Longrightarrow> schema_ok (wdb w) \<Longrightarrow> ref \<in> set refs \<Longrightarrow>
      rf_status ref = OrderStatusPending \<and> order_status (wdb w) (rf_id ref) = Some OrderStatusPending \<and>
      (\<exists>e. rf_expires_at ref = Some e \<and> e \<le> tt)" for tt
    by (auto simp: paymentService_def paymentOrderAdapter_def bind_Inr) (use DueForExpiry_due in blast)+
qed (auto simp: paymentService_def paymentOrderAdapter_def midtransGateway_def
      intro!: keeps_intros quiet_intros readonly_intros)

end
