(* ===== verification/Api.thy ===== *)
theory Api
  imports Handlers View_Adapters Payment_Adapters
begin

text \<open>
  The composition root, \<open>cmd/api/main.go\<close>: the services wired through their adapters, the table of
  routes with the middleware of the group each is mounted on, and what happens to a request from
  routing to the reply the error handler writes. The rate limiter's buckets, the router's answer to
  a request that no route takes and \<open>http.StatusText\<close> are arguments; recovery from panics, request
  ids, tracing, metrics and CORS do not touch what is modelled.
\<close>

section \<open>Wiring\<close>

record limiter =
  lm_rate :: rat
  lm_burst :: int
  lm_expires :: gotime

record api =
  a_env :: provider_env
  a_gateway :: MidtransGateway
  a_delivery :: delivery_env
  a_smtp :: SMTPConfig
  a_lib :: auth_lib
  a_issuer :: TokenIssuer
  a_decoders :: decoders
  a_ParseAddress :: "string \<Rightarrow> bool"
  a_iter :: "int32_map \<Rightarrow> int32_map"
  a_upper :: "string \<Rightarrow> string"
  a_qr_encode :: "string \<Rightarrow> goerror + string"
  a_lookup_limit :: limiter
  a_limit :: "limiter \<Rightarrow> string \<Rightarrow> nat \<Rightarrow> goerror option"
  a_unrouted :: "http_request \<Rightarrow> goerror"
  a_status_text :: "int \<Rightarrow> string"

abbreviation rateLimitWindow :: gotime where "rateLimitWindow \<equiv> 180000000000"
abbreviation paymentRefreshRate :: rat where "paymentRefreshRate \<equiv> 1 / 5"
abbreviation paymentRefreshBurst :: int where "paymentRefreshBurst \<equiv> 3"

definition api_payments :: "api \<Rightarrow> PaymentService" where
  "api_payments a = paymentService (a_env a) (a_gateway a)
     (IssueTicketsForOrder (Some order_AttendeeIDsForOrder))
     (SendTicketEmail (notificationService (a_delivery a) (a_smtp a)))"

definition api_checkout :: "api \<Rightarrow> goerror + CheckoutRequest \<Rightarrow> OrderResponse go" where
  "api_checkout a = checkout_handler (a_ParseAddress a) (a_iter a) eventProviderAdapter
     (gatewayAdapter (midtransGateway (a_env a) (a_gateway a)))"

section \<open>Routes\<close>

datatype seg = Lit string | Arg string

datatype guard = Open | Limited limiter | Authenticated

record route =
  rt_method :: string
  rt_pattern :: "seg list"
  rt_guard :: guard
  rt_handler :: "ctx \<Rightarrow> reply go"

definition under_api :: "seg list \<Rightarrow> seg list" where
  "under_api p = Lit ''api'' # Lit ''v1'' # p"

definition GET :: "guard \<Rightarrow> seg list \<Rightarrow> (ctx \<Rightarrow> reply go) \<Rightarrow> route" where
  "GET g p h = \<lparr>rt_method = ''GET'', rt_pattern = under_api p, rt_guard = g, rt_handler = h\<rparr>"

definition POST :: "guard \<Rightarrow> seg list \<Rightarrow> (ctx \<Rightarrow> reply go) \<Rightarrow> route" where
  "POST g p h = \<lparr>rt_method = ''POST'', rt_pattern = under_api p, rt_guard = g, rt_handler = h\<rparr>"

definition PUT :: "guard \<Rightarrow> seg list \<Rightarrow> (ctx \<Rightarrow> reply go) \<Rightarrow> route" where
  "PUT g p h = \<lparr>rt_method = ''PUT'', rt_pattern = under_api p, rt_guard = g, rt_handler = h\<rparr>"

definition DELETE :: "guard \<Rightarrow> seg list \<Rightarrow> (ctx \<Rightarrow> reply go) \<Rightarrow> route" where
  "DELETE g p h = \<lparr>rt_method = ''DELETE'', rt_pattern = under_api p, rt_guard = g, rt_handler = h\<rparr>"

definition event_public_routes :: "route list" where
  "event_public_routes =
     [GET Open [Lit ''events''] (\<lambda>_. listEvents),
      GET Open [Lit ''events'', Arg ''slug''] getEventBySlug]"

definition order_public_routes :: "api \<Rightarrow> route list" where
  "order_public_routes a =
     [POST Open [Lit ''checkout''] (\<lambda>c.
        bind (api_checkout a (dc_checkout (a_decoders a) (cx_request c))) (\<lambda>resp. JSON 201 (PlacedBody resp))),
      GET Open [Lit ''orders'', Arg ''orderNumber''] (\<lambda>c.
        bind (orderDetail orderEventLookupAdapter (Param c ''orderNumber'')) (\<lambda>(cache, detail).
        ret \<lparr>re_status = 200, re_cache = Some cache, re_body = OrderPageBody detail\<rparr>)),
      GET Open [Lit ''orders'', Arg ''orderNumber'', Lit ''qris.png''] (\<lambda>c.
        bind (qrImage (a_qr_encode a) (Param c ''orderNumber'')) (\<lambda>(cache, png).
        ret \<lparr>re_status = 200, re_cache = Some cache, re_body = PngBody png\<rparr>))]"

definition payment_public_routes :: "api \<Rightarrow> route list" where
  "payment_public_routes a =
     [POST Open [Lit ''payment'', Lit ''webhook'', Arg ''provider''] (\<lambda>c.
        bind (webhook (api_payments a) (Param c ''provider'') (rq_body (cx_request c)) (rq_signature (cx_request c)))
          (\<lambda>_. NoContent 200))]"

definition ticket_public_routes :: "api \<Rightarrow> guard \<Rightarrow> route list" where
  "ticket_public_routes a g =
     [GET g [Lit ''tickets'', Arg ''code''] (lookup_handler (a_upper a))]"

definition payment_refresh_routes :: "api \<Rightarrow> guard \<Rightarrow> route list" where
  "payment_refresh_routes a g =
     [POST g [Lit ''orders'', Arg ''orderNumber'', Lit ''payment'', Lit ''refresh''] (\<lambda>c.
        bind (refreshStatus (api_payments a) (Param c ''orderNumber'')) (\<lambda>resp. JSON 200 (RefreshBody resp)))]"

definition login_routes :: "api \<Rightarrow> route list" where
  "login_routes a = [POST Open [Lit ''admin'', Lit ''login''] (login (a_lib a) (a_issuer a) (a_decoders a))]"

definition event_admin_routes :: "api \<Rightarrow> guard \<Rightarrow> route list" where
  "event_admin_routes a g =
     (let dc = a_decoders a; oc = Some orderChecker in
     [GET g [Lit ''admin'', Lit ''events''] (\<lambda>_. adminListEvents),
      POST g [Lit ''admin'', Lit ''events''] (adminCreateEvent dc),
      GET g [Lit ''admin'', Lit ''events'', Arg ''id''] (adminGetEvent oc dc),
      PUT g [Lit ''admin'', Lit ''events'', Arg ''id''] (adminUpdateEvent dc),
      DELETE g [Lit ''admin'', Lit ''events'', Arg ''id''] (adminDeleteEvent oc dc),
      GET g [Lit ''admin'', Lit ''ticket-types''] (adminListTicketTypes oc dc),
      POST g [Lit ''admin'', Lit ''ticket-types''] (adminCreateTicketType dc),
      GET g [Lit ''admin'', Lit ''ticket-types'', Arg ''id''] (adminGetTicketType oc dc),
      PUT g [Lit ''admin'', Lit ''ticket-types'', Arg ''id''] (adminUpdateTicketType oc dc),
      DELETE g [Lit ''admin'', Lit ''ticket-types'', Arg ''id''] (adminDeleteTicketType oc dc)])"

definition order_admin_routes :: "api \<Rightarrow> guard \<Rightarrow> route list" where
  "order_admin_routes a g =
     (let parse = dc_uuid (a_decoders a) in
     [GET g [Lit ''admin'', Lit ''orders''] (\<lambda>c.
        bind (listOrders parse orderEventLookupAdapter (QueryParam c ''status'') (QueryParam c ''event_id''))
          (\<lambda>rows. JSON 200 (OrdersBody rows))),
      GET g [Lit ''admin'', Lit ''attendees''] (\<lambda>c.
        bind (listAttendees parse orderEventLookupAdapter (QueryParam c ''order_id'') (QueryParam c ''event_id''))
          (\<lambda>rows. JSON 200 (AttendeesBody rows)))])"

definition ticket_admin_routes :: "api \<Rightarrow> guard \<Rightarrow> route list" where
  "ticket_admin_routes a g =
     [POST g [Lit ''admin'', Lit ''tickets'', Lit ''validate''] (\<lambda>c.
        bind (validate_handler (a_upper a) (dc_validate (a_decoders a) (cx_request c)))
          (\<lambda>result. JSON 200 (ValidationBody result))),
      POST g [Lit ''admin'', Lit ''tickets'', Arg ''code'', Lit ''use''] (markUsed_handler (a_upper a))]"

definition notification_admin_routes :: "api \<Rightarrow> guard \<Rightarrow> route list" where
  "notification_admin_routes a g =
     [POST g [Lit ''admin'', Lit ''orders'', Arg ''id'', Lit ''resend-email''] (\<lambda>c.
        bind (resend (notificationService (a_delivery a) (a_smtp a)) (dc_uuid (a_decoders a) (Param c ''id'')))
          (\<lambda>resp. JSON 200 (ResentBody resp)))]"

definition routes :: "api \<Rightarrow> route list" where
  "routes a =
     [\<lparr>rt_method = ''GET'', rt_pattern = [Lit ''healthz''], rt_guard = Open, rt_handler = (\<lambda>_. healthz)\<rparr>] @
     event_public_routes @ order_public_routes a @ payment_public_routes a @
     ticket_public_routes a (Limited (a_lookup_limit a)) @
     payment_refresh_routes a (Limited \<lparr>lm_rate = paymentRefreshRate, lm_burst = paymentRefreshBurst,
       lm_expires = rateLimitWindow\<rparr>) @
     login_routes a @
     event_admin_routes a Authenticated @ order_admin_routes a Authenticated @
     ticket_admin_routes a Authenticated @ notification_admin_routes a Authenticated"

section \<open>Serving a request\<close>

fun match_path :: "seg list \<Rightarrow> string list \<Rightarrow> (string \<times> string) list option" where
  "match_path [] [] = Some []"
| "match_path (Lit l # p) (s # ss) = (if l = s then match_path p ss else None)"
| "match_path (Arg n # p) (s # ss) = map_option (\<lambda>ps. (n, s) # ps) (match_path p ss)"
| "match_path _ _ = None"

definition takes :: "http_request \<Rightarrow> route \<Rightarrow> bool" where
  "takes rq r \<longleftrightarrow> rt_method r = rq_method rq \<and> match_path (rt_pattern r) (rq_path rq) \<noteq> None"

text \<open>\<open>httpx.RateLimitPerIP\<close>: the limiter is asked with the client's address.\<close>

definition RateLimitPerIP :: "api \<Rightarrow> limiter \<Rightarrow> http_request \<Rightarrow> 'a go \<Rightarrow> 'a go" where
  "RateLimitPerIP a cfg rq k =
     (\<lambda>w. case a_limit a cfg (rq_ip rq) (tick w) of
            None \<Rightarrow> k (step_tick w)
          | Some err \<Rightarrow> (Inl err, step_tick w))"

definition guarded :: "api \<Rightarrow> guard \<Rightarrow> http_request \<Rightarrow> 'a go \<Rightarrow> 'a go" where
  "guarded a g rq k =
     (case g of
        Open \<Rightarrow> k
      | Limited cfg \<Rightarrow> RateLimitPerIP a cfg rq k
      | Authenticated \<Rightarrow> RequireAuth (a_lib a) (a_issuer a) (rq_authorization rq) (\<lambda>_. k))"

definition dispatch :: "api \<Rightarrow> http_request \<Rightarrow> reply go" where
  "dispatch a rq =
     (case find (takes rq) (routes a) of
        None \<Rightarrow> fail (a_unrouted a rq)
      | Some r \<Rightarrow>
          guarded a (rt_guard r) rq
            (rt_handler r \<lparr>cx_request = rq, cx_params = the (match_path (rt_pattern r) (rq_path rq))\<rparr>))"

definition serve :: "api \<Rightarrow> http_request \<Rightarrow> reply go" where
  "serve a rq =
     handle (dispatch a rq)
       (\<lambda>err. case ErrorHandler (a_status_text a) err False (rq_method rq) of
                None \<Rightarrow> NoContent 200
              | Some (resp, level) \<Rightarrow>
                  bind (log level (if level = LevelError then ''request failed'' else ''request rejected'')) (\<lambda>_.
                  ret \<lparr>re_status = resp_status resp, re_cache = None,
                       re_body = (case resp_body resp of None \<Rightarrow> NoBody | Some b \<Rightarrow> ErrorBody b)\<rparr>))
       ret"

section \<open>What every route guarantees\<close>

lemma readonly_views [readonly_intros]:
  "readonly (orderDetail orderEventLookupAdapter n)"
  "readonly (qrImage encode n)"
  "readonly (listOrders parse orderEventLookupAdapter st ev)"
  "readonly (listAttendees parse orderEventLookupAdapter oid ev)"
  unfolding orderDetail_def qrImage_def listOrders_def listAttendees_def Let_def
  by (intro readonly_intros event_views.readonly_OrderByNumber event_views.readonly_ListOrders
      event_views.readonly_ListAttendees)+

lemma readonly_ticket_lookups [readonly_intros]:
  "readonly (ticket_Validate uc code)" "readonly (LookupPublic uc code)" "readonly (validate_handler uc body)"
  unfolding validate_handler_def ticket_Validate_def LookupPublic_def Let_def
  by (intro readonly_intros)+

lemma guest_handlers_evolve:
  assumes "r \<in> set (event_public_routes @ order_public_routes a @ payment_public_routes a @
    ticket_public_routes a g @ payment_refresh_routes a g @ login_routes a)"
  shows "ensures evolves (rt_handler r c)"
proof -
  have "ensures evolves listEvents" "ensures evolves (getEventBySlug c)"
    "ensures evolves (lookup_handler (a_upper a) c)" "ensures evolves (login (a_lib a) (a_issuer a) (a_decoders a) c)"
    unfolding listEvents_def getEventBySlug_def lookup_handler_def login_def
    by (intro readonly_evolves readonly_intros)+
  moreover have "ensures evolves (bind (orderDetail orderEventLookupAdapter n) (\<lambda>(cache, detail).
      ret \<lparr>re_status = 200, re_cache = Some cache, re_body = OrderPageBody detail\<rparr>))"
    "ensures evolves (bind (qrImage (a_qr_encode a) n) (\<lambda>(cache, png).
      ret \<lparr>re_status = 200, re_cache = Some cache, re_body = PngBody png\<rparr>))" for n
    unfolding case_prod_beta by (intro readonly_evolves readonly_intros)+
  moreover have "ensures evolves (bind (api_checkout a body) (\<lambda>resp. JSON 201 (PlacedBody resp)))" for body
    unfolding api_checkout_def checkout_handler_def by (intro evolve_intros checkouts.checkout_evolves)
  moreover have "ensures evolves (bind (webhook (api_payments a) p b sg) (\<lambda>_. NoContent 200))" for p b sg
    unfolding api_payments_def by (intro evolve_intros payments.webhook_evolves)
  moreover have "ensures evolves (bind (refreshStatus (api_payments a) n) (\<lambda>resp. JSON 200 (RefreshBody resp)))" for n
    unfolding api_payments_def by (intro evolve_intros payments.refreshStatus_evolves)
  ultimately show ?thesis
    using assms
    by (auto simp: event_public_routes_def order_public_routes_def payment_public_routes_def
        ticket_public_routes_def payment_refresh_routes_def login_routes_def GET_def POST_def)
qed

lemma admin_handlers_orders:
  assumes "r \<in> set (event_admin_routes a g @ order_admin_routes a g @ ticket_admin_routes a g @ notification_admin_routes a g)"
  shows "ensures orders_evolve (rt_handler r c)"
proof -
  let ?dc = "a_decoders a" and ?oc = "Some orderChecker"
  have "ensures orders_evolve adminListEvents" "ensures orders_evolve (adminCreateEvent ?dc c)"
    "ensures orders_evolve (adminGetEvent ?oc ?dc c)" "ensures orders_evolve (adminUpdateEvent ?dc c)"
    "ensures orders_evolve (adminDeleteEvent ?oc ?dc c)" "ensures orders_evolve (adminListTicketTypes ?oc ?dc c)"
    "ensures orders_evolve (adminCreateTicketType ?dc c)" "ensures orders_evolve (adminGetTicketType ?oc ?dc c)"
    "ensures orders_evolve (adminUpdateTicketType ?oc ?dc c)" "ensures orders_evolve (adminDeleteTicketType ?oc ?dc c)"
    unfolding adminListEvents_def adminCreateEvent_def adminGetEvent_def adminUpdateEvent_def adminDeleteEvent_def
      adminListTicketTypes_def adminCreateTicketType_def adminGetTicketType_def adminUpdateTicketType_def
      adminDeleteTicketType_def Let_def
    by (intro orders_intros)+
  moreover have "ensures orders_evolve (bind (listOrders parse orderEventLookupAdapter st ev) (\<lambda>rows. JSON 200 (OrdersBody rows)))"
    "ensures orders_evolve (bind (listAttendees parse orderEventLookupAdapter st ev) (\<lambda>rows. JSON 200 (AttendeesBody rows)))"
    "ensures orders_evolve (bind (validate_handler uc body) (\<lambda>result. JSON 200 (ValidationBody result)))" for parse st ev uc body
    by (intro readonly_ensures_orders readonly_intros)+
  moreover have "ensures orders_evolve (markUsed_handler (a_upper a) c)"
    unfolding markUsed_handler_def by (intro evolves_ensures_orders evolve_intros)
  moreover have "ensures orders_evolve (bind (resend (notificationService d s) i) (\<lambda>resp. JSON 200 (ResentBody resp)))" for d s i
    by (intro evolves_ensures_orders evolve_intros deliveries.resend_evolves)
  ultimately show ?thesis
    using assms
    by (auto simp: event_admin_routes_def order_admin_routes_def ticket_admin_routes_def notification_admin_routes_def
        GET_def POST_def PUT_def DELETE_def Let_def)
qed

section \<open>An installation to evaluate with\<close>

definition sample_env :: provider_env where
  "sample_env = \<lparr>env_call = (\<lambda>_ meth _ _. Inr (''body'', if meth = ''POST'' then 201 else 200)),
     env_charge = (\<lambda>_. Inr \<lparr>cs_transaction_id = ''tx'', cs_qr_string = ''QR'', cs_expiry_time = ''2026-01-01 00:15:00'',
       cs_status_message = '''', cs_actions = [], cs_validation_messages = []\<rparr>),
     env_status = (\<lambda>_. Inr \<lparr>st_status_code = ''200'', st_transaction_id = ''tx'', st_order_id = ''ORD-A'',
       st_transaction_status = ''settlement'', st_fraud_status = '''', st_payment_type = ''qris'', st_status_message = ''''\<rparr>),
     env_notification = (\<lambda>_. Inr \<lparr>mn_order_id = ''ORD-A'', mn_status_code = ''200'', mn_gross_amount = ''100.00'',
       mn_signature_key = ''ORD-A200100.00key'', mn_transaction_id = ''tx'', mn_transaction_status = ''settlement'',
       mn_fraud_status = '''', mn_payment_type = ''qris''\<rparr>),
     env_sha512_hex = (\<lambda>s. s), env_PathEscape = (\<lambda>s. s), env_lower = (\<lambda>s. s),
     env_runes = map (\<lambda>c. [c])\<rparr>"

definition sample_gateway :: MidtransGateway where
  "sample_gateway = \<lparr>mg_serverKey = ''key'', mg_baseURL = ''http://api'', mg_paymentExpiry = 900000000000\<rparr>"

definition sample_decoders :: decoders where
  "sample_decoders = \<lparr>dc_uuid = (\<lambda>s. if s = ''u1'' then Inr 1 else if s = ''u20'' then Inr 20 else Inl (DriverError ''uuid'')),
     dc_event = (\<lambda>_. Inl (DriverError ''json'')), dc_ticket_type = (\<lambda>_. Inl (DriverError ''json'')),
     dc_checkout = (\<lambda>_. Inl (DriverError ''json'')),
     dc_validate = (\<lambda>rq. case rq_body rq of None \<Rightarrow> Inl (DriverError ''json'') | Some b \<Rightarrow> Inr b),
     dc_login = (\<lambda>_. Inl (DriverError ''json''))\<rparr>"

definition sample_api :: api where
  "sample_api = \<lparr>a_env = sample_env, a_gateway = sample_gateway, a_delivery = sample_delivery_env, a_smtp = sample_smtp,
     a_lib = sample_lib, a_issuer = sample_issuer, a_decoders = sample_decoders,
     a_ParseAddress = (\<lambda>_. True), a_iter = (\<lambda>m. m), a_upper = (\<lambda>s. s), a_qr_encode = Inr,
     a_lookup_limit = \<lparr>lm_rate = 1, lm_burst = 10, lm_expires = rateLimitWindow\<rparr>,
     a_limit = (\<lambda>_ _ _. None), a_unrouted = (\<lambda>_. HTTPError 404 (Some ''Not Found'') None),
     a_status_text = (\<lambda>_. [])\<rparr>"

definition sample_get :: "string \<Rightarrow> string list \<Rightarrow> string \<Rightarrow> http_request" where
  "sample_get meth path auth = \<lparr>rq_method = meth, rq_path = ''api'' # ''v1'' # path, rq_query = [],
     rq_authorization = auth, rq_signature = [], rq_body = Some ''abcdefghjk'', rq_ip = ''ip''\<rparr>"

section \<open>The routing table\<close>

text \<open>No path matches two patterns that differ in length or in a literal.\<close>

fun clash :: "seg list \<Rightarrow> seg list \<Rightarrow> bool" where
  "clash [] [] = False"
| "clash [] (_ # _) = True"
| "clash (_ # _) [] = True"
| "clash (Lit a # p) (Lit b # q) = (a \<noteq> b \<or> clash p q)"
| "clash (Arg _ # p) (_ # q) = clash p q"
| "clash (Lit _ # p) (Arg _ # q) = clash p q"

lemma match_path_Nil: "match_path p [] \<noteq> None \<Longrightarrow> p = []"
proof (cases p)
  case (Cons x q)
  then show "match_path p [] \<noteq> None \<Longrightarrow> p = []" by (cases x) simp_all
qed simp

lemma match_path_Cons:
  assumes "match_path p (s # ss) \<noteq> None"
  obtains (lit) q where "p = Lit s # q" "match_path q ss \<noteq> None"
    | (arg) n q where "p = Arg n # q" "match_path q ss \<noteq> None"
proof (cases p)
  case (Cons x q)
  with assms that show ?thesis by (cases x) (auto split: if_splits)
qed (use assms in simp)

lemma clash_sound: "match_path p ss \<noteq> None \<Longrightarrow> match_path q ss \<noteq> None \<Longrightarrow> \<not> clash p q"
proof (induction ss arbitrary: p q)
  case Nil
  then have "p = []" "q = []" using match_path_Nil by blast+
  then show ?case by simp
next
  case (Cons s ss)
  from Cons.prems(1) show ?case
    by (rule match_path_Cons; use Cons.prems(2) in \<open>rule match_path_Cons\<close>) (simp_all add: Cons.IH)
qed

lemma match_path_Lit: "match_path (Lit l # p) ss \<noteq> None \<Longrightarrow> \<exists>rest. ss = l # rest \<and> match_path p rest \<noteq> None"
  by (cases ss) (auto split: if_splits)

lemma match_path_prefix: "match_path (Lit k # Lit l # Lit m # p) ss \<noteq> None \<Longrightarrow> \<exists>rest. ss = k # l # m # rest"
  by (auto dest!: match_path_Lit simp del: not_None_eq not_Some_eq)

lemma match_path_last: "match_path [Lit l] ss \<noteq> None \<Longrightarrow> ss = [l]"
  by (cases ss; cases "tl ss") (auto split: if_splits)

definition disjoint_keys :: "string \<times> seg list \<Rightarrow> string \<times> seg list \<Rightarrow> bool" where
  "disjoint_keys k l \<longleftrightarrow> fst k \<noteq> fst l \<or> clash (snd k) (snd l)"

definition route_key :: "route \<Rightarrow> string \<times> seg list" where
  "route_key r = (rt_method r, rt_pattern r)"

lemmas route_table_defs = routes_def event_public_routes_def order_public_routes_def payment_public_routes_def
  ticket_public_routes_def payment_refresh_routes_def login_routes_def event_admin_routes_def
  order_admin_routes_def ticket_admin_routes_def notification_admin_routes_def Let_def
  GET_def POST_def PUT_def DELETE_def under_api_def

lemma routes_disjoint: "sorted_wrt disjoint_keys (map route_key (routes a))"
  by (simp add: route_table_defs route_key_def disjoint_keys_def)

text \<open>
  C26: Routing is unambiguous: no request is taken by two different routes of the table, so the order
  in which the domains register their routes does not matter.
\<close>

theorem routes_unambiguous:
  assumes "r \<in> set (routes a)" "r' \<in> set (routes a)" and "takes rq r" "takes rq r'"
  shows "r = r'"
proof -
  have no: "\<not> disjoint_keys (route_key x) (route_key y)" if "takes rq x" "takes rq y" for x y
    using that clash_sound by (auto simp: takes_def disjoint_keys_def route_key_def)
  from assms obtain i j where ij: "i < length (routes a)" "routes a ! i = r" "j < length (routes a)" "routes a ! j = r'"
    by (auto simp: in_set_conv_nth)
  have "disjoint_keys (route_key (routes a ! k)) (route_key (routes a ! l))" if "k < l" "l < length (routes a)" for k l
    using routes_disjoint that by (auto simp: sorted_wrt_iff_nth_less)
  with ij no assms(3,4) have "i = j" by (metis linorder_neqE_nat)
  with ij show ?thesis by simp
qed

definition route_sample :: http_request where
  "route_sample = \<lparr>rq_method = ''GET'', rq_path = [''api'', ''v1'', ''events'', ''jazz''], rq_query = [],
     rq_authorization = [], rq_signature = [], rq_body = None, rq_ip = []\<rparr>"

theorem routes_unambiguous_witness:
  "\<exists>!r. r \<in> set (routes sample_api) \<and> takes route_sample r"
proof -
  have "GET Open [Lit ''events'', Arg ''slug''] getEventBySlug \<in> set (routes sample_api)"
    by (simp add: routes_def event_public_routes_def)
  moreover have "takes route_sample (GET Open [Lit ''events'', Arg ''slug''] getEventBySlug)"
    by (simp add: takes_def route_sample_def GET_def under_api_def)
  ultimately show ?thesis using routes_unambiguous by blast
qed

section \<open>Authentication\<close>

lemma admin_route_guard:
  assumes "r \<in> set (routes a)" and "takes rq r" and "rq_path rq = ''api'' # ''v1'' # ''admin'' # rest"
  shows "rt_guard r = Authenticated \<or> rq_method rq = ''POST'' \<and> rest = [''login'']"
  using assms match_path_last [of "''login''" rest]
  by (auto simp: route_table_defs takes_def split: if_splits)

text \<open>
  C23: Nothing under \<open>/api/v1/admin\<close> but the login is reachable without a valid token: whatever the
  request, if its authorization header carries no bearer token or one that does not verify, the
  request fails, no handler runs, and neither the database nor the post-payment work is touched.
\<close>

theorem admin_needs_token:
  assumes "rq_path rq = ''api'' # ''v1'' # ''admin'' # rest" and "\<not> (rq_method rq = ''POST'' \<and> rest = [''login''])"
    and "has_bearer (rq_authorization rq) \<Longrightarrow>
      isl (fst (Verify (a_lib a) (a_issuer a) (TrimSpace (drop (length bearerPrefix) (rq_authorization rq))) w))"
    and "dispatch a rq w = (r, w')"
  shows "isl r \<and> wdb w' = wdb w \<and> fulfillment w' = fulfillment w \<and>
    (\<forall>rt. find (takes rq) (routes a) = Some rt \<longrightarrow> HTTPStatus (projl r) = 401)"
proof (cases "find (takes rq) (routes a)")
  case None
  with assms(4) show ?thesis by (auto simp: dispatch_def)
next
  case (Some rt)
  then have "rt \<in> set (routes a)" "takes rq rt" by (auto dest: find_SomeD)
  from admin_route_guard [OF this assms(1)] assms(2) have "rt_guard rt = Authenticated" by blast
  then obtain k where run: "RequireAuth (a_lib a) (a_issuer a) (rq_authorization rq) k w = (r, w')"
    using assms(4) Some by (auto simp: dispatch_def guarded_def)
  show ?thesis
  proof (cases "has_bearer (rq_authorization rq)")
    case False
    with run show ?thesis by (auto simp: RequireAuth_def apperr_defs)
  next
    case True
    obtain q w1 where q: "Verify (a_lib a) (a_issuer a) (TrimSpace (drop (length bearerPrefix) (rq_authorization rq))) w = (q, w1)"
      by fastforce
    with assms(3) True obtain e where "q = Inl e" by (auto simp: isl_def)
    moreover have "wdb w1 = wdb w" "fulfillment w1 = fulfillment w"
      using readonlyD [OF readonly_admin_parts(3) q] quietD [OF quiet_Verify q] .
    ultimately show ?thesis using run q True by (auto simp: RequireAuth_def handle_def apperr_defs)
  qed
qed

theorem admin_needs_token_witness:
  "isl (fst (dispatch sample_api (sample_get ''GET'' [''admin'', ''events''] []) sample_world)) \<and>
   wdb (snd (dispatch sample_api (sample_get ''GET'' [''admin'', ''events''] []) sample_world)) = sample_db \<and>
   isl (fst (dispatch sample_api (sample_get ''GET'' [''admin'', ''events''] ''Bearer forged'') sample_world)) \<and>
   \<not> isl (fst (dispatch sample_api (sample_get ''GET'' [''admin'', ''events''] ''Bearer token'') sample_world))"
proof -
  have path: "rq_path (sample_get ''GET'' [''admin'', ''events''] auth) = ''api'' # ''v1'' # ''admin'' # [''events'']"
    and get: "\<not> (rq_method (sample_get ''GET'' [''admin'', ''events''] auth) = ''POST'' \<and> [''events''] = [''login''])"
    and auth: "rq_authorization (sample_get ''GET'' [''admin'', ''events''] auth) = auth" for auth
    by (simp_all add: sample_get_def)
  have run: "dispatch sample_api rq sample_world = (fst (dispatch sample_api rq sample_world), snd (dispatch sample_api rq sample_world))" for rq
    by simp
  have "isl (fst (Verify sample_lib sample_issuer (TrimSpace (drop (length bearerPrefix) ''Bearer forged'')) sample_world))"
    by code_simp
  then have bad: "has_bearer auth \<Longrightarrow> isl (fst (Verify (a_lib sample_api) (a_issuer sample_api)
      (TrimSpace (drop (length bearerPrefix) auth)) sample_world))" if "auth = [] \<or> auth = ''Bearer forged''" for auth
    using that by (auto simp: sample_api_def has_bearer_def)
  have "\<not> isl (fst (dispatch sample_api (sample_get ''GET'' [''admin'', ''events''] ''Bearer token'') sample_world))"
    by code_simp
  with admin_needs_token [OF path get bad [folded auth] run, unfolded auth, of "[]"]
    admin_needs_token [OF path get bad [folded auth] run, unfolded auth, of "''Bearer forged''"]
  show ?thesis by (simp add: sample_world_def)
qed

section \<open>Any request\<close>

context guarantee begin

lemma ensures_guarded:
  assumes k: "ensures G k"
  shows "ensures G (guarded a g rq k)"
proof -
  have "ensures G (Verify lib t raw)" for lib t raw
    using readonlyD [OF readonly_admin_parts(3)] by (metis G_refl ensuresI)
  then have "ensures G (RequireAuth lib t header (\<lambda>_. k))" for lib t header
    unfolding RequireAuth_def by (intro ensures_rules k)
  moreover have "ensures G (RateLimitPerIP a cfg rq k)" for cfg
    using k by (auto simp: ensures_def RateLimitPerIP_def step_tick_def G_refl dest: spec [where x = "step_tick _"] split: option.split)
  ultimately show ?thesis using k by (simp add: guarded_def split: guard.split)
qed

lemma ensures_dispatch:
  assumes "\<And>r. r \<in> set (routes a) \<Longrightarrow> takes rq r \<Longrightarrow> ensures G (rt_handler r \<lparr>cx_request = rq,
      cx_params = the (match_path (rt_pattern r) (rq_path rq))\<rparr>)"
  shows "ensures G (dispatch a rq)"
  unfolding dispatch_def by (auto intro!: ensures_fail ensures_guarded assms dest: find_SomeD split: option.split)

lemma ensures_serve:
  assumes "ensures G (dispatch a rq)"
  shows "ensures G (serve a rq)"
  unfolding serve_def NoContent_def
  by (auto intro!: ensures_handle assms ensures_ret ensures_bind ensures_log split: option.split)

end

lemma healthz_readonly: "readonly healthz"
  unfolding healthz_def by (intro readonly_intros)

lemma route_cases:
  assumes "r \<in> set (routes a)"
  obtains (guest) g where "r \<in> set (event_public_routes @ order_public_routes a @ payment_public_routes a @
      ticket_public_routes a g @ payment_refresh_routes a g @ login_routes a)"
    | (admin) g where "r \<in> set (event_admin_routes a g @ order_admin_routes a g @ ticket_admin_routes a g @
      notification_admin_routes a g)" "\<exists>p. rt_pattern r = Lit ''api'' # Lit ''v1'' # Lit ''admin'' # p"
    | (health) "rt_handler r = (\<lambda>_. healthz)"
proof -
  have "\<exists>p. rt_pattern x = Lit ''api'' # Lit ''v1'' # Lit ''admin'' # p"
    if "x \<in> set (event_admin_routes a g @ order_admin_routes a g @ ticket_admin_routes a g @ notification_admin_routes a g)" for x g
    using that by (auto simp: route_table_defs)
  with assms guest admin health show thesis by (simp add: routes_def) (elim disjE; fastforce)
qed

text \<open>
  C24: Whatever request arrives, the schema still holds after it, no order has disappeared, no
  order's lines have changed, and an order that was paid, cancelled or expired still is. Unless the
  request is for an admin route, the quota plus the seats held by orders is unchanged for every
  ticket type.
\<close>

theorem requests_keep_orders:
  assumes "serve a rq w = (r, w')" and "schema_ok (wdb w)"
  shows "schema_ok (wdb w') \<and>
    (\<forall>i s. order_status (wdb w) i = Some s \<longrightarrow>
      (\<exists>s'. order_status (wdb w') i = Some s' \<and> (s' = s \<or> s = OrderStatusPending)) \<and> lines_of (wdb w') i = lines_of (wdb w) i) \<and>
    ((\<forall>rest. rq_path rq \<noteq> ''api'' # ''v1'' # ''admin'' # rest) \<longrightarrow> ledger (wdb w') = ledger (wdb w))"
proof -
  have "ensures orders_evolve (rt_handler x c)" if "x \<in> set (routes a)" for x c
    using that
  proof (cases rule: route_cases)
    case guest
    then show ?thesis by (rule evolves_ensures_orders [OF guest_handlers_evolve])
  next
    case admin
    then show ?thesis by (intro admin_handlers_orders)
  next
    case health
    then show ?thesis by (simp add: readonly_ensures_orders healthz_readonly)
  qed
  then have "ensures orders_evolve (serve a rq)"
    by (intro orders_evo.ensures_serve orders_evo.ensures_dispatch)
  then have "orders_evolve (wdb w) (wdb w')" using assms(1) by (rule ensuresD)
  moreover have "ledger (wdb w') = ledger (wdb w)" if guest_path: "\<And>rest. rq_path rq \<noteq> ''api'' # ''v1'' # ''admin'' # rest"
  proof -
    have "ensures evolves (rt_handler x c)" if x: "x \<in> set (routes a)" "takes rq x" for x c
      using x(1)
    proof (cases rule: route_cases)
      case (admin g)
      then obtain p where "rt_pattern x = Lit ''api'' # Lit ''v1'' # Lit ''admin'' # p" by blast
      with x(2) have "match_path (Lit ''api'' # Lit ''v1'' # Lit ''admin'' # p) (rq_path rq) \<noteq> None"
        unfolding takes_def by metis
      from match_path_prefix [OF this] guest_path show ?thesis by blast
    next
      case guest
      then show ?thesis by (rule guest_handlers_evolve)
    next
      case health
      then show ?thesis by (simp add: readonly_evolves healthz_readonly)
    qed
    then have "ensures evolves (serve a rq)" by (intro evo.ensures_serve evo.ensures_dispatch)
    from ensuresD [OF this assms(1)] assms(2) show ?thesis by (simp add: evolves_def)
  qed
  ultimately show ?thesis using assms(2) by (simp add: orders_evolve_def status_path_def)
qed

definition sample_use :: http_request where
  "sample_use = sample_get ''POST'' [''admin'', ''tickets'', ''ABCDEFGHJK'', ''use''] ''Bearer token''"

definition sample_refresh :: http_request where
  "sample_refresh = sample_get ''POST'' [''orders'', ''ORD-A'', ''payment'', ''refresh''] []"

theorem requests_keep_orders_witness:
  "re_status (projr (fst (serve sample_api sample_refresh sample_world))) = 200 \<and>
   order_status (wdb (snd (serve sample_api sample_refresh sample_world))) 20 = Some OrderStatusExpired \<and>
   ledger (wdb (snd (serve sample_api sample_refresh sample_world))) = ledger sample_db \<and>
   lines_of (wdb (snd (serve sample_api sample_refresh sample_world))) 21 = lines_of sample_db 21"
proof -
  have "serve sample_api sample_refresh sample_world =
      (fst (serve sample_api sample_refresh sample_world), snd (serve sample_api sample_refresh sample_world))" by simp
  note kept = requests_keep_orders [OF this sample_world_schema]
  have "re_status (projr (fst (serve sample_api sample_refresh sample_world))) = 200"
    "order_status (wdb (snd (serve sample_api sample_refresh sample_world))) 20 = Some OrderStatusExpired"
    "order_status sample_db 21 = Some OrderStatusPaid" by code_simp+
  moreover have "rq_path sample_refresh \<noteq> ''api'' # ''v1'' # ''admin'' # rest" for rest
    by (simp add: sample_refresh_def sample_get_def)
  ultimately show ?thesis using kept by (simp add: sample_world_def)
qed

text \<open>
  C25: A request that fails gets the one error envelope: status, code and message of the application
  error found in its chain. A failure that carries neither an application error nor an HTTP error,
  such as a broken database connection, is a 500 whose body is the fixed code and message, and
  discloses nothing of its cause.
\<close>

theorem failures_are_enveloped:
  assumes "dispatch a rq w = (Inl e, v)" and "rq_method rq \<noteq> ''HEAD''"
  shows "\<exists>st code msg. re_status (projr (fst (serve a rq w))) = st \<and>
    re_body (projr (fst (serve a rq w))) = ErrorBody \<lparr>ErrorCode = code, BodyMessage = msg\<rparr> \<and>
    (\<forall>st' code' msg' cause. errors_As is_AppErr e = Some (AppError st' code' msg' cause) \<longrightarrow> st = st' \<and> code = code' \<and> msg = msg') \<and>
    (errors_As is_AppErr e = None \<and> errors_As is_EchoErr e = None \<longrightarrow>
       st = 500 \<and> code = CodeInternal \<and> msg = text_msg ''An unexpected error occurred.'')"
proof -
  obtain st code msg cause where app: "toAppError (a_status_text a) e = AppError st code msg cause"
    using toAppError_is_AppErr [of "a_status_text a" e] by (cases "toAppError (a_status_text a) e") auto
  with assms have "fst (serve a rq w) = Inr \<lparr>re_status = st, re_cache = None,
      re_body = ErrorBody \<lparr>ErrorCode = code, BodyMessage = msg\<rparr>\<rparr>"
    by (simp add: serve_def handle_def ErrorHandler_def bind_run Let_def)
  with app show ?thesis by (auto simp: toAppError_def apperr_defs split: option.splits)
qed

theorem failures_are_enveloped_witness:
  "let broken = sample_world\<lparr>faults := (\<lambda>_. True)\<rparr>; rq = sample_get ''GET'' [''events''] [] in
   re_status (projr (fst (serve sample_api rq broken))) = 500 \<and>
   re_body (projr (fst (serve sample_api rq broken))) =
     ErrorBody \<lparr>ErrorCode = CodeInternal, BodyMessage = text_msg ''An unexpected error occurred.''\<rparr>"
proof -
  let ?w = "sample_world\<lparr>faults := (\<lambda>_. True)\<rparr>" and ?rq = "sample_get ''GET'' [''events''] []"
  have e: "fst (dispatch sample_api ?rq ?w) = Inl (Errorf (text_msg ''list published events: %w'') [DriverError ''database''])"
    by code_simp
  then have "dispatch sample_api ?rq ?w = (Inl (Errorf (text_msg ''list published events: %w'') [DriverError ''database'']),
      snd (dispatch sample_api ?rq ?w))" by (simp add: prod_eq_iff)
  from failures_are_enveloped [OF this] show ?thesis
    by (auto simp: sample_get_def errors_As_def Let_def)
qed

end
