(* ===== verification/System.thy ===== *)
theory System
  imports Api
begin

text \<open>
  The running backend: requests, provider notifications, the sweeper and the goroutines of the
  post-payment work, interleaved. A step is one database transaction or one statement outside a
  transaction; between two steps of one thread any number of steps of others may happen, so a
  thread acts on what it has read earlier. Transactions run at \<open>READ COMMITTED\<close> and are taken as
  one step where what they write is decided by guarded updates and unique keys, whose row locks hold
  until the commit: reservations, status changes with the seats they return, and the issue of
  tickets. The guard of an admin's deletion locks nothing, so a deletion is two steps, the guard's
  answer and, any number of other steps later, the \<open>DELETE\<close>s: \<open>event_purged\<close> and \<open>type_purged\<close>
  run them whatever the orders are by then. The state keeps exactly what threads remember:

  \<^item> \<open>y_checkouts\<close>: checkouts that have reserved their seats and wait for the gateway;
  \<^item> \<open>y_refs\<close>: references to orders read by webhooks, refreshes and sweeps, with the status and
    the deadline they had then;
  \<^item> \<open>y_results\<close>: results of the provider, verified or fetched, with the order number each is about;
  \<^item> \<open>y_jobs\<close>: goroutines of \<open>fulfill\<close> at work, \<open>y_taken\<close> those ever started.

  References and results are never forgotten, so anything a thread may still do with them stays
  possible. A thread that dies is one that takes no further step.
\<close>

section \<open>States\<close>

datatype job = Started | HasAttendees "uuid list" | NoTickets "uuid list"

record sys =
  y_world :: world
  y_checkouts :: "(CheckoutRequest \<times> OrderRecord \<times> decimal \<times> reservedLine list) list"
  y_refs :: "OrderRef list"
  y_results :: "(string \<times> WebhookResult) list"
  y_jobs :: "(uuid \<times> job) list"
  y_taken :: "uuid list"

abbreviation y_db :: "sys \<Rightarrow> database" where "y_db s \<equiv> wdb (y_world s)"

definition boot :: "world \<Rightarrow> sys" where
  "boot w = \<lparr>y_world = w, y_checkouts = [], y_refs = [], y_results = [], y_jobs = [], y_taken = []\<rparr>"

definition api_gw :: "api \<Rightarrow> PaymentGateway" where
  "api_gw a = gatewayAdapter (midtransGateway (a_env a) (a_gateway a))"

abbreviation api_orders where "api_orders a \<equiv> s_orders (api_payments a)"

section \<open>Steps of the shop\<close>

inductive shop_step :: "api \<Rightarrow> sys \<Rightarrow> sys \<Rightarrow> bool" for a where
  idle: "wdb w = y_db s \<Longrightarrow> fulfillment w = fulfillment (y_world s) \<Longrightarrow> shop_step a s (s\<lparr>y_world := w\<rparr>)"
| reserved: "CheckoutRequest_Validate (a_ParseAddress a) (a_iter a) req = None \<Longrightarrow>
    reserveOnce eventProviderAdapter req (y_world s) = (Inr (created, amount, lines), w) \<Longrightarrow>
    shop_step a s (s\<lparr>y_world := w, y_checkouts := y_checkouts s @ [(req, created, amount, lines)]\<rparr>)"
| session_recorded: "y_checkouts s = xs @ (req, created, amount, lines) # ys \<Longrightarrow>
    gw_CreateTransaction (api_gw a) (paymentRequestFor created amount lines req) v = (Inr session, v') \<Longrightarrow>
    InTx (order_UpdatePaymentDetails (or_id created)
      \<lparr>pd_url = ps_qr_image session, pd_provider = gw_Name (api_gw a),
       pd_qr_string = ps_qr_string session, pd_expires_at = ps_expires_at session\<rparr>) (y_world s) = (r, w) \<Longrightarrow>
    shop_step a s (s\<lparr>y_world := w, y_checkouts := xs @ ys\<rparr>)"
| compensated: "y_checkouts s = xs @ (req, created, amount, lines) # ys \<Longrightarrow>
    gw_CreateTransaction (api_gw a) (paymentRequestFor created amount lines req) v = (Inl err, v') \<Longrightarrow>
    compensate eventProviderAdapter created lines (y_world s) = (r, w) \<Longrightarrow>
    shop_step a s (s\<lparr>y_world := w, y_checkouts := xs @ ys\<rparr>)"
| order_read: "op_OrderByNumber (api_orders a) n (y_world s) = (Inr ref, w) \<Longrightarrow>
    shop_step a s (s\<lparr>y_world := w, y_refs := y_refs s @ [ref]\<rparr>)"
| due_read: "op_DueForExpiry (api_orders a) t expiryBatchSize (y_world s) = (Inr refs, w) \<Longrightarrow>
    shop_step a s (s\<lparr>y_world := w, y_refs := y_refs s @ refs\<rparr>)"
| verified: "g_VerifyWebhook (s_gateway (api_payments a)) payload signature = Inr result \<Longrightarrow>
    shop_step a s (s\<lparr>y_results := y_results s @ [(wr_number result, result)]\<rparr>)"
| fetched: "g_FetchStatus (s_gateway (api_payments a)) n (y_world s) = (Inr result, w) \<Longrightarrow>
    shop_step a s (s\<lparr>y_world := w, y_results := y_results s @ [(n, result)]\<rparr>)"
| logged: "ref \<in> set (y_refs s) \<Longrightarrow> (rf_number ref, result) \<in> set (y_results s) \<Longrightarrow>
    payment_CreatePayment \<lparr>pl_order = rf_id ref, pl_provider = provider,
             pl_transaction = wr_transaction result, pl_type = wr_type result,
             pl_status = wr_status result, pl_raw = wr_raw result\<rparr> (y_world s) = (r, w) \<Longrightarrow>
    shop_step a s (s\<lparr>y_world := w\<rparr>)"
| settled: "ref \<in> set (y_refs s) \<Longrightarrow> (rf_number ref, result) \<in> set (y_results s) \<Longrightarrow>
    settle (api_payments a) ref result (y_world s) = (b, w) \<Longrightarrow>
    shop_step a s (s\<lparr>y_world := w\<rparr>)"
| expired: "ref \<in> set (y_refs s) \<Longrightarrow> expireIfDue (api_payments a) ref (y_world s) = (b, w) \<Longrightarrow>
    shop_step a s (s\<lparr>y_world := w\<rparr>)"
| job_started: "count_list (y_taken s) i < count_list (fulfillment (y_world s)) i \<Longrightarrow>
    shop_step a s (s\<lparr>y_taken := y_taken s @ [i], y_jobs := y_jobs s @ [(i, Started)]\<rparr>)"
| job_attendees: "y_jobs s = xs @ (i, Started) # ys \<Longrightarrow>
    order_AttendeeIDsForOrder i (y_world s) = (Inr ids, w) \<Longrightarrow>
    shop_step a s (s\<lparr>y_world := w, y_jobs := xs @ (i, HasAttendees ids) # ys\<rparr>)"
| job_checked: "y_jobs s = xs @ (i, HasAttendees ids) # ys \<Longrightarrow> ids \<noteq> [] \<Longrightarrow>
    ticket_ListByOrderID i (y_world s) = (Inr [], w) \<Longrightarrow>
    shop_step a s (s\<lparr>y_world := w, y_jobs := xs @ (i, NoTickets ids) # ys\<rparr>)"
| job_issued: "y_jobs s = xs @ (i, NoTickets ids) # ys \<Longrightarrow>
    InTx (for_each ids (\<lambda>attendeeID. createOneTicket i attendeeID)) (y_world s) = (r, w) \<Longrightarrow>
    shop_step a s (s\<lparr>y_world := w, y_jobs := xs @ ys\<rparr>)"
| emailed: "order_SetEmailSent i (y_world s) = (r, w) \<Longrightarrow> shop_step a s (s\<lparr>y_world := w\<rparr>)"
| admitted: "ticket_MarkUsed code (y_world s) = (r, w) \<Longrightarrow> shop_step a s (s\<lparr>y_world := w\<rparr>)"

section \<open>Steps of the admins\<close>

inductive admin_step :: "sys \<Rightarrow> sys \<Rightarrow> bool" where
  event_created: "event_CreateEvent p (y_world s) = (r, w) \<Longrightarrow> admin_step s (s\<lparr>y_world := w\<rparr>)"
| event_updated: "event_UpdateEvent i p (y_world s) = (r, w) \<Longrightarrow> admin_step s (s\<lparr>y_world := w\<rparr>)"
| event_deleted: "DeleteEvent (Some orderChecker) i (y_world s) = (u, w) \<Longrightarrow> admin_step s (s\<lparr>y_world := w\<rparr>)"
| type_created: "event_CreateTicketType q (y_world s) = (tt, w) \<Longrightarrow> admin_step s (s\<lparr>y_world := w\<rparr>)"
| type_updated: "event_UpdateTicketType i q (y_world s) = (tt, w) \<Longrightarrow> admin_step s (s\<lparr>y_world := w\<rparr>)"
| event_purged: "InTx (bind (event_DeleteTicketTypesByEventID i) (\<lambda>_. event_DeleteEvent i)) (y_world s) = (b, w) \<Longrightarrow>
    admin_step s (s\<lparr>y_world := w\<rparr>)"
| type_deleted: "DeleteTicketType (Some orderChecker) i (y_world s) = (u, w) \<Longrightarrow> admin_step s (s\<lparr>y_world := w\<rparr>)"
| type_purged: "event_DeleteTicketType i (y_world s) = (b, w) \<Longrightarrow> admin_step s (s\<lparr>y_world := w\<rparr>)"

definition sys_step :: "api \<Rightarrow> sys \<Rightarrow> sys \<Rightarrow> bool" where
  "sys_step a s s' \<longleftrightarrow> shop_step a s s' \<or> admin_step s s'"

abbreviation reaches :: "api \<Rightarrow> sys \<Rightarrow> sys \<Rightarrow> bool" where
  "reaches a \<equiv> (sys_step a)\<^sup>*\<^sup>*"

abbreviation shop_reaches :: "api \<Rightarrow> sys \<Rightarrow> sys \<Rightarrow> bool" where
  "shop_reaches a \<equiv> (shop_step a)\<^sup>*\<^sup>*"

section \<open>The book of orders\<close>

text \<open>
  What never changes of an order once it is placed: its identifier, number and total, its lines and
  its attendees. Only a reservation writes these, and it only adds to them.
\<close>

definition order_key :: "order_row \<Rightarrow> uuid \<times> string \<times> decimal" where
  "order_key r = (ord_id r, ord_number r, ord_total r)"

definition book :: "database \<Rightarrow> (uuid \<times> string \<times> decimal) list \<times> item_row list \<times> attendee_row list" where
  "book d = (map order_key (orders d), order_items d, attendees d)"

definition ticket_keys :: "database \<Rightarrow> (uuid \<times> uuid) list" where
  "ticket_keys d = map (\<lambda>t. (tk_order t, tk_attendee t)) (tickets d)"

interpretation books: guarantee "\<lambda>d d'. book d' = book d"
  by unfold_locales auto

named_theorems book_intros \<open>operations that leave the book alone\<close>

lemmas [book_intros] = books.ensures_rules

abbreviation records_kept :: "database \<Rightarrow> database \<Rightarrow> bool" where
  "records_kept d d' \<equiv> book d' = book d \<and> ticket_keys d' = ticket_keys d"

abbreviation untouched :: "database \<Rightarrow> database \<Rightarrow> bool" where
  "untouched d d' \<equiv> order_status d' = order_status d \<and> records_kept d d'"

lemma sql_untouched:
  "sql_UpdatePaymentDetails i url prov qr ex j t d = Inr (n, d') \<Longrightarrow> untouched d d'"
  "sql_SetEmailSent i j t d = Inr (n, d') \<Longrightarrow> untouched d d'"
  by (auto simp: book_def ticket_keys_def order_key_def sql_UpdatePaymentDetails_def sql_SetEmailSent_def
      map_upd_where order_status_unaffected split: if_splits option.splits)

lemma sql_untouched_orders:
  "sql_RestoreQuota k i j t d = Inr (m, d') \<Longrightarrow> untouched d d'"
  "sql_CreatePayment i prv tr ty st raw j t d = Inr (pr, d') \<Longrightarrow> untouched d d'"
  "sql_MarkTicketUsed c j t d = Inr (n, d') \<Longrightarrow> untouched d d'"
  "sql_CreateEvent p i t d = Inr (e, d') \<Longrightarrow> untouched d d'"
  "sql_UpdateEvent j p i t d = Inr (e, d') \<Longrightarrow> untouched d d'"
  "sql_DeleteTicketTypesByEventID j i t d = Inr (n, d') \<Longrightarrow> untouched d d'"
  "sql_DeleteEvent j i t d = Inr (n, d') \<Longrightarrow> untouched d d'"
  "sql_CreateTicketType q i t d = Inr (tt, d') \<Longrightarrow> untouched d d'"
  "sql_UpdateTicketType j q i t d = Inr (tt, d') \<Longrightarrow> untouched d d'"
  "sql_DeleteTicketType j i t d = Inr (n, d') \<Longrightarrow> untouched d d'"
  by (auto simp: book_def ticket_keys_def order_status_def sql_RestoreQuota_def sql_CreatePayment_def
      sql_MarkTicketUsed_def sql_CreateEvent_def sql_UpdateEvent_def sql_DeleteTicketTypesByEventID_def
      sql_DeleteEvent_def sql_CreateTicketType_def sql_UpdateTicketType_def sql_DeleteTicketType_def
      Let_def map_upd_where split: if_splits option.splits)

lemma CreateTicket_book: "sql_CreateTicket c i att j t d = Inr (x, d') \<Longrightarrow> book d' = book d"
  by (auto simp: book_def sql_CreateTicket_def Let_def split: if_splits)

interpretation untouching: guarantee untouched
  by unfold_locales auto

named_theorems record_intros \<open>operations that change no status, nothing of the book and no issued ticket\<close>

lemmas [record_intros] = untouching.ensures_rules

lemma readonly_untouched: "readonly m \<Longrightarrow> ensures untouched m"
  by (simp add: ensures_def)

lemma records_writes [record_intros]:
  "ensures untouched (order_UpdatePaymentDetails i pd)"
  "ensures untouched (order_SetEmailSent i)"
  "ensures untouched (RestoreQuota k q)"
  "ensures untouched (payment_CreatePayment l)"
  "ensures untouched (ticket_MarkUsed c)"
  unfolding order_UpdatePaymentDetails_def Let_def order_SetEmailSent_def
    RestoreQuota_def event_RestoreQuota_def payment_CreatePayment_def ticket_MarkUsed_def
  by (intro record_intros untouching.ensures_stmt; blast dest: sql_untouched sql_untouched_orders)+

lemma records_inventory [record_intros]:
  "ensures untouched (event_CreateEvent p)" "ensures untouched (event_UpdateEvent i p)"
  "ensures untouched (event_DeleteTicketTypesByEventID i)" "ensures untouched (event_DeleteEvent i)"
  "ensures untouched (event_CreateTicketType q)" "ensures untouched (event_UpdateTicketType i q)"
  "ensures untouched (event_DeleteTicketType i)"
  unfolding event_CreateEvent_def event_UpdateEvent_def event_DeleteTicketTypesByEventID_def event_DeleteEvent_def
    event_CreateTicketType_def event_UpdateTicketType_def event_DeleteTicketType_def
  by (intro record_intros untouching.ensures_stmt; blast dest: sql_untouched_orders)+

lemma records_deletes [record_intros]:
  "ensures untouched (DeleteEvent (Some orderChecker) i)" "ensures untouched (DeleteTicketType (Some orderChecker) i)"
  unfolding DeleteEvent_alone DeleteTicketType_alone
  by (intro record_intros readonly_untouched [OF order_guards.many_readonly] readonly_untouched [OF order_guards.one_readonly]
      readonly_untouched [OF readonly_event_reads(2)])+

text \<open>The moves of an order keep its key: they write the status and the stock only.\<close>

lemma order_book_keys: "order_book d' = order_book d \<Longrightarrow> map order_key (orders d') = map order_key (orders d)"
proof -
  have "map order_key (orders c) = map order_key (order_book c)" for c
    by (simp add: order_book_def order_key_def)
  then show "order_book d' = order_book d \<Longrightarrow> ?thesis" by metis
qed

lemma moved_records:
  "order_released i st d d' \<Longrightarrow> records_kept d d'"
  "status_moved i st d d' \<Longrightarrow> records_kept d d'"
proof -
  assume r: "order_released i st d d'"
  then obtain os ts where d': "d' = d\<lparr>orders := os, ticket_types := ts\<rparr>" unfolding order_released_def by metis
  from r have "order_book d' = order_book d" by (simp add: order_released_def)
  from order_book_keys [OF this] show "records_kept d d'" by (simp add: book_def ticket_keys_def d')
next
  assume r: "status_moved i st d d'"
  then obtain os where d': "d' = d\<lparr>orders := os\<rparr>" unfolding status_moved_def by metis
  from r have "order_book d' = order_book d" by (simp add: status_moved_def)
  from order_book_keys [OF this] show "records_kept d d'" by (simp add: book_def ticket_keys_def d')
qed

interpretation shop: payment_service "api_payments a" for a
  unfolding api_payments_def by (rule payments.payment_service_axioms)

lemma api_payments_fields [simp]:
  "s_quota (api_payments a) = RestoreQuota" "s_orders (api_payments a) = paymentOrderAdapter"
  "s_gateway (api_payments a) = midtransGateway (a_env a) (a_gateway a)"
  "op_UpdateStatusIfPending paymentOrderAdapter = order_UpdateOrderStatusIfPending"
  by (simp_all add: api_payments_def paymentService_def paymentOrderAdapter_def)

context payment_service begin

lemma expireIfDue_run:
  assumes run: "expireIfDue s ord w = (r, w')" and ok: "schema_ok (wdb w)"
  shows "fulfillment w' = fulfillment w \<and> schema_ok (wdb w') \<and>
    (wdb w' = wdb w \<or> order_released (rf_id ord) OrderStatusExpired (wdb w) (wdb w'))"
proof -
  have "quiet (expireIfDue s ord)"
    unfolding expireIfDue_def by (intro quiet_intros quiet_applyOutcome)
  moreover have "wdb w' = wdb w \<or> order_released (rf_id ord) OrderStatusExpired (wdb w) (wdb w')"
  proof (rule ccontr)
    assume neg: "\<not> ?thesis"
    then obtain b w1 w2 where app: "applyOutcome s ord expiredOutcome w1 = (b, w2)" "wdb w1 = wdb w" "wdb w' = wdb w2"
      using run by (auto simp: expireIfDue_def bind_run now_def split: if_splits option.splits prod.splits sum.splits)
    then obtain x where b: "b = Inr x" using applyOutcome_Inl neg by (cases b) fastforce+
    from applyOutcome_Inr(3) [OF app(1) [unfolded b]] app ok neg show False
      by (simp add: expiredOutcome_def split: if_splits)
  qed
  moreover have "evolves (wdb w) (wdb w')" by (rule ensuresD [OF expireIfDue_evolves run])
  ultimately show ?thesis
    using ok run unfolding evolves_def orders_evolve_def by (blast dest: quietD)
qed

end

lemma createOneTicket_book: "ensures (\<lambda>d d'. book d' = book d) (createOneTicket i att)"
proof -
  have code: "ensures (\<lambda>d d'. book d' = book d) GenerateCode"
    using readonly_GenerateCode by (simp add: ensures_def)
  show ?thesis
    unfolding createOneTicket_def ticket_CreateTicket_def nat.case
    by (simp; intro book_intros code books.ensures_stmt; blast dest: CreateTicket_book)
qed

end
