(* ===== verification/System_Invariants.thy ===== *)
theory System_Invariants
  imports System
begin

text \<open>
  Invariants of the running backend, by rule induction over its steps: the schema and the seats,
  the book of orders, what can have made an order final, and the tickets. Each invariant is an
  inductive one once the earlier ones are known.
\<close>

section \<open>Seats\<close>

text \<open>A checkout in flight still owns the lines of its order, whatever others have done meanwhile.\<close>

definition own_lines :: "database \<Rightarrow> CheckoutRequest \<times> OrderRecord \<times> decimal \<times> reservedLine list \<Rightarrow> bool" where
  "own_lines d c = (case c of (req, created, amount, lines) \<Rightarrow>
     reserved_lines lines = lines_of d (or_id created) \<and> or_id created \<in> ord_id ` set (orders d))"

definition base_ok :: "sys \<Rightarrow> bool" where
  "base_ok s \<longleftrightarrow> schema_ok (y_db s) \<and> (\<forall>c \<in> set (y_checkouts s). own_lines (y_db s) c)"

lemma records_book: "ensures untouched m \<Longrightarrow> ensures (\<lambda>d d'. book d' = book d) m"
  by (simp add: ensures_def)

lemma book_cong:
  assumes "book d' = book d"
  shows "lines_of d' = lines_of d" "ord_id ` set (orders d') = ord_id ` set (orders d)" "own_lines d' = own_lines d"
proof -
  show l: "lines_of d' = lines_of d" using assms by (simp add: book_def lines_of_def fun_eq_iff)
  have "fst ` order_key ` set (orders d') = fst ` order_key ` set (orders d)"
    using assms by (simp add: book_def) (metis list.set_map)
  then show o: "ord_id ` set (orders d') = ord_id ` set (orders d)" by (simp add: image_image order_key_def)
  show "own_lines d' = own_lines d" by (simp add: own_lines_def l o fun_eq_iff)
qed

lemma base_ok_step:
  assumes "base_ok s" and "orders_evolve (y_db s) (y_db s')" and "book (y_db s') = book (y_db s)"
    and "set (y_checkouts s') \<subseteq> set (y_checkouts s)"
  shows "base_ok s'"
  using assms(1,2,4) unfolding base_ok_def orders_evolve_def book_cong(3) [OF assms(3)] by blast

lemma operation_ok:
  assumes "base_ok s" and "m (y_world s) = (r, w)" and "ensures orders_evolve m" and "ensures (\<lambda>d d'. book d' = book d) m"
    and "y_world s' = w" and "set (y_checkouts s') \<subseteq> set (y_checkouts s)"
  shows "base_ok s' \<and> orders_evolve (y_db s) (y_db s')"
  using base_ok_step [of s s'] assms(1,5,6) ensuresD [OF assms(3,2)] ensuresD [OF assms(4,2)] by simp

lemma shop_operation_ok:
  assumes "base_ok s" and "m (y_world s) = (r, w)" and "ensures evolves m" and "ensures (\<lambda>d d'. book d' = book d) m"
    and "y_world s' = w" and "set (y_checkouts s') \<subseteq> set (y_checkouts s)"
  shows "base_ok s' \<and> evolves (y_db s) (y_db s')"
  using operation_ok [OF assms(1,2) evolves_ensures_orders [OF assms(3)] assms(4,5,6)] ensuresD [OF assms(3,2)] assms(5)
  by auto

lemma UpdatePaymentDetails_evolves: "ensures evolves (order_UpdatePaymentDetails i pd)"
proof (rule ensuresI)
  fix w r w'
  assume run: "order_UpdatePaymentDetails i pd w = (r, w')"
  show "evolves (wdb w) (wdb w')"
  proof (cases "schema_ok (wdb w)")
    case True
    with UpdatePaymentDetails_run [OF run] show ?thesis by (auto intro: statuses_kept_evolves)
  qed (simp add: evolves_def orders_evolve_def)
qed

lemma compensate_ok:
  assumes "schema_ok d" and "own_lines d (req, created, amount, lines)"
    and "compensate eventProviderAdapter created lines w = (r, w')" and "wdb w = d"
  shows "evolves d (wdb w') \<and> (wdb w' = d \<or> order_released (or_id created) OrderStatusCancelled d (wdb w'))"
  using events.compensate_run [OF assms(3)] assms(1,2,4) evo.G_refl
  by (auto simp: own_lines_def intro: order_released_evolves)

lemma placed_own:
  assumes ok: "schema_ok d" and placed: "order_placed req row d d'" and lines: "reserved_lines lines = item_lines (cr_items req)"
  shows "own_lines d' (req, toOrderRecord row, amount, lines)" and "own_lines d c \<Longrightarrow> own_lines d' c"
proof -
  have os: "orders d' = orders d @ [row]" and new: "ord_id row \<notin> ord_id ` set (orders d)"
    using placed by (auto simp: order_placed_def)
  show "own_lines d' (req, toOrderRecord row, amount, lines)"
    using order_placed_lines(1) [OF ok placed] lines os by (simp add: own_lines_def toOrderRecord_def)
  show "own_lines d c \<Longrightarrow> own_lines d' c"
  proof (cases c)
    case (fields r x b ls)
    assume "own_lines d c"
    then have own: "reserved_lines ls = lines_of d (or_id x)" and "or_id x \<in> ord_id ` set (orders d)"
      by (simp_all add: fields own_lines_def)
    then have "or_id x \<noteq> ord_id row" "or_id x \<in> ord_id ` set (orders d')" using new os by auto
    with own order_placed_lines(2) [OF ok placed] show ?thesis by (simp add: fields own_lines_def)
  qed
qed

lemma shop_step_base:
  assumes step: "shop_step a s s'" and base: "base_ok s"
  shows "base_ok s' \<and> evolves (y_db s) (y_db s')"
  using step
proof cases
  case (idle w)
  with base show ?thesis by (simp add: base_ok_def evo.G_refl)
next
  case (reserved req created amount lines w)
  from base have ok: "schema_ok (y_db s)" by (simp add: base_ok_def)
  from events.reserveOnce_Inr [OF reserved(3) ok] obtain row where
    "schema_ok (wdb w)" "reserved_lines lines = item_lines (cr_items req)"
    "created = toOrderRecord row" "order_placed req row (y_db s) (wdb w)" by auto
  with placed_own [OF ok] base reserved(1) order_placed_evolves [OF ok] show ?thesis
    by (fastforce simp: base_ok_def)
next
  case (session_recorded xs req created amount lines ys v session v' r w)
  show ?thesis
    by (rule shop_operation_ok [where m = "InTx (order_UpdatePaymentDetails (or_id created) _)", OF base session_recorded(4)])
       (simp_all add: session_recorded evo.ensures_InTx books.ensures_InTx UpdatePaymentDetails_evolves
         records_book [OF untouching.ensures_InTx] records_writes subset_insertI2)
next
  case (compensated xs req created amount lines ys v err v' r w)
  from base compensated have "schema_ok (y_db s)" "own_lines (y_db s) (req, created, amount, lines)"
    by (simp_all add: base_ok_def)
  from compensate_ok [OF this compensated(4) refl]
  have "evolves (y_db s) (wdb w)" "book (wdb w) = book (y_db s)" by (auto dest: moved_records)
  with base_ok_step [OF base, of s'] compensated(1,2) show ?thesis by (auto simp: evolves_def)
next
  case (order_read n ref w)
  show ?thesis
    by (rule shop_operation_ok [where m = "op_OrderByNumber _ _", OF base order_read(2)])
       (simp_all add: order_read readonly_evolves shop.number_readonly [unfolded api_payments_fields] readonly_untouched records_book)
next
  case (due_read t refs w)
  show ?thesis
    by (rule shop_operation_ok [where m = "op_DueForExpiry _ _ _", OF base due_read(2)])
       (simp_all add: due_read readonly_evolves shop.due_readonly [unfolded api_payments_fields] readonly_untouched records_book)
next
  case (verified payload signature result)
  with base show ?thesis by (simp add: base_ok_def evo.G_refl)
next
  case (fetched n result w)
  show ?thesis
    by (rule shop_operation_ok [where m = "g_FetchStatus _ _", OF base fetched(2)])
       (simp_all add: fetched readonly_evolves shop.fetch_readonly [unfolded api_payments_fields] readonly_untouched records_book)
next
  case (logged ref result provider r w)
  show ?thesis
    by (rule shop_operation_ok [where m = "payment_CreatePayment _", OF base logged(4)])
       (simp_all add: logged CreatePayment_evolves records_writes records_book)
next
  case (settled ref result b w)
  from base have "schema_ok (y_db s)" by (simp add: base_ok_def)
  with shop.settle_run [OF settled(4)] have "book (wdb w) = book (y_db s)"
    by (cases rule: shop.settle_run [OF settled(4)]) (auto dest: moved_records)
  with base_ok_step [OF base, of s'] settled(1) ensuresD [OF shop.settle_evolves settled(4)] show ?thesis
    by (simp add: evolves_def)
next
  case (expired ref b w)
  from base have "schema_ok (y_db s)" by (simp add: base_ok_def)
  from shop.expireIfDue_run [OF expired(3) this] have "book (wdb w) = book (y_db s)"
    by (auto dest: moved_records)
  with base_ok_step [OF base, of s'] expired(1) ensuresD [OF shop.expireIfDue_evolves expired(3)] show ?thesis
    by (simp add: evolves_def)
next
  case (job_started i)
  with base show ?thesis by (simp add: base_ok_def evo.G_refl)
next
  case (job_attendees xs i ys ids w)
  show ?thesis
    by (rule shop_operation_ok [where m = "order_AttendeeIDsForOrder _", OF base job_attendees(3)])
       (simp_all add: job_attendees readonly_evolves readonly_AttendeeIDs readonly_untouched records_book)
next
  case (job_checked xs i ids ys w)
  show ?thesis
    by (rule shop_operation_ok [where m = "ticket_ListByOrderID _", OF base job_checked(4)])
       (simp_all add: job_checked readonly_evolves readonly_ticket_reads readonly_untouched records_book)
next
  case (job_issued xs i ids ys r w)
  show ?thesis
    by (rule shop_operation_ok [where m = "InTx (for_each _ _)", OF base job_issued(3)])
       (simp_all add: job_issued evo.ensures_InTx evo.ensures_for_each createOneTicket_evolves
         books.ensures_InTx books.ensures_for_each createOneTicket_book)
next
  case (emailed i r w)
  show ?thesis
    by (rule shop_operation_ok [where m = "order_SetEmailSent _", OF base emailed(2)])
       (simp_all add: emailed SetEmailSent_evolves records_writes records_book)
next
  case (admitted code r w)
  show ?thesis
    by (rule shop_operation_ok [where m = "ticket_MarkUsed _", OF base admitted(2)])
       (simp_all add: admitted ticket_writes_evolve records_writes records_book)
qed

lemma admin_step_base:
  assumes step: "admin_step s s'" and base: "base_ok s"
  shows "base_ok s' \<and> orders_evolve (y_db s) (y_db s')"
  using step
proof cases
  case (event_created p r w)
  show ?thesis
    by (rule operation_ok [where m = "event_CreateEvent p", OF base event_created(2)])
       (simp_all add: event_created orders_intros records_book record_intros)
next
  case (event_updated i p r w)
  show ?thesis
    by (rule operation_ok [where m = "event_UpdateEvent i p", OF base event_updated(2)])
       (simp_all add: event_updated orders_intros records_book record_intros)
next
  case (event_deleted i u w)
  show ?thesis
    by (rule operation_ok [where m = "DeleteEvent (Some orderChecker) i", OF base event_deleted(2)])
       (simp_all add: event_deleted orders_intros records_book record_intros)
next
  case (event_purged i b w)
  show ?thesis
    by (rule operation_ok [where m = "InTx (bind (event_DeleteTicketTypesByEventID i) (\<lambda>_. event_DeleteEvent i))",
          OF base event_purged(2)])
       (simp_all add: event_purged orders_intros records_book record_intros)
next
  case (type_created q tt w)
  show ?thesis
    by (rule operation_ok [where m = "event_CreateTicketType q", OF base type_created(2)])
       (simp_all add: type_created orders_intros records_book record_intros)
next
  case (type_updated i q tt w)
  show ?thesis
    by (rule operation_ok [where m = "event_UpdateTicketType i q", OF base type_updated(2)])
       (simp_all add: type_updated orders_intros records_book record_intros)
next
  case (type_deleted i u w)
  show ?thesis
    by (rule operation_ok [where m = "DeleteTicketType (Some orderChecker) i", OF base type_deleted(2)])
       (simp_all add: type_deleted orders_intros records_book record_intros)
next
  case (type_purged i b w)
  show ?thesis
    by (rule operation_ok [where m = "event_DeleteTicketType i", OF base type_purged(2)])
       (simp_all add: type_purged orders_intros records_book record_intros)
qed


section \<open>What a step does\<close>

text \<open>
  Seen from the orders and the tickets a step is one of five: nothing, an order placed, an order
  released (cancelled or expired), an order paid, or tickets issued.
\<close>

definition quiet_step :: "sys \<Rightarrow> sys \<Rightarrow> bool" where
  "quiet_step s s' \<longleftrightarrow> untouched (y_db s) (y_db s') \<and> fulfillment (y_world s') = fulfillment (y_world s)"

definition numbered :: "database \<Rightarrow> (uuid \<times> string) set" where
  "numbered d = (\<lambda>r. (ord_id r, ord_number r)) ` set (orders d)"

text \<open>The results threads hold are the provider's: a verified notification, or its answer to a query.\<close>

definition authentic :: "api \<Rightarrow> string \<Rightarrow> WebhookResult \<Rightarrow> bool" where
  "authentic a n result \<longleftrightarrow>
     (\<exists>payload signature. midtrans_VerifyWebhook (a_env a) (a_gateway a) payload signature = Inr result \<and> n = wr_number result) \<or>
     (\<exists>w w'. midtrans_FetchStatus (a_env a) n w = (Inr result, w'))"

text \<open>What a goroutine of \<open>fulfill\<close> knows: the attendees of its order, and that it has no tickets.\<close>

fun job_ok :: "database \<Rightarrow> uuid \<times> job \<Rightarrow> bool" where
  "job_ok d (i, Started) = True"
| "job_ok d (i, HasAttendees ids) = (mset ids = mset (attendee_ids d i))"
| "job_ok d (i, NoTickets ids) = (mset ids = mset (attendee_ids d i) \<and> tickets_of d i = [])"

definition jobs_moved :: "sys \<Rightarrow> sys \<Rightarrow> bool" where
  "jobs_moved s s' \<longleftrightarrow>
     y_jobs s' = y_jobs s \<and> y_taken s' = y_taken s \<or>
     (\<exists>i. count_list (y_taken s) i < count_list (fulfillment (y_world s)) i \<and>
        y_taken s' = y_taken s @ [i] \<and> y_jobs s' = y_jobs s @ [(i, Started)]) \<or>
     (\<exists>xs i j j' ys. y_jobs s = xs @ (i, j) # ys \<and> y_jobs s' = xs @ (i, j') # ys \<and> y_taken s' = y_taken s \<and>
        (job_ok (y_db s) (i, j) \<longrightarrow> job_ok (y_db s) (i, j')))"

definition learned :: "api \<Rightarrow> sys \<Rightarrow> sys \<Rightarrow> bool" where
  "learned a s s' \<longleftrightarrow>
     (\<forall>ref \<in> set (y_refs s'). ref \<in> set (y_refs s) \<or> (rf_id ref, rf_number ref) \<in> numbered (y_db s)) \<and>
     (\<forall>x \<in> set (y_results s'). x \<in> set (y_results s) \<or> authentic a (fst x) (snd x)) \<and>
     set (y_results s) \<subseteq> set (y_results s') \<and> jobs_moved s s'"

lemma learned_nothing:
  "y_refs s' = y_refs s \<Longrightarrow> y_results s' = y_results s \<Longrightarrow> y_jobs s' = y_jobs s \<Longrightarrow> y_taken s' = y_taken s \<Longrightarrow>
   learned a s s'"
  by (simp add: learned_def jobs_moved_def)

lemma order_refs:
  "op_OrderByNumber paymentOrderAdapter n w = (Inr ref, w') \<Longrightarrow> (rf_id ref, rf_number ref) \<in> numbered (wdb w)"
  "op_DueForExpiry paymentOrderAdapter t k w = (Inr refs, w') \<Longrightarrow> ref \<in> set refs \<Longrightarrow>
   (rf_id ref, rf_number ref) \<in> numbered (wdb w)"
proof -
  assume "op_OrderByNumber paymentOrderAdapter n w = (Inr ref, w')"
  then obtain r where "sql_GetOrderByNumber n (wdb w) = Some r" "rf_id ref = ord_id r" "rf_number ref = ord_number r"
    by (auto simp: paymentOrderAdapter_def handle_Inr order_GetOrderByNumber_def bind_Inr toOrderRecord_def
        dest!: query_row_Inr split: if_splits)
  then show "(rf_id ref, rf_number ref) \<in> numbered (wdb w)"
    by (auto simp: numbered_def sql_GetOrderByNumber_def dest!: find_SomeD)
next
  assume "op_DueForExpiry paymentOrderAdapter t k w = (Inr refs, w')" "ref \<in> set refs"
  then show "(rf_id ref, rf_number ref) \<in> numbered (wdb w)"
    by (auto simp: paymentOrderAdapter_def order_ListOrdersDueForExpiry_def bind_Inr numbered_def
        sql_ListOrdersDueForExpiry_def dest!: query_rows_Inr in_set_takeD)
qed

lemma quiet_operation:
  assumes "m (y_world s) = (r, w)" and "ensures untouched m" and "quiet m" and "y_world s' = w"
  shows "quiet_step s s'"
  using assms ensuresD [OF assms(2,1)] quietD [OF assms(3,1)] by (simp add: quiet_step_def)

lemma quiet_writes:
  "quiet (order_SetEmailSent i)" "quiet (ticket_MarkUsed c)"
  "quiet (InTx (for_each ids (\<lambda>a. createOneTicket i a)))"
  "quiet (reserveOnce eventProviderAdapter req)"
  "quiet (compensate eventProviderAdapter created lines)"
proof -
  show "quiet (order_SetEmailSent i)" "quiet (ticket_MarkUsed c)"
    "quiet (InTx (for_each ids (\<lambda>a. createOneTicket i a)))"
    unfolding order_SetEmailSent_def ticket_MarkUsed_def by (intro quiet_intros)+
  show "quiet (reserveOnce eventProviderAdapter req)"
    unfolding reserveOnce_def reserve_tx_def reserve_item_def case_prod_beta
    by (intro quiet_intros events.provider_quiet)
  show "quiet (compensate eventProviderAdapter created lines)"
    unfolding compensate_def compensate_tx_def by (intro quiet_intros events.restore_quiet)
qed

lemma shop_step_effect:
  assumes step: "shop_step a s s'" and base: "base_ok s"
  obtains (kept) "quiet_step s s'" "learned a s s'"
    | (placed) req row where "order_placed req row (y_db s) (y_db s')"
        "fulfillment (y_world s') = fulfillment (y_world s)" "y_refs s' = y_refs s" "y_results s' = y_results s"
        "y_jobs s' = y_jobs s" "y_taken s' = y_taken s"
    | (released) i st where "order_released i st (y_db s) (y_db s')" "st \<in> {OrderStatusCancelled, OrderStatusExpired}"
        "fulfillment (y_world s') = fulfillment (y_world s)" "y_refs s' = y_refs s" "y_results s' = y_results s"
        "y_jobs s' = y_jobs s" "y_taken s' = y_taken s"
    | (paid) ref result where "status_moved (rf_id ref) OrderStatusPaid (y_db s) (y_db s')"
        "ref \<in> set (y_refs s)" "(rf_number ref, result) \<in> set (y_results s)"
        "oc_OrderStatus (MapProviderStatus (s_lower (api_payments a)) (wr_status result) (wr_fraud result)) = OrderStatusPaid"
        "fulfillment (y_world s') = fulfillment (y_world s) @ [rf_id ref]" "y_refs s' = y_refs s" "y_results s' = y_results s"
        "y_jobs s' = y_jobs s" "y_taken s' = y_taken s"
    | (issuing) xs i ids ys where "y_jobs s = xs @ (i, NoTickets ids) # ys" "y_jobs s' = xs @ ys"
        "y_db s' = y_db s \<or> issued i ids (y_db s) (y_db s')"
        "fulfillment (y_world s') = fulfillment (y_world s)" "y_refs s' = y_refs s" "y_results s' = y_results s"
        "y_taken s' = y_taken s"
  using step
proof cases
  case (reserved req created amount lines w)
  from base have "schema_ok (y_db s)" by (simp add: base_ok_def)
  from events.reserveOnce_Inr [OF reserved(3) this] obtain row where "order_placed req row (y_db s) (wdb w)" by blast
  then show thesis using reserved(1) quietD [OF quiet_writes(4) reserved(3)] by (intro placed) simp_all
next
  case (compensated xs req created amount lines ys v err v' r w)
  from base compensated have "schema_ok (y_db s)" "own_lines (y_db s) (req, created, amount, lines)"
    by (simp_all add: base_ok_def)
  from compensate_ok [OF this compensated(4) refl] consider "wdb w = y_db s"
    | "order_released (or_id created) OrderStatusCancelled (y_db s) (wdb w)" by blast
  then show thesis
  proof cases
    case 1
    with compensated show thesis using quietD [OF quiet_writes(5) compensated(4)]
      by (intro kept) (simp_all add: quiet_step_def learned_nothing)
  next
    case 2
    with compensated quietD [OF quiet_writes(5) compensated(4)] show thesis
      by (intro released [of "or_id created" OrderStatusCancelled]) simp_all
  qed
next
  case (settled ref result b w)
  from base have "schema_ok (y_db s)" by (simp add: base_ok_def)
  with settled(4) show thesis
  proof (cases rule: shop.settle_run)
    case unchanged
    with settled(1) show thesis by (intro kept) (simp_all add: quiet_step_def learned_nothing)
  next
    case (released st)
    with settled(1) show thesis by (intro that(3)) simp_all
  next
    case paid
    with settled(1-3) show thesis by (intro that(4)) simp_all
  qed
next
  case (expired ref b w)
  from base have "schema_ok (y_db s)" by (simp add: base_ok_def)
  from shop.expireIfDue_run [OF expired(3) this] consider "wdb w = y_db s"
    | "order_released (rf_id ref) OrderStatusExpired (y_db s) (wdb w)" by blast
  then show thesis
  proof cases
    case 1
    with expired shop.expireIfDue_run [OF expired(3)] base show thesis
      by (intro kept) (simp_all add: quiet_step_def learned_nothing base_ok_def)
  next
    case 2
    with expired shop.expireIfDue_run [OF expired(3)] base show thesis
      by (intro released [of "rf_id ref" OrderStatusExpired]) (simp_all add: base_ok_def)
  qed
next
  case (job_issued xs i ids ys r w)
  have "wdb w = y_db s \<or> issued i ids (y_db s) (wdb w)"
  proof (cases r)
    case (Inl e)
    with job_issued(3) InTx_Inl show ?thesis by blast
  next
    case (Inr u)
    with job_issued(3) show ?thesis by (metis InTx_Inr issue_loop)
  qed
  with job_issued quietD [OF quiet_writes(3) job_issued(3)] show thesis by (intro issuing) simp_all
next
  case (order_read n ref w)
  have "quiet_step s s'"
    by (rule quiet_operation [where m = "op_OrderByNumber _ _", OF order_read(2)])
       (simp_all add: order_read readonly_untouched shop.number_readonly [unfolded api_payments_fields]
         shop.provider_quiet [unfolded api_payments_fields])
  moreover have "learned a s s'"
    using order_read order_refs(1) [of n "y_world s"] by (auto simp: learned_def jobs_moved_def)
  ultimately show thesis by (rule kept)
next
  case (due_read t refs w)
  have "quiet_step s s'"
    by (rule quiet_operation [where m = "op_DueForExpiry _ _ _", OF due_read(2)])
       (simp_all add: due_read readonly_untouched shop.due_readonly [unfolded api_payments_fields]
         shop.provider_quiet [unfolded api_payments_fields])
  moreover have "learned a s s'"
    using due_read order_refs(2) [of t expiryBatchSize "y_world s"] by (auto simp: learned_def jobs_moved_def)
  ultimately show thesis by (rule kept)
next
  case (verified payload signature result)
  then show thesis
    by (intro kept) (auto simp: quiet_step_def learned_def jobs_moved_def authentic_def midtransGateway_def)
next
  case (fetched n result w)
  have "quiet_step s s'"
    by (rule quiet_operation [where m = "g_FetchStatus _ _", OF fetched(2)])
       (simp_all add: fetched readonly_untouched shop.fetch_readonly [unfolded api_payments_fields]
         shop.provider_quiet [unfolded api_payments_fields])
  moreover have "learned a s s'"
    using fetched by (auto simp: learned_def jobs_moved_def authentic_def midtransGateway_def)
  ultimately show thesis by (rule kept)
next
  case (idle w)
  then show thesis by (intro kept) (simp_all add: quiet_step_def learned_nothing)
next
  case (session_recorded xs req created amount lines ys v session v' r w)
  have "quiet_step s s'"
    by (rule quiet_operation [where m = "InTx (order_UpdatePaymentDetails (or_id created) _)", OF session_recorded(4)])
       (simp_all add: session_recorded untouching.ensures_InTx record_intros quiet_InTx quiet_order_repo)
  then show thesis by (rule kept) (simp add: session_recorded learned_nothing)
next
  case (logged ref result provider r w)
  have "quiet_step s s'"
    by (rule quiet_operation [where m = "payment_CreatePayment _", OF logged(4)])
       (simp_all add: logged records_writes quiet_CreatePayment)
  then show thesis by (rule kept) (simp add: logged learned_nothing)
next
  case (job_started i)
  then show thesis by (intro kept) (simp_all add: quiet_step_def learned_def jobs_moved_def)
next
  case (job_attendees xs i ys ids w)
  have "quiet_step s s'"
    by (rule quiet_operation [where m = "order_AttendeeIDsForOrder _", OF job_attendees(3)])
       (simp_all add: job_attendees readonly_untouched readonly_AttendeeIDs order_attendees.ids_quiet)
  moreover have "learned a s s'"
    using job_attendees order_attendees.ids_answer [OF job_attendees(3)]
    unfolding learned_def jobs_moved_def by fastforce
  ultimately show thesis by (rule kept)
next
  case (job_checked xs i ids ys w)
  have "quiet_step s s'"
    by (rule quiet_operation [where m = "ticket_ListByOrderID _", OF job_checked(4)])
       (simp_all add: job_checked readonly_untouched readonly_ticket_reads quiet_ticket)
  moreover have "learned a s s'"
    using job_checked ListByOrderID_Inr [OF job_checked(4)]
    unfolding learned_def jobs_moved_def by fastforce
  ultimately show thesis by (rule kept)
next
  case (emailed i r w)
  have "quiet_step s s'"
    by (rule quiet_operation [where m = "order_SetEmailSent _", OF emailed(2)])
       (simp_all add: emailed records_writes quiet_writes)
  then show thesis by (rule kept) (simp add: emailed learned_nothing)
next
  case (admitted code r w)
  have "quiet_step s s'"
    by (rule quiet_operation [where m = "ticket_MarkUsed _", OF admitted(2)])
       (simp_all add: admitted records_writes quiet_writes)
  then show thesis by (rule kept) (simp add: admitted learned_nothing)
qed

lemma admin_step_quiet:
  assumes "admin_step s s'"
  shows "quiet_step s s' \<and> learned a s s'"
proof -
  have "quiet (event_CreateEvent p)" "quiet (event_UpdateEvent i p)" "quiet (event_CreateTicketType q)"
    "quiet (event_UpdateTicketType i q)" "quiet (DeleteEvent (Some orderChecker) i)"
    "quiet (DeleteTicketType (Some orderChecker) i)" "quiet (event_DeleteTicketType i)"
    "quiet (InTx (bind (event_DeleteTicketTypesByEventID i) (\<lambda>_. event_DeleteEvent i)))" for p i q
    unfolding event_CreateEvent_def event_UpdateEvent_def event_CreateTicketType_def event_UpdateTicketType_def
      DeleteEvent_alone DeleteTicketType_alone event_DeleteEvent_def event_DeleteTicketType_def
      event_DeleteTicketTypesByEventID_def event_ListTicketTypeIDsByEventID_def orderChecker_def OrderChecker.simps
      order_HasOrdersForTicketType_def order_HasOrdersForTicketTypes_def
    by (intro quiet_intros)+
  note quiets = this
  show ?thesis
    using assms by cases (auto intro!: learned_nothing quiet_operation record_intros quiets)
qed

end
