(* ===== verification/Lifecycle.thy ===== *)
theory Lifecycle
  imports System_Invariants
begin

text \<open>
  The invariants of the running backend that speak of orders and tickets: what has made an order
  paid, that its fulfilment is started once, and that every attendee of a paid order gets at most
  one ticket and nobody else gets any. One inductive invariant, \<open>sound\<close>, carries them; the
  properties read it off.
\<close>

section \<open>The invariant\<close>

definition paid_by :: "api \<Rightarrow> sys \<Rightarrow> uuid \<Rightarrow> bool" where
  "paid_by a s i \<longleftrightarrow> (\<exists>n result. (i, n) \<in> numbered (y_db s) \<and> (n, result) \<in> set (y_results s) \<and>
     oc_OrderStatus (MapProviderStatus (env_lower (a_env a)) (wr_status result) (wr_fraud result)) = OrderStatusPaid)"

definition evidence_ok :: "api \<Rightarrow> database \<Rightarrow> sys \<Rightarrow> bool" where
  "evidence_ok a d s \<longleftrightarrow>
     (\<forall>ref \<in> set (y_refs s). (rf_id ref, rf_number ref) \<in> numbered (y_db s)) \<and>
     (\<forall>x \<in> set (y_results s). authentic a (fst x) (snd x)) \<and>
     (\<forall>i. order_status (y_db s) i = Some OrderStatusPaid \<longrightarrow>
        order_status d i = Some OrderStatusPaid \<or> paid_by a s i)"

definition fulfillment_ok :: "sys \<Rightarrow> bool" where
  "fulfillment_ok s \<longleftrightarrow> distinct (fulfillment (y_world s)) \<and>
     (\<forall>i \<in> set (fulfillment (y_world s)). order_status (y_db s) i = Some OrderStatusPaid)"

definition jobs_ok :: "sys \<Rightarrow> bool" where
  "jobs_ok s \<longleftrightarrow>
     (\<forall>i. count_list (map fst (y_jobs s)) i \<le> count_list (y_taken s) i \<and>
          count_list (y_taken s) i \<le> count_list (fulfillment (y_world s)) i) \<and>
     (\<forall>j \<in> set (y_jobs s). job_ok (y_db s) j)"

definition tickets_ok :: "database \<Rightarrow> bool" where
  "tickets_ok d \<longleftrightarrow> distinct (map tk_attendee (tickets d)) \<and>
     (\<forall>t \<in> set (tickets d). order_status d (tk_order t) = Some OrderStatusPaid \<and>
        tk_attendee t \<in> set (attendee_ids d (tk_order t)))"

definition sound :: "api \<Rightarrow> database \<Rightarrow> sys \<Rightarrow> bool" where
  "sound a d s \<longleftrightarrow> base_ok s \<and> evidence_ok a d s \<and> fulfillment_ok s \<and> jobs_ok s \<and> tickets_ok (y_db s)"

section \<open>The steps keep it\<close>

subsection \<open>What depends on the book and the tickets only\<close>

lemma book_numbered:
  assumes "book d' = book d"
  shows "numbered d' = numbered d"
proof -
  have "numbered d = (\<lambda>(i, n, _). (i, n)) ` set (map order_key (orders d))" for d
    by (auto simp: numbered_def order_key_def image_image)
  with assms show ?thesis by (simp only: book_def prod.inject)
qed

lemma records_frame:
  assumes "records_kept d d'"
  shows "numbered d' = numbered d" "attendee_ids d' = attendee_ids d" "tickets_of d' i = [] \<longleftrightarrow> tickets_of d i = []"
    and "job_ok d' = job_ok d"
proof -
  show "numbered d' = numbered d" using assms by (intro book_numbered) simp
  show at: "attendee_ids d' = attendee_ids d" using assms by (simp add: book_def attendee_ids_def fun_eq_iff)
  have "tickets_of d i = [] \<longleftrightarrow> i \<notin> fst ` set (ticket_keys d)" for d i
    by (auto simp: tickets_of_def ticket_keys_def filter_empty_conv image_image)
  with assms show tk: "tickets_of d' i = [] \<longleftrightarrow> tickets_of d i = []" for i by simp
  show "job_ok d' = job_ok d"
  proof
    fix x
    show "job_ok d' x = job_ok d x" by (cases "(d, x)" rule: job_ok.cases) (simp_all add: at tk)
  qed
qed

lemma tickets_ok_keys:
  "tickets_ok d \<longleftrightarrow> distinct (map snd (ticket_keys d)) \<and>
     (\<forall>(i, x) \<in> set (ticket_keys d). order_status d i = Some OrderStatusPaid \<and> x \<in> set (attendee_ids d i))"
  by (auto simp: tickets_ok_def ticket_keys_def comp_def)

lemma tickets_ok_frame:
  assumes "records_kept d d'" and "tickets_ok d"
    and "\<And>i. order_status d i = Some OrderStatusPaid \<Longrightarrow> order_status d' i = Some OrderStatusPaid"
  shows "tickets_ok d'"
  using assms by (fastforce simp: tickets_ok_keys records_frame(2) [OF assms(1)])

lemma placed_frame:
  assumes ok: "schema_ok d" and placed: "order_placed req row d d'"
  shows "numbered d \<subseteq> numbered d'" and "tickets d' = tickets d"
    and "order_status d i = Some st \<Longrightarrow> order_status d' i = Some st \<and> attendee_ids d' i = attendee_ids d i"
    and "order_status d' i = Some OrderStatusPaid \<Longrightarrow> order_status d i = Some OrderStatusPaid"
proof -
  from placed obtain its ats ts where d': "d' = d\<lparr>ticket_types := ts, orders := orders d @ [row],
               order_items := order_items d @ its, attendees := attendees d @ ats\<rparr>"
    and ats: "map (\<lambda>a. (at_order a, at_type a, at_name a, at_email a)) ats =
          map (\<lambda>a. (ord_id row, ca_type a, ca_name a, ca_email a)) (cr_attendees req)"
    unfolding order_placed_def by blast
  have own: "at_order a = ord_id row" if "a \<in> set ats" for a
    using arg_cong [OF ats, of "\<lambda>xs. fst ` set xs"] that by (auto simp: image_image split: if_splits)
  show "numbered d \<subseteq> numbered d'" "tickets d' = tickets d" by (auto simp: numbered_def d')
  note st = order_placed_status [OF placed]
  show "order_status d i = Some st \<Longrightarrow> order_status d' i = Some st \<and> attendee_ids d' i = attendee_ids d i"
    using st own by (auto simp: attendee_ids_def d' filter_empty_conv)
  show "order_status d' i = Some OrderStatusPaid \<Longrightarrow> order_status d i = Some OrderStatusPaid"
    using st by (simp split: if_splits)
qed

subsection \<open>The five effects\<close>

lemma status_kept: "order_status d' = (order_status d)(i \<mapsto> st) \<Longrightarrow> order_status d i = Some OrderStatusPending \<Longrightarrow>
    order_status d j = Some OrderStatusPaid \<Longrightarrow> order_status d' j = Some OrderStatusPaid"
  by auto

lemma evidence_ok_mono:
  assumes "evidence_ok a d s" and "learned a s s' \<or> y_refs s' = y_refs s \<and> y_results s' = y_results s"
    and "numbered (y_db s) \<subseteq> numbered (y_db s')"
    and "\<And>i. order_status (y_db s') i = Some OrderStatusPaid \<Longrightarrow>
      order_status (y_db s) i = Some OrderStatusPaid \<or> paid_by a s' i"
  shows "evidence_ok a d s'"
proof -
  have results: "set (y_results s) \<subseteq> set (y_results s')"
    and refs: "\<forall>ref \<in> set (y_refs s'). ref \<in> set (y_refs s) \<or> (rf_id ref, rf_number ref) \<in> numbered (y_db s)"
    and auth: "\<forall>x \<in> set (y_results s'). x \<in> set (y_results s) \<or> authentic a (fst x) (snd x)"
    using assms(2) by (auto simp: learned_def)
  from results have "paid_by a s i \<Longrightarrow> paid_by a s' i" for i
    using assms(3) unfolding paid_by_def by blast
  then show ?thesis using assms(1,3,4) refs auth unfolding evidence_ok_def by blast
qed

lemma fulfillment_ok_mono:
  assumes "fulfillment_ok s" and "fulfillment (y_world s') = fulfillment (y_world s)"
    and "\<And>i. order_status (y_db s) i = Some OrderStatusPaid \<Longrightarrow> order_status (y_db s') i = Some OrderStatusPaid"
  shows "fulfillment_ok s'"
  using assms by (simp add: fulfillment_ok_def)

lemma jobs_taken:
  "jobs_ok s \<Longrightarrow> x \<in> set (y_jobs s) \<Longrightarrow> fst x \<in> set (fulfillment (y_world s))"
proof -
  assume "jobs_ok s" "x \<in> set (y_jobs s)"
  then have "0 < count_list (map fst (y_jobs s)) (fst x)"
    and "count_list (map fst (y_jobs s)) (fst x) \<le> count_list (fulfillment (y_world s)) (fst x)"
    by (force simp: count_list_0_iff intro: Nat.gr0I, meson jobs_ok_def order_trans)
  then show ?thesis by (metis count_list_0_iff not_gr_zero le_zero_eq)
qed

lemma jobs_ok_same:
  assumes "jobs_ok s" and "y_jobs s' = y_jobs s" "y_taken s' = y_taken s"
    and "\<And>i. count_list (fulfillment (y_world s)) i \<le> count_list (fulfillment (y_world s')) i"
    and "\<And>x. x \<in> set (y_jobs s) \<Longrightarrow> job_ok (y_db s) x \<Longrightarrow> job_ok (y_db s') x"
  shows "jobs_ok s'"
  using assms unfolding jobs_ok_def by (metis (mono_tags, lifting) order_trans)

lemma jobs_ok_moved:
  assumes "jobs_ok s" and "jobs_moved s s'" and "job_ok (y_db s') = job_ok (y_db s)"
    and "fulfillment (y_world s') = fulfillment (y_world s)"
  shows "jobs_ok s'"
  using assms(2) unfolding jobs_moved_def
proof (elim disjE exE conjE)
  fix i
  assume "count_list (y_taken s) i < count_list (fulfillment (y_world s)) i" "y_taken s' = y_taken s @ [i]"
    "y_jobs s' = y_jobs s @ [(i, Started)]"
  with assms(1) show "jobs_ok s'" by (auto simp: jobs_ok_def assms(3,4) Suc_leI)
next
  fix xs i j j' ys
  assume "y_jobs s = xs @ (i, j) # ys" "y_jobs s' = xs @ (i, j') # ys" "y_taken s' = y_taken s"
    "job_ok (y_db s) (i, j) \<longrightarrow> job_ok (y_db s) (i, j')"
  with assms(1) show "jobs_ok s'" by (simp add: jobs_ok_def assms(3,4))
qed (use assms(1) in \<open>simp add: jobs_ok_def assms(3,4)\<close>)

lemma quiet_sound:
  assumes "sound a d s" and "base_ok s'" and "quiet_step s s'" and "learned a s s'"
  shows "sound a d s'"
proof -
  have rec: "records_kept (y_db s) (y_db s')" and st: "order_status (y_db s') = order_status (y_db s)"
    and ful: "fulfillment (y_world s') = fulfillment (y_world s)" using assms(3) by (auto simp: quiet_step_def)
  note frame = records_frame [OF rec]
  from assms(1) have "evidence_ok a d s'" "fulfillment_ok s'"
    by (auto simp: sound_def st frame assms(4) ful intro: evidence_ok_mono fulfillment_ok_mono)
  moreover have "jobs_ok s'" using assms(1,4) ful frame(4) by (auto simp: sound_def learned_def intro: jobs_ok_moved)
  moreover have "tickets_ok (y_db s')" using assms(1) tickets_ok_frame [OF rec] st by (simp add: sound_def)
  ultimately show ?thesis using assms(2) by (simp add: sound_def)
qed

lemma moved_sound:
  assumes inv: "sound a d s" and base: "base_ok s'" and rec: "records_kept (y_db s) (y_db s')"
    and pending: "order_status (y_db s) i = Some OrderStatusPending"
    and st: "order_status (y_db s') = (order_status (y_db s))(i \<mapsto> st)"
    and same: "y_refs s' = y_refs s" "y_results s' = y_results s" "y_jobs s' = y_jobs s" "y_taken s' = y_taken s"
    and outcome: "st \<noteq> OrderStatusPaid \<and> fulfillment (y_world s') = fulfillment (y_world s) \<or>
      st = OrderStatusPaid \<and> fulfillment (y_world s') = fulfillment (y_world s) @ [i] \<and> paid_by a s i"
  shows "sound a d s'"
proof -
  note frame = records_frame [OF rec]
  have "paid_by a s' = paid_by a s" by (simp add: paid_by_def fun_eq_iff frame(1) same)
  from inv have parts: "evidence_ok a d s" "fulfillment_ok s" "jobs_ok s" "tickets_ok (y_db s)"
    by (simp_all add: sound_def)
  have "evidence_ok a d s'"
  proof (rule evidence_ok_mono [OF parts(1)])
    fix j
    assume "order_status (y_db s') j = Some OrderStatusPaid"
    then show "order_status (y_db s) j = Some OrderStatusPaid \<or> paid_by a s' j"
      using outcome \<open>paid_by a s' = _\<close> by (auto simp: st split: if_splits)
  qed (simp_all add: same frame(1))
  moreover have "fulfillment_ok s'"
    using parts(2) outcome pending by (auto simp: fulfillment_ok_def st)
  moreover have "jobs_ok s'"
    using outcome by (intro jobs_ok_same [OF parts(3)]) (auto simp: same frame(4))
  moreover have "tickets_ok (y_db s')"
    using pending by (intro tickets_ok_frame [OF rec parts(4)]) (auto simp: st)
  ultimately show ?thesis using base by (simp add: sound_def)
qed

lemma placed_sound:
  assumes inv: "sound a d s" and base: "base_ok s'" and placed: "order_placed req row (y_db s) (y_db s')"
    and same: "y_refs s' = y_refs s" "y_results s' = y_results s" "y_jobs s' = y_jobs s" "y_taken s' = y_taken s"
      "fulfillment (y_world s') = fulfillment (y_world s)"
  shows "sound a d s'"
proof -
  have ok: "schema_ok (y_db s)" using inv by (simp add: sound_def base_ok_def)
  note frame = placed_frame [OF ok placed]
  from inv have parts: "evidence_ok a d s" "fulfillment_ok s" "jobs_ok s" "tickets_ok (y_db s)"
    by (simp_all add: sound_def)
  have "evidence_ok a d s'"
    using frame(1,4) by (intro evidence_ok_mono [OF parts(1)]) (simp_all add: same)
  moreover have "fulfillment_ok s'"
    using frame(3) by (intro fulfillment_ok_mono [OF parts(2)]) (simp_all add: same)
  moreover have "jobs_ok s'"
  proof (rule jobs_ok_same [OF parts(3)])
    fix x
    assume x: "x \<in> set (y_jobs s)" "job_ok (y_db s) x"
    obtain i j where eq: "x = (i, j)" by fastforce
    have "order_status (y_db s) i = Some OrderStatusPaid"
      using jobs_taken [OF parts(3) x(1)] parts(2) by (simp add: fulfillment_ok_def eq)
    with frame(3) have "attendee_ids (y_db s') i = attendee_ids (y_db s) i" by blast
    moreover have "tickets_of (y_db s') i = tickets_of (y_db s) i" by (simp add: tickets_of_def frame(2))
    ultimately show "job_ok (y_db s') x" using x(2) by (cases j) (simp_all add: eq)
  qed (simp_all add: same)
  moreover have "tickets_ok (y_db s')"
    using parts(4) frame(3) by (simp add: tickets_ok_def frame(2))
  ultimately show ?thesis using base by (simp add: sound_def)
qed

lemma issued_frame:
  assumes "issued i ids d d'"
  shows "book d' = book d" and "order_status d' = order_status d" and "attendee_ids d' = attendee_ids d"
    and "ticket_keys d' = ticket_keys d @ map (Pair i) ids"
    and "j \<noteq> i \<Longrightarrow> tickets_of d' j = tickets_of d j"
proof -
  from assms obtain ts where d': "d' = d\<lparr>tickets := tickets d @ ts\<rparr>" and ids: "map tk_attendee ts = ids"
    and own: "\<forall>t \<in> set ts. tk_order t = i" unfolding issued_def by blast
  show "book d' = book d" "order_status d' = order_status d" "attendee_ids d' = attendee_ids d"
    by (simp_all add: d' book_def order_status_def attendee_ids_def fun_eq_iff)
  show "ticket_keys d' = ticket_keys d @ map (Pair i) ids"
    using own by (auto simp: d' ticket_keys_def simp flip: ids)
  show "j \<noteq> i \<Longrightarrow> tickets_of d' j = tickets_of d j"
    using own by (auto simp: d' tickets_of_def filter_empty_conv)
qed

lemma attendee_ids_order:
  assumes "schema_ok d" and "x \<in> set (attendee_ids d i)" and "x \<in> set (attendee_ids d j)"
  shows "i = j"
  using assms by (auto simp: attendee_ids_def schema_defs dest: inj_on_eq_iff [rotated -1, of at_id] simp: distinct_map inj_on_def)

lemma issued_tickets_ok:
  assumes ok: "schema_ok d" and tickets: "tickets_ok d" and issued: "issued i ids d d'" and none: "tickets_of d i = []"
    and paid: "order_status d i = Some OrderStatusPaid" and ids: "mset ids = mset (attendee_ids d i)"
  shows "tickets_ok d'"
proof -
  note frame = issued_frame [OF issued]
  have sets: "set ids = set (attendee_ids d i)" using ids mset_eq_setD by blast
  have "distinct (attendee_ids d i)"
    using ok by (auto simp: attendee_ids_def schema_defs distinct_map intro: inj_on_subset)
  then have "distinct ids" using ids by (metis mset_eq_imp_distinct_iff)
  have "(i, x) \<notin> set (ticket_keys d)" for x
    using none by (auto simp: tickets_of_def ticket_keys_def filter_empty_conv)
  then have "snd ` set (ticket_keys d) \<inter> set ids = {}"
    using tickets attendee_ids_order [OF ok] by (fastforce simp: tickets_ok_keys sets)
  with \<open>distinct ids\<close> tickets paid show ?thesis
    by (auto simp: tickets_ok_keys frame comp_def sets)
qed

lemma distinct_count_list: "distinct xs \<Longrightarrow> count_list xs x \<le> 1"
  by (induction xs) (auto simp: count_list_0_iff)

lemma issuing_sound:
  assumes inv: "sound a d s" and base: "base_ok s'"
    and jobs: "y_jobs s = xs @ (i, NoTickets ids) # ys" "y_jobs s' = xs @ ys"
    and db: "y_db s' = y_db s \<or> issued i ids (y_db s) (y_db s')"
    and same: "fulfillment (y_world s') = fulfillment (y_world s)" "y_refs s' = y_refs s" "y_results s' = y_results s"
      "y_taken s' = y_taken s"
  shows "sound a d s'"
proof -
  from inv have parts: "evidence_ok a d s" "fulfillment_ok s" "jobs_ok s" "tickets_ok (y_db s)" "schema_ok (y_db s)"
    by (simp_all add: sound_def base_ok_def)
  have st: "order_status (y_db s') = order_status (y_db s)" and at: "attendee_ids (y_db s') = attendee_ids (y_db s)"
    and tk: "j \<noteq> i \<Longrightarrow> tickets_of (y_db s') j = tickets_of (y_db s) j" for j
    using db issued_frame by auto
  have "book (y_db s') = book (y_db s)" using db issued_frame(1) by auto
  then have num: "numbered (y_db s') = numbered (y_db s)"
    by (metis book_numbered)
  have "paid_by a s' = paid_by a s" by (simp add: paid_by_def fun_eq_iff num same)
  then have "evidence_ok a d s'"
    by (intro evidence_ok_mono [OF parts(1)]) (simp_all add: same num st)
  moreover have "fulfillment_ok s'" using parts(2) by (simp add: fulfillment_ok_def same st)
  moreover have "jobs_ok s'"
  proof -
    have "count_list (map fst (y_jobs s)) i \<le> count_list (fulfillment (y_world s)) i"
      using parts(3) order_trans unfolding jobs_ok_def by blast
    also have "\<dots> \<le> 1"
      using parts(2) by (intro distinct_count_list) (simp add: fulfillment_ok_def)
    finally have "i \<notin> fst ` set (xs @ ys)"
      by (auto simp: jobs count_list_0_iff image_Un)
    then have "job_ok (y_db s') x" if "x \<in> set (xs @ ys)" for x
    proof -
      have "fst x \<noteq> i" using that \<open>i \<notin> _\<close> by auto
      moreover have "job_ok (y_db s) x" using that parts(3) by (auto simp: jobs_ok_def jobs)
      ultimately show ?thesis by (cases "(y_db s, x)" rule: job_ok.cases) (simp_all add: at tk)
    qed
    moreover have "count_list (map fst (xs @ ys)) j \<le> count_list (map fst (y_jobs s)) j" for j
      by (simp add: jobs)
    ultimately show ?thesis
      using parts(3) unfolding jobs_ok_def jobs(2) same by (metis order_trans)
  qed
  moreover have "tickets_ok (y_db s')"
  proof -
    have "job_ok (y_db s) (i, NoTickets ids)" "i \<in> set (fulfillment (y_world s))"
      using parts(3) jobs_taken [OF parts(3), of "(i, NoTickets ids)"] by (auto simp: jobs_ok_def jobs)
    moreover from this(2) have "order_status (y_db s) i = Some OrderStatusPaid"
      using parts(2) by (simp add: fulfillment_ok_def)
    ultimately show ?thesis using db parts(4,5) issued_tickets_ok by (auto simp del: issued_def)
  qed
  ultimately show ?thesis using base by (simp add: sound_def)
qed

section \<open>Reachable states\<close>

lemma sound_boot:
  assumes "schema_ok (wdb w)" and "fulfillment w = []" and "tickets_ok (wdb w)"
  shows "sound a (wdb w) (boot w)"
  using assms
  by (simp add: sound_def boot_def base_ok_def evidence_ok_def fulfillment_ok_def jobs_ok_def)

lemma sound_step:
  assumes inv: "sound a d s" and step: "sys_step a s s'"
  shows "sound a d s'"
proof (cases "shop_step a s s'")
  case True
  from inv have base: "base_ok s" by (simp add: sound_def)
  with True have base': "base_ok s'" using shop_step_base by blast
  from True base show ?thesis
  proof (cases rule: shop_step_effect)
    case kept
    with inv base' show ?thesis by (rule quiet_sound)
  next
    case (placed req row)
    show ?thesis by (rule placed_sound [OF inv base' placed(1,3-6,2)])
  next
    case (released i st)
    have "order_status (y_db s) i = Some OrderStatusPending" "order_status (y_db s') = (order_status (y_db s))(i \<mapsto> st)"
      using released(1) by (simp_all add: order_released_def)
    from moved_sound [OF inv base' moved_records(1) [OF released(1)] this released(4-7)] released(2,3)
    show ?thesis by auto
  next
    case (paid ref result)
    have "(rf_id ref, rf_number ref) \<in> numbered (y_db s)"
      using inv paid(2) by (simp add: sound_def evidence_ok_def)
    with paid(3,4) have "paid_by a s (rf_id ref)" by (auto simp: paid_by_def api_payments_def paymentService_def)
    moreover have "order_status (y_db s) (rf_id ref) = Some OrderStatusPending"
      "order_status (y_db s') = (order_status (y_db s))(rf_id ref \<mapsto> OrderStatusPaid)"
      using paid(1) by (simp_all add: status_moved_def)
    note moved_sound [OF inv base' moved_records(2) [OF paid(1)] this paid(6-9)]
    ultimately show ?thesis using paid(5) by simp
  next
    case (issuing xs i ids ys)
    show ?thesis by (rule issuing_sound [OF inv base' issuing])
  qed
next
  case False
  with step have admin: "admin_step s s'" by (simp add: sys_step_def)
  from inv have "base_ok s" by (simp add: sound_def)
  with admin_step_base [OF admin] have "base_ok s'" by blast
  from quiet_sound [OF inv this] admin_step_quiet [OF admin] show ?thesis by blast
qed

lemma reaches_sound:
  assumes "reaches a s s'" and "sound a d s"
  shows "sound a d s'"
  using assms by (induction rule: rtranclp_induct) (auto intro: sound_step)

end
