(* ===== verification/Programs.thy ===== *)
theory Programs
  imports Lifecycle
begin

text \<open>
  The programs of the backend are paths of its steps: whatever a request, a sweep or a goroutine does
  when it runs without interruption is one of the interleavings the step relation allows. This ties
  the steps of \<open>System\<close> to the code's own composition, and carries the invariants of reachable
  states over to everything the server does.

  The argument follows the structure of the programs. A judgement \<open>learns R K m P L\<close> says that from
  any state whose threads know \<open>K\<close>, the run of \<open>m\<close> is a path of \<open>R\<close>, and that when it answers \<open>x\<close>
  then \<open>P x\<close> holds and \<open>L x\<close> is known; \<open>follows R K m\<close> asks for the path alone.
\<close>

section \<open>Judgements\<close>

datatype fact = Ref OrderRef | Result string WebhookResult

definition known :: "sys \<Rightarrow> fact set" where
  "known s = Ref ` set (y_refs s) \<union> (\<lambda>(n, result). Result n result) ` set (y_results s)"

text \<open>A program only ever adds to the references and results that threads remember.\<close>

definition recalling :: "sys \<Rightarrow> world \<Rightarrow> OrderRef list \<Rightarrow> (string \<times> WebhookResult) list \<Rightarrow> sys" where
  "recalling s w refs results = s\<lparr>y_world := w, y_refs := y_refs s @ refs, y_results := y_results s @ results\<rparr>"

lemma recalling_simps [simp]:
  "y_world (recalling s w refs results) = w" "y_refs (recalling s w refs results) = y_refs s @ refs"
  "y_results (recalling s w refs results) = y_results s @ results"
  "y_checkouts (recalling s w refs results) = y_checkouts s" "y_jobs (recalling s w refs results) = y_jobs s"
  "y_taken (recalling s w refs results) = y_taken s"
  "recalling (recalling s w refs results) w' refs' results' = recalling s w' (refs @ refs') (results @ results')"
  by (simp_all add: recalling_def)

lemma recalling_none: "recalling s w [] [] = s\<lparr>y_world := w\<rparr>"
  by (simp add: recalling_def)

lemma known_recalling: "known s \<subseteq> known (recalling s w refs results)"
  by (auto simp: known_def)

definition learns ::
  "(sys \<Rightarrow> sys \<Rightarrow> bool) \<Rightarrow> fact set \<Rightarrow> 'a go \<Rightarrow> ('a \<Rightarrow> bool) \<Rightarrow> ('a \<Rightarrow> fact set) \<Rightarrow> bool" where
  "learns R K m P L \<longleftrightarrow> (\<forall>s r w. K \<subseteq> known s \<longrightarrow> m (y_world s) = (r, w) \<longrightarrow>
     (\<exists>refs results. R\<^sup>*\<^sup>* s (recalling s w refs results) \<and>
        (\<forall>x. r = Inr x \<longrightarrow> P x \<and> L x \<subseteq> known (recalling s w refs results))))"

definition follows :: "(sys \<Rightarrow> sys \<Rightarrow> bool) \<Rightarrow> fact set \<Rightarrow> 'a go \<Rightarrow> bool" where
  "follows R K m \<longleftrightarrow> (\<forall>s r w. K \<subseteq> known s \<longrightarrow> m (y_world s) = (r, w) \<longrightarrow>
     (\<exists>refs results. R\<^sup>*\<^sup>* s (recalling s w refs results)))"

lemma followsI:
  "(\<And>s r w. K \<subseteq> known s \<Longrightarrow> m (y_world s) = (r, w) \<Longrightarrow> \<exists>refs results. R\<^sup>*\<^sup>* s (recalling s w refs results)) \<Longrightarrow>
   follows R K m"
  by (simp add: follows_def)

lemma followsE:
  assumes "follows R K m" and "m (y_world s) = (r, w)" and "K \<subseteq> known s"
  obtains refs results where "R\<^sup>*\<^sup>* s (recalling s w refs results)"
  using assms unfolding follows_def by blast

lemma follows_known: "follows R {} m \<Longrightarrow> follows R K m"
  by (simp add: follows_def)

lemma follows_learns: "follows R K m \<Longrightarrow> learns R K m (\<lambda>_. True) (\<lambda>_. {})"
  by (simp add: follows_def learns_def)

lemma follows_handle_learning:
  assumes m: "learns R K m P L" and h: "\<And>e. follows R K (h e)" and k: "\<And>x. P x \<Longrightarrow> follows R (K \<union> L x) (k x)"
  shows "follows R K (handle m h k)"
proof (rule followsI)
  fix s :: sys and r w
  assume K: "K \<subseteq> known s" and run: "handle m h k (y_world s) = (r, w)"
  obtain q w1 where q: "m (y_world s) = (q, w1)" by fastforce
  with m K obtain refs results where path: "R\<^sup>*\<^sup>* s (recalling s w1 refs results)"
    and learnt: "\<And>x. q = Inr x \<Longrightarrow> P x \<and> L x \<subseteq> known (recalling s w1 refs results)" unfolding learns_def by metis
  let ?s = "recalling s w1 refs results"
  have K': "K \<subseteq> known ?s" using K known_recalling by blast
  obtain refs' results' where "R\<^sup>*\<^sup>* ?s (recalling ?s w refs' results')"
  proof (cases q)
    case (Inl e)
    with run q have "h e (y_world ?s) = (r, w)" by (simp add: handle_def)
    with h show thesis using K' that by (rule followsE)
  next
    case (Inr x)
    with run q have "k x (y_world ?s) = (r, w)" by (simp add: handle_def)
    moreover from K' learnt [OF Inr] k have "follows R (K \<union> L x) (k x)" "K \<union> L x \<subseteq> known ?s" by auto
    ultimately show thesis using that by (blast elim: followsE)
  qed
  with path show "\<exists>refs results. R\<^sup>*\<^sup>* s (recalling s w refs results)"
    by (metis recalling_simps(7) rtranclp_trans)
qed

named_theorems follow_intros \<open>programs whose runs are paths of steps\<close>

text \<open>What a step relation has to allow for programs to be composed over it: leaving the database alone.\<close>

locale idling =
  fixes R :: "sys \<Rightarrow> sys \<Rightarrow> bool"
  assumes idle_step: "wdb w = y_db s \<Longrightarrow> fulfillment w = fulfillment (y_world s) \<Longrightarrow> R s (s\<lparr>y_world := w\<rparr>)"
begin

lemma follows_step:
  assumes "\<And>s r w. K \<subseteq> known s \<Longrightarrow> m (y_world s) = (r, w) \<Longrightarrow> R s (s\<lparr>y_world := w\<rparr>)"
  shows "follows R K m"
proof (rule followsI)
  fix s :: sys and r w
  assume "K \<subseteq> known s" "m (y_world s) = (r, w)"
  then have "R s (recalling s w [] [])" using assms by (simp add: recalling_none)
  then show "\<exists>refs results. R\<^sup>*\<^sup>* s (recalling s w refs results)" by blast
qed

lemma follows_still:
  assumes "readonly m" and "quiet m"
  shows "follows R K m"
  by (rule follows_step) (simp add: idle_step readonlyD [OF assms(1)] quietD [OF assms(2)])

text \<open>A read that makes its answer known.\<close>

lemma learns_read:
  assumes still: "readonly m" "quiet m"
    and answer: "\<And>s x w. m (y_world s) = (Inr x, w) \<Longrightarrow> P x \<and> R s (recalling s w (refs x) (results x))"
  shows "learns R K m P (\<lambda>x. Ref ` set (refs x) \<union> (\<lambda>(n, result). Result n result) ` set (results x))"
  unfolding learns_def
proof (intro allI impI)
  fix s :: sys and r w
  assume run: "m (y_world s) = (r, w)"
  show "\<exists>rs qs. R\<^sup>*\<^sup>* s (recalling s w rs qs) \<and> (\<forall>x. r = Inr x \<longrightarrow> P x \<and>
      Ref ` set (refs x) \<union> (\<lambda>(n, result). Result n result) ` set (results x) \<subseteq> known (recalling s w rs qs))"
  proof (cases r)
    case (Inl e)
    have "R s (recalling s w [] [])"
      using readonlyD [OF still(1) run] quietD [OF still(2) run] by (simp add: recalling_none idle_step)
    with Inl show ?thesis by blast
  next
    case (Inr x)
    with answer [of s x w] run have "P x" "R\<^sup>*\<^sup>* s (recalling s w (refs x) (results x))" by auto
    with Inr show ?thesis by (auto simp: known_def intro!: exI)
  qed
qed

lemma follows_basic:
  "follows R K (ret x)" "follows R K (fail e)" "follows R K now" "follows R K (log l t)"
  "follows R K (query q)" "follows R K (query_row q')" "follows R K (query_rows q'')"
  by (intro follows_still readonly_intros quiet_intros)+

lemma follows_handle:
  assumes "follows R K m" and "\<And>e. follows R K (h e)" and "\<And>x. follows R K (k x)"
  shows "follows R K (handle m h k)"
  by (rule follows_handle_learning [OF follows_learns [OF assms(1)] assms(2)]) (simp add: assms(3))

lemma follows_bind: "follows R K m \<Longrightarrow> (\<And>x. follows R K (k x)) \<Longrightarrow> follows R K (bind m k)"
  by (simp add: bind_def follows_handle follows_basic)

lemma follows_bind_learning:
  "learns R K m P L \<Longrightarrow> (\<And>x. P x \<Longrightarrow> follows R (K \<union> L x) (k x)) \<Longrightarrow> follows R K (bind m k)"
  unfolding bind_def by (erule follows_handle_learning) (simp_all add: follows_basic)

lemma follows_if: "(c \<Longrightarrow> follows R K a) \<Longrightarrow> (\<not> c \<Longrightarrow> follows R K b) \<Longrightarrow> follows R K (if c then a else b)"
  by simp

lemma follows_option:
  "follows R K a \<Longrightarrow> (\<And>x. follows R K (b x)) \<Longrightarrow> follows R K (case v of None \<Rightarrow> a | Some x \<Rightarrow> b x)"
  by (cases v) auto

lemma follows_sum:
  "(\<And>e. follows R K (a e)) \<Longrightarrow> (\<And>x. follows R K (b x)) \<Longrightarrow> follows R K (case v of Inl e \<Rightarrow> a e | Inr x \<Rightarrow> b x)"
  by (cases v) auto

lemma follows_lift: "follows R K (lift v)"
  by (auto simp: lift_def intro: follows_basic split: sum.split)

lemma follows_check: "follows R K (check v)"
  by (intro follows_still readonly_intros quiet_intros)

lemma follows_fold_each: "(\<And>t x. x \<in> set xs \<Longrightarrow> follows R K (f t x)) \<Longrightarrow> follows R K (fold_each xs f t)"
  by (induction xs arbitrary: t) (auto intro: follows_basic follows_bind)

lemmas follows_rules = follows_basic follows_bind follows_handle follows_if follows_option
  follows_sum follows_lift follows_check

lemma follows_guarded:
  assumes k: "follows R K k"
  shows "follows R K (guarded a g rq k)"
proof -
  have "follows R K (Verify lib t raw)" for lib t raw
    by (intro follows_still readonly_admin_parts quiet_Verify)
  then have "follows R K (RequireAuth lib t header (\<lambda>_. k))" for lib t header
    unfolding RequireAuth_def by (intro follows_rules k)
  moreover have "follows R K (RateLimitPerIP a cfg rq k)" for cfg
  proof -
    let ?gate = "\<lambda>w. case a_limit a cfg (rq_ip rq) (tick w) of None \<Rightarrow> (Inr (), step_tick w) | Some err \<Rightarrow> (Inl err, step_tick w)"
    have eq: "RateLimitPerIP a cfg rq k = bind ?gate (\<lambda>_. k)"
      by (auto simp: RateLimitPerIP_def bind_run fun_eq_iff split: option.split)
    have "readonly ?gate" "quiet ?gate"
      by (auto simp: ensures_def quiet_def step_tick_def split: option.split)
    then show ?thesis unfolding eq by (intro follows_bind follows_still k)
  qed
  ultimately show ?thesis using k by (simp add: guarded_def split: guard.split)
qed

lemma follows_serve:
  assumes "\<And>r c. r \<in> set (routes a) \<Longrightarrow> takes rq r \<Longrightarrow> follows R {} (rt_handler r c)"
  shows "follows R {} (serve a rq)"
proof -
  have "follows R {} (dispatch a rq)"
    unfolding dispatch_def by (auto intro!: follows_basic follows_guarded assms dest: find_SomeD split: option.split)
  then show ?thesis
    unfolding serve_def NoContent_def
    by (auto intro!: follows_handle follows_basic follows_bind split: option.split)
qed

end

interpretation shop_program: idling "shop_step a" for a
  by unfold_locales (rule shop_step.idle)

interpretation sys_program: idling "sys_step a" for a
  by unfold_locales (simp add: sys_step_def shop_step.idle)

lemmas [follow_intros] = shop_program.follows_rules sys_program.follows_rules

lemma shop_path_sys: "shop_reaches a s s' \<Longrightarrow> reaches a s s'"
  by (erule mono_rtranclp [rule_format, rotated]) (simp add: sys_step_def)

lemma follows_shop_sys: "follows (shop_step a) K m \<Longrightarrow> follows (sys_step a) K m"
  unfolding follows_def by (meson shop_path_sys)

section \<open>Payments\<close>

lemma read_number:
  "op_OrderByNumber paymentOrderAdapter n w = (Inr ref, w') \<Longrightarrow> rf_number ref = n"
  by (auto simp: paymentOrderAdapter_def handle_Inr order_GetOrderByNumber_def bind_Inr toOrderRecord_def
      sql_GetOrderByNumber_def dest!: query_row_Inr find_SomeD split: if_splits)

lemma order_learnt:
  "learns (shop_step a) K (op_OrderByNumber (api_orders a) n) (\<lambda>ref. rf_number ref = n) (\<lambda>ref. {Ref ref})"
proof -
  have "learns (shop_step a) K (op_OrderByNumber (api_orders a) n) (\<lambda>ref. rf_number ref = n)
      (\<lambda>x. Ref ` set [x] \<union> (\<lambda>(n, result). Result n result) ` set [])"
    using shop_step.order_read [of a n] read_number
    by (intro shop_program.learns_read [OF shop.number_readonly shop.provider_quiet(1)])
       (auto simp: recalling_def)
  then show ?thesis by simp
qed

lemma due_learnt:
  "learns (shop_step a) K (op_DueForExpiry (api_orders a) t expiryBatchSize) (\<lambda>_. True) (\<lambda>refs. Ref ` set refs)"
proof -
  have "learns (shop_step a) K (op_DueForExpiry (api_orders a) t expiryBatchSize) (\<lambda>_. True)
      (\<lambda>x. Ref ` set x \<union> (\<lambda>(n, result). Result n result) ` set [])"
    using shop_step.due_read [of a t]
    by (intro shop_program.learns_read [OF shop.due_readonly shop.provider_quiet(4)]) (auto simp: recalling_def)
  then show ?thesis by simp
qed

lemma fetched_learnt:
  "learns (shop_step a) K (g_FetchStatus (s_gateway (api_payments a)) n) (\<lambda>_. True) (\<lambda>result. {Result n result})"
proof -
  have "learns (shop_step a) K (g_FetchStatus (s_gateway (api_payments a)) n) (\<lambda>_. True)
      (\<lambda>x. Ref ` set [] \<union> (\<lambda>(n, result). Result n result) ` set [(n, x)])"
    using shop_step.fetched [of a n]
    by (intro shop_program.learns_read [OF shop.fetch_readonly shop.provider_quiet(5)]) (auto simp: recalling_def)
  then show ?thesis by simp
qed

text \<open>Recording a result and settling it, for an order and a result that are known.\<close>

lemma known_iff: "Ref ref \<in> known s \<longleftrightarrow> ref \<in> set (y_refs s)" "Result n result \<in> known s \<longleftrightarrow> (n, result) \<in> set (y_results s)"
  by (auto simp: known_def)

lemma provider_result_follows:
  assumes "Ref ref \<in> K" and "Result (rf_number ref) result \<in> K"
  shows "follows (shop_step a) K (applyProviderResult (api_payments a) ref provider result)"
proof -
  have "follows (shop_step a) K (settle (api_payments a) ref result)"
    by (rule shop_program.follows_step, rule shop_step.settled [where ref = ref and result = result])
       (use assms in \<open>auto simp flip: known_iff\<close>)
  moreover have "follows (shop_step a) K (payment_CreatePayment \<lparr>pl_order = rf_id ref, pl_provider = provider,
             pl_transaction = wr_transaction result, pl_type = wr_type result,
             pl_status = wr_status result, pl_raw = wr_raw result\<rparr>)"
    by (rule shop_program.follows_step, rule shop_step.logged [where ref = ref and result = result])
       (use assms in \<open>auto simp flip: known_iff\<close>)
  ultimately show ?thesis unfolding applyProviderResult_def by (intro follow_intros)
qed

lemma expire_follows: "Ref ref \<in> K \<Longrightarrow> follows (shop_step a) K (expireIfDue (api_payments a) ref)"
  by (rule shop_program.follows_step, rule shop_step.expired [where ref = ref]) (auto simp flip: known_iff)

lemma notification_follows: "follows (shop_step a) {} (HandleNotification (api_payments a) provider payload signature)"
proof (cases "g_VerifyWebhook (s_gateway (api_payments a)) payload signature")
  case (Inl e)
  then show ?thesis by (simp add: HandleNotification_def) (intro follow_intros)
next
  case (Inr result)
  let ?K = "{Result (wr_number result) result}"
  let ?rest = "handle (op_OrderByNumber (api_orders a) (wr_number result))
            (\<lambda>err. if errors_Is err ErrOrderNotFound then
                     log LevelError ''notification names an unknown order; acknowledging without processing''
                   else fail err)
            (\<lambda>ord. bind (applyProviderResult (api_payments a) ord provider result) (\<lambda>_. ret ()))"
  have "learns (shop_step a) {} (ret ()) (\<lambda>_. True) (\<lambda>_. ?K)"
    unfolding learns_def
  proof (intro allI impI)
    fix s :: sys and r w
    assume "ret () (y_world s) = (r, w)"
    then have "shop_step a s (recalling s w [] [(wr_number result, result)])"
      using shop_step.verified [OF Inr, of s] by (auto simp: recalling_def)
    then show "\<exists>refs results. shop_reaches a s (recalling s w refs results) \<and>
        (\<forall>x. r = Inr x \<longrightarrow> True \<and> ?K \<subseteq> known (recalling s w refs results))"
      by (intro exI [of _ "[]"] exI [of _ "[(wr_number result, result)]"]) (auto simp: known_def)
  qed
  moreover have "follows (shop_step a) ?K ?rest"
  proof (rule follows_handle_learning [OF order_learnt])
    fix ref :: OrderRef
    assume "rf_number ref = wr_number result"
    then show "follows (shop_step a) (?K \<union> {Ref ref}) (bind (applyProviderResult (api_payments a) ref provider result) (\<lambda>_. ret ()))"
      by (intro follow_intros provider_result_follows) simp_all
  qed (intro follow_intros)
  ultimately have "follows (shop_step a) {} (bind (ret ()) (\<lambda>_. ?rest))"
    by (intro shop_program.follows_bind_learning) simp_all
  moreover have "bind (ret ()) (\<lambda>_. ?rest) = ?rest" by (simp add: bind_run fun_eq_iff)
  ultimately show ?thesis unfolding HandleNotification_def Inr sum.case by simp
qed

lemma refresh_follows: "follows (shop_step a) {} (RefreshStatus (api_payments a) n)"
  unfolding RefreshStatus_def
proof (rule shop_program.follows_bind_learning [OF order_learnt])
  fix ref :: OrderRef
  assume num: "rf_number ref = n"
  let ?K = "{} \<union> {Ref ref}"
  let ?fetch = "handle (g_FetchStatus (s_gateway (api_payments a)) n)
      (\<lambda>err. if errors_Is err ErrOrderNotFound then
               bind (log LevelError ''provider has no record of an order we hold'') (\<lambda>_. fail ErrProviderHasNoRecord)
             else fail err)
      (\<lambda>result.
         bind (applyProviderResult (api_payments a) ref (g_Name (s_gateway (api_payments a))) result) (\<lambda>changed.
         bind (op_OrderByNumber (api_orders a) n) (\<lambda>current.
         ret \<lparr>rr_number = rf_number current, rr_status = rf_status current, rr_changed = changed\<rparr>)))"
  have "follows (shop_step a) ?K ?fetch"
    using num
    by (intro follows_handle_learning [OF fetched_learnt] follow_intros provider_result_follows
        shop_program.follows_still shop.number_readonly shop.provider_quiet) simp_all
  moreover have "follows (shop_step a) ?K (expireIfDue (api_payments a) ref)" by (rule expire_follows) simp
  ultimately show "follows (shop_step a) ?K (if rf_status ref \<noteq> OrderStatusPending then
       ret \<lparr>rr_number = rf_number ref, rr_status = rf_status ref, rr_changed = False\<rparr>
     else bind (expireIfDue (api_payments a) ref) (\<lambda>expired.
       if expired then ret \<lparr>rr_number = rf_number ref, rr_status = OrderStatusExpired, rr_changed = True\<rparr>
       else ?fetch))"
    by (intro shop_program.follows_if shop_program.follows_bind shop_program.follows_basic)
qed

lemma sweep_follows: "follows (shop_step a) {} (sweepOnce (api_payments a))"
proof -
  have "follows (shop_step a) {} (ExpireDueOrders (api_payments a))"
    unfolding ExpireDueOrders_def
    by (intro follow_intros shop_program.follows_bind_learning [OF due_learnt]
        shop_program.follows_fold_each expire_follows) auto
  then show ?thesis unfolding sweepOnce_def by (intro follow_intros)
qed

section \<open>Checkout\<close>

lemma still_step:
  "wdb w = y_db s \<Longrightarrow> fulfillment w = fulfillment (y_world s) \<Longrightarrow> shop_reaches a s (s\<lparr>y_world := w\<rparr>)"
  by (simp add: shop_step.idle r_into_rtranclp)

lemma reserve_path:
  assumes "reserve_loop eventProviderAdapter req n lastErr (y_world s) = (r, w)"
    and valid: "CheckoutRequest_Validate (a_ParseAddress a) (a_iter a) req = None"
  shows "shop_reaches a s (case r of Inl _ \<Rightarrow> s\<lparr>y_world := w\<rparr>
    | Inr (created, amount, lines) \<Rightarrow> s\<lparr>y_world := w, y_checkouts := y_checkouts s @ [(req, created, amount, lines)]\<rparr>)"
  using assms(1)
proof (induction n arbitrary: lastErr s)
  case 0
  then show ?case by auto
next
  case (Suc n)
  obtain q w1 where once: "reserveOnce eventProviderAdapter req (y_world s) = (q, w1)" by fastforce
  have ful: "fulfillment w1 = fulfillment (y_world s)" using quietD [OF quiet_writes(4) once] .
  show ?case
  proof (cases q)
    case (Inr x)
    obtain created amount lines where x: "x = (created, amount, lines)" by (metis surj_pair)
    from shop_step.reserved [OF valid once [unfolded Inr x]] show ?thesis
      using Suc.prems once Inr x by (auto simp: handle_def)
  next
    case (Inl e)
    let ?w = "w1\<lparr>logs := logs w1 @ [(LevelWarn, ''order number collision; retrying'')]\<rparr>"
    have still: "wdb w1 = y_db s" using once Inl events.reserveOnce_Inl by blast
    have "if \<not> errors_Is e ErrOrderNumberTaken then r = Inl e \<and> w = w1
        else reserve_loop eventProviderAdapter req n (Some e) ?w = (r, w)"
      using Suc.prems once Inl by (auto simp: handle_def bind_run split: if_splits)
    moreover have "shop_reaches a s (s\<lparr>y_world := ?w\<rparr>)" "shop_reaches a s (s\<lparr>y_world := w1\<rparr>)"
      using still ful by (simp_all add: still_step)
    ultimately show ?thesis
      using Suc.IH [of "Some e" "s\<lparr>y_world := ?w\<rparr>"]
      by (auto simp: case_sum_if split: if_splits sum.splits elim: rtranclp_trans)
  qed
qed

lemma gateway_still:
  "readonly (gw_CreateTransaction (api_gw a) req)" "quiet (gw_CreateTransaction (api_gw a) req)"
proof -
  show "readonly (gw_CreateTransaction (api_gw a) req)"
    unfolding api_gw_def by (rule checkouts.gateway_readonly)
  show "quiet (gw_CreateTransaction (api_gw a) req)"
    unfolding api_gw_def gatewayAdapter_def midtransGateway_def midtrans_CreateTransaction_def
      PaymentGateway.simps Gateway.simps Let_def case_prod_beta
    by (intro quiet_intros)
qed

lemma payment_path:
  assumes run: "checkout_payment eventProviderAdapter (api_gw a) req created amount lines (y_world s) = (r, w)"
    and flight: "y_checkouts s = cs @ [(req, created, amount, lines)]"
  shows "shop_reaches a s (s\<lparr>y_world := w, y_checkouts := cs\<rparr>)"
proof -
  let ?call = "gw_CreateTransaction (api_gw a) (paymentRequestFor created amount lines req)"
  obtain q w1 where q: "?call (y_world s) = (q, w1)" by fastforce
  have still: "wdb w1 = y_db s" "fulfillment w1 = fulfillment (y_world s)"
    using readonlyD [OF gateway_still(1) q] quietD [OF gateway_still(2) q] .
  show ?thesis
  proof (cases q)
    case (Inl err)
    let ?w = "w1\<lparr>logs := logs w1 @ [(LevelError, ''payment initiation failed; compensating'')]\<rparr>"
    let ?s = "s\<lparr>y_world := ?w\<rparr>"
    obtain u w2 where comp: "compensate eventProviderAdapter created lines (y_world ?s) = (u, w2)" by fastforce
    have "shop_step a s ?s" using still by (intro shop_step.idle) simp_all
    moreover have "shop_step a ?s (?s\<lparr>y_world := w2, y_checkouts := cs\<rparr>)"
      using shop_step.compensated [of ?s cs req created amount lines "[]", OF _ q [unfolded Inl] comp] flight by simp
    moreover have "w = w2"
      using run q Inl comp by (auto simp: checkout_payment_def handle_def bind_run split: sum.splits)
    ultimately show ?thesis by simp
  next
    case (Inr session)
    let ?s = "s\<lparr>y_world := w1\<rparr>"
    let ?tx = "InTx (order_UpdatePaymentDetails (or_id created)
      \<lparr>pd_url = ps_qr_image session, pd_provider = gw_Name (api_gw a),
       pd_qr_string = ps_qr_string session, pd_expires_at = ps_expires_at session\<rparr>)"
    obtain u w2 where tx: "?tx (y_world ?s) = (u, w2)" by fastforce
    have "shop_step a s ?s" using still by (intro shop_step.idle) simp_all
    moreover have "shop_step a ?s (?s\<lparr>y_world := w2, y_checkouts := cs\<rparr>)"
      using shop_step.session_recorded [of ?s cs req created amount lines "[]", OF _ q [unfolded Inr] tx] flight by simp
    ultimately have path: "shop_reaches a s (s\<lparr>y_world := w2, y_checkouts := cs\<rparr>)" by simp
    have "\<exists>ls. w = w2\<lparr>logs := ls\<rparr>"
      using run q Inr tx by (auto simp: checkout_payment_def handle_def bind_run split: sum.splits)
    then have "shop_step a (s\<lparr>y_world := w2, y_checkouts := cs\<rparr>) (s\<lparr>y_world := w2, y_checkouts := cs, y_world := w\<rparr>)"
      by (intro shop_step.idle) auto
    moreover have "s\<lparr>y_world := w2, y_checkouts := cs, y_world := w\<rparr> = s\<lparr>y_world := w, y_checkouts := cs\<rparr>" by (cases s) simp
    ultimately show ?thesis using path by simp
  qed
qed

lemma checkout_follows:
  "follows (shop_step a) {} (Checkout (a_ParseAddress a) (a_iter a) eventProviderAdapter (api_gw a) req)"
proof (rule followsI)
  fix s :: sys and r w
  assume run: "Checkout (a_ParseAddress a) (a_iter a) eventProviderAdapter (api_gw a) req (y_world s) = (r, w)"
  have "shop_reaches a s (s\<lparr>y_world := w\<rparr>)"
  proof (cases "CheckoutRequest_Validate (a_ParseAddress a) (a_iter a) req")
    case (Some e)
    with run show ?thesis by (auto simp: Checkout_def bind_run intro: still_step)
  next
    case valid: None
    obtain q w1 where q: "reserve eventProviderAdapter req (y_world s) = (q, w1)" by fastforce
    note path = reserve_path [OF this [unfolded reserve_def] valid]
    show ?thesis
    proof (cases q)
      case (Inl e)
      with run q valid path show ?thesis by (auto simp: Checkout_def bind_run)
    next
      case (Inr x)
      obtain created amount lines where x: "x = (created, amount, lines)" by (metis surj_pair)
      let ?s = "s\<lparr>y_world := w1, y_checkouts := y_checkouts s @ [(req, created, amount, lines)]\<rparr>"
      have "checkout_payment eventProviderAdapter (api_gw a) req created amount lines (y_world ?s) = (r, w)"
        using run q valid Inr x by (simp add: Checkout_def bind_run)
      from payment_path [OF this] path Inr x show ?thesis by (simp add: rtranclp_trans)
    qed
  qed
  then show "\<exists>refs results. shop_reaches a s (recalling s w refs results)" by (metis recalling_none)
qed

section \<open>Fulfilment\<close>

lemma issue_path:
  assumes run: "IssueTicketsForOrder (Some order_AttendeeIDsForOrder) i (y_world s) = (r, w)"
    and job: "y_jobs s = xs @ [(i, Started)]"
  shows "\<exists>s'. shop_reaches a s s' \<and> y_world s' = w \<and> y_taken s' = y_taken s"
proof (cases "wdb w = y_db s")
  case True
  have "fulfillment w = fulfillment (y_world s)" using quietD [OF order_attendees.issue_quiet run] .
  with True have "shop_reaches a s (s\<lparr>y_world := w\<rparr>)" by (rule still_step)
  then show ?thesis by (intro exI [of _ "s\<lparr>y_world := w\<rparr>"]) simp
next
  case changed: False
  obtain q w1 where ids: "order_AttendeeIDsForOrder i (y_world s) = (q, w1)" by fastforce
  have w1: "wdb w1 = y_db s" "fulfillment w1 = fulfillment (y_world s)"
    using readonlyD [OF order_attendees.ids_readonly ids] quietD [OF order_attendees.ids_quiet ids] .
  with changed run ids obtain as where q: "q = Inr as" by (cases q) (auto simp: IssueTicketsForOrder_def bind_run)
  obtain l w2 where list: "ticket_ListByOrderID i w1 = (l, w2)" by fastforce
  have w2: "wdb w2 = y_db s" using readonlyD [OF readonly_ticket_reads(3) list] w1 by simp
  have l: "l = Inr []" "as \<noteq> []"
    using changed run ids q list w2
    by (auto simp: IssueTicketsForOrder_def GenerateForOrder_def bind_run split: sum.splits if_splits)
  obtain u w3 where tx: "InTx (for_each as (\<lambda>attendeeID. createOneTicket i attendeeID)) w2 = (u, w3)" by fastforce
  obtain v w4 where again: "ticket_ListByOrderID i w3 = (v, w4)" by fastforce
  have w4: "wdb w4 = wdb w3" "fulfillment w4 = fulfillment w3"
    using readonlyD [OF readonly_ticket_reads(3) again] quietD [OF quiet_ticket(1) again] .
  have w: "wdb w = wdb w3" "fulfillment w = fulfillment w3"
    using run ids q list l tx again w4
    by (auto simp: IssueTicketsForOrder_def GenerateForOrder_def handle_def bind_run split: sum.splits if_splits prod.splits)
  let ?s1 = "s\<lparr>y_world := w1, y_jobs := xs @ (i, HasAttendees as) # []\<rparr>"
  let ?s2 = "?s1\<lparr>y_world := w2, y_jobs := xs @ (i, NoTickets as) # []\<rparr>"
  have "shop_step a s ?s1" using shop_step.job_attendees [of s xs i "[]" as w1] job ids q by simp
  moreover have "shop_step a ?s1 ?s2"
    using shop_step.job_checked [of ?s1 xs i as "[]" w2] list l by simp
  moreover have "shop_step a ?s2 (?s2\<lparr>y_world := w3, y_jobs := xs @ []\<rparr>)"
    using shop_step.job_issued [of ?s2 xs i as "[]" u w3] tx by simp
  moreover have "shop_step a (?s2\<lparr>y_world := w3, y_jobs := xs @ []\<rparr>) ((?s2\<lparr>y_world := w3, y_jobs := xs @ []\<rparr>)\<lparr>y_world := w\<rparr>)"
    using w by (intro shop_step.idle) simp_all
  ultimately have "shop_reaches a s ((?s2\<lparr>y_world := w3, y_jobs := xs @ []\<rparr>)\<lparr>y_world := w\<rparr>)"
    by (meson rtranclp.rtrancl_into_rtrancl rtranclp.rtrancl_refl)
  then show ?thesis by (intro exI [of _ "(?s2\<lparr>y_world := w3, y_jobs := xs @ []\<rparr>)\<lparr>y_world := w\<rparr>"]) simp
qed

lemma SetEmailSent_follows: "follows (shop_step a) {} (order_SetEmailSent i)"
  by (rule shop_program.follows_step, rule shop_step.emailed)

lemma send_follows: "follows (shop_step a) {} (SendTicketEmail (notificationService env cfg) i)"
proof -
  let ?n = "notificationService env cfg"
  have "follows (shop_step a) {} (do_MarkEmailSent (n_orders ?n) i)"
    by (simp add: notificationService_def notificationOrderAdapter_def SetEmailSent_follows)
  moreover note shop_program.follows_still [OF deliveries.order_readonly deliveries.delivery_quiet(1)]
    shop_program.follows_still [OF deliveries.tickets_readonly deliveries.delivery_quiet(2)]
    shop_program.follows_still [OF deliveries.send_readonly deliveries.delivery_quiet(3)]
  ultimately show ?thesis unfolding SendTicketEmail_def by (intro follow_intros)
qed

lemma fulfill_path:
  assumes run: "fulfill (api_payments a) i (y_world s) = (r, w)"
    and spawned: "count_list (y_taken s) i < count_list (fulfillment (y_world s)) i"
  shows "\<exists>s'. shop_reaches a s s' \<and> y_world s' = w \<and> y_taken s' = y_taken s @ [i]"
proof -
  let ?s = "s\<lparr>y_taken := y_taken s @ [i], y_jobs := y_jobs s @ [(i, Started)]\<rparr>"
  have start: "shop_step a s ?s" using spawned by (rule shop_step.job_started)
  obtain q w1 where q: "IssueTicketsForOrder (Some order_AttendeeIDsForOrder) i (y_world s) = (q, w1)" by fastforce
  then obtain t where issued: "shop_reaches a ?s t" and t: "y_world t = w1" "y_taken t = y_taken s @ [i]"
    using issue_path [of i ?s q w1 "y_jobs s"] by auto
  let ?rest = "case q of Inl _ \<Rightarrow> log LevelError ''ticket generation failed for a paid order''
    | Inr _ \<Rightarrow> handle (SendTicketEmail (notificationService (a_delivery a) (a_smtp a)) i)
         (\<lambda>err. log LevelError ''ticket email delivery failed for a paid order'') ret"
  have "?rest (y_world t) = (r, w)"
    using run q t by (cases q) (simp_all add: fulfill_def api_payments_def paymentService_def handle_def)
  moreover have "follows (shop_step a) {} ?rest"
    by (intro follow_intros send_follows)
  ultimately obtain refs results where "shop_reaches a t (recalling t w refs results)"
    by (elim followsE) auto
  with start issued have "shop_reaches a s (recalling t w refs results)" by (meson converse_rtranclp_into_rtranclp rtranclp_trans)
  then show ?thesis using t by (intro exI [of _ "recalling t w refs results"]) simp
qed

section \<open>Every request\<close>

lemmas read_defs = event_ListPublishedEvents_def event_GetPublishedEventBySlug_def event_ListTicketTypesByEventID_def
  event_ListEvents_def event_GetEventByID_def event_ListTicketTypesAdmin_def event_GetTicketTypeAdmin_def
  event_TicketTypeNamesByIDs_def event_ListTicketTypeIDsByEventID_def event_TicketTypeDisplaysByIDs_def
  ticket_GetDetailByCode_def ticket_GetStatusByCode_def order_SoldCountByTicketType_def

lemma quiet_leaves [quiet_intros]:
  "quiet event_ListPublishedEvents" "quiet (event_GetPublishedEventBySlug sl)" "quiet (event_ListTicketTypesByEventID i)"
  "quiet event_ListEvents" "quiet (event_GetEventByID i)" "quiet (event_ListTicketTypesAdmin i)" "quiet (event_GetTicketTypeAdmin i)"
  "quiet (event_TicketTypeNamesByIDs ids)" "quiet (event_ListTicketTypeIDsByEventID i)" "quiet (event_TicketTypeDisplaysByIDs ids)"
  "quiet (ticket_GetDetailByCode code)" "quiet (ticket_GetStatusByCode code)" "quiet (order_SoldCountByTicketType ids)"
  unfolding read_defs case_prod_beta by (intro quiet_intros)+

lemma quiet_lookups [quiet_intros]:
  "quiet (el_TicketTypeNames orderEventLookupAdapter ids)" "quiet (el_TicketTypeIDsForEvent orderEventLookupAdapter i)"
  "quiet (el_TicketTypeDisplays orderEventLookupAdapter ids)" "quiet (SoldCountByTicketType orderChecker ids)"
  unfolding orderEventLookupAdapter_def EventLookup.simps TicketTypeNames_def TicketTypeIDsForEvent_def
    TicketTypeDisplays_def orderChecker_def OrderChecker.simps
  by (intro quiet_intros)+

lemma quiet_reading_handlers [quiet_intros]:
  "quiet listEvents" "quiet (getEventBySlug c)" "quiet (lookup_handler uc c)" "quiet (login lib t dc c)" "quiet healthz"
  "quiet (orderDetail orderEventLookupAdapter n)" "quiet (qrImage encode n)"
  "quiet (listOrders parse orderEventLookupAdapter st ev)" "quiet (listAttendees parse orderEventLookupAdapter oid ev)"
  "quiet (validate_handler uc body)" "quiet adminListEvents" "quiet (adminGetEvent (Some orderChecker) dc c)"
  "quiet (adminListTicketTypes (Some orderChecker) dc c)" "quiet (adminGetTicketType (Some orderChecker) dc c)"
  unfolding listEvents_def getEventBySlug_def lookup_handler_def login_def LookupPublic_def Let_def healthz_def
    ListPublishedEvents_def GetPublishedEventBySlug_def JSON_def orderDetail_def OrderByNumber_def ticketTypeDisplays_def
    qrImage_def PaymentQRPayload_def listOrders_def listAttendees_def ListOrders_def ListAttendees_def
    ticketTypeScope_def ticketTypeNames_def validate_handler_def ticket_Validate_def adminListEvents_def
    ListEvents_def adminGetEvent_def GetEventDetail_def ListTicketTypes_def withSoldCounts_def option.case
    adminListTicketTypes_def adminGetTicketType_def GetTicketType_def
  by (intro quiet_intros)+

lemma readonly_reading_handlers [readonly_intros]:
  "readonly listEvents" "readonly (getEventBySlug c)" "readonly (lookup_handler uc c)" "readonly (login lib t dc c)"
  "readonly adminListEvents" "readonly (adminGetEvent (Some orderChecker) dc c)"
  "readonly (adminListTicketTypes (Some orderChecker) dc c)" "readonly (adminGetTicketType (Some orderChecker) dc c)"
  unfolding listEvents_def getEventBySlug_def lookup_handler_def login_def adminListEvents_def adminGetEvent_def
    adminListTicketTypes_def adminGetTicketType_def Let_def
  by (intro readonly_intros)+

lemma guest_handlers_follow:
  assumes "r \<in> set (event_public_routes @ order_public_routes a @ payment_public_routes a @
    ticket_public_routes a g @ payment_refresh_routes a g @ login_routes a)"
  shows "follows (shop_step a) {} (rt_handler r c)"
proof -
  let ?R = "shop_step a"
  have "follows ?R {} listEvents" "follows ?R {} (getEventBySlug c)" "follows ?R {} (lookup_handler (a_upper a) c)"
    "follows ?R {} (login (a_lib a) (a_issuer a) (a_decoders a) c)"
    by (intro shop_program.follows_still readonly_intros quiet_intros)+
  moreover have "follows ?R {} (bind (orderDetail orderEventLookupAdapter n) (\<lambda>(cache, detail).
      ret \<lparr>re_status = 200, re_cache = Some cache, re_body = OrderPageBody detail\<rparr>))"
    "follows ?R {} (bind (qrImage (a_qr_encode a) n) (\<lambda>(cache, png).
      ret \<lparr>re_status = 200, re_cache = Some cache, re_body = PngBody png\<rparr>))" for n
    unfolding case_prod_beta by (intro shop_program.follows_still readonly_intros quiet_intros)+
  moreover have "follows ?R {} (bind (api_checkout a body) (\<lambda>resp. JSON 201 (PlacedBody resp)))" for body
    unfolding api_checkout_def checkout_handler_def JSON_def
    by (intro follow_intros checkout_follows [unfolded api_gw_def])
  moreover have "follows ?R {} (bind (webhook (api_payments a) p b sg) (\<lambda>_. NoContent 200))" for p b sg
    unfolding webhook_def NoContent_def by (intro follow_intros notification_follows)
  moreover have "follows ?R {} (bind (refreshStatus (api_payments a) n) (\<lambda>resp. JSON 200 (RefreshBody resp)))" for n
    unfolding refreshStatus_def JSON_def by (intro follow_intros refresh_follows)
  ultimately show ?thesis
    using assms
    by (auto simp: event_public_routes_def order_public_routes_def payment_public_routes_def
        ticket_public_routes_def payment_refresh_routes_def login_routes_def GET_def POST_def)
qed

text \<open>An admin's writes are single steps.\<close>

lemma admin_writes_follow:
  "follows (sys_step a) K (event_CreateEvent p)" "follows (sys_step a) K (event_UpdateEvent i p)"
  "follows (sys_step a) K (DeleteEvent (Some orderChecker) i)" "follows (sys_step a) K (event_CreateTicketType q)"
  "follows (sys_step a) K (event_UpdateTicketType i q)" "follows (sys_step a) K (DeleteTicketType (Some orderChecker) i)"
  by (rule sys_program.follows_step; simp add: sys_step_def; blast intro: admin_step.intros)+

lemma admin_handlers_follow:
  assumes "r \<in> set (event_admin_routes a g @ order_admin_routes a g @ ticket_admin_routes a g @ notification_admin_routes a g)"
  shows "follows (sys_step a) {} (rt_handler r c)"
proof -
  let ?R = "sys_step a" and ?dc = "a_decoders a" and ?oc = "Some orderChecker"
  have "follows ?R {} adminListEvents" "follows ?R {} (adminGetEvent ?oc ?dc c)"
    "follows ?R {} (adminListTicketTypes ?oc ?dc c)" "follows ?R {} (adminGetTicketType ?oc ?dc c)"
    by (intro sys_program.follows_still readonly_intros quiet_intros)+
  moreover have "follows ?R {} (bind (listOrders parse orderEventLookupAdapter st ev) (\<lambda>rows. JSON 200 (OrdersBody rows)))"
    "follows ?R {} (bind (listAttendees parse orderEventLookupAdapter st ev) (\<lambda>rows. JSON 200 (AttendeesBody rows)))"
    "follows ?R {} (bind (validate_handler uc body) (\<lambda>result. JSON 200 (ValidationBody result)))" for parse st ev uc body
    unfolding JSON_def by (intro sys_program.follows_still readonly_intros quiet_intros)+
  moreover have "follows ?R {} (event_GetEventByID i)" "follows ?R {} (ticket_GetStatusByCode code)"
    "follows ?R {} (withSoldCounts ?oc rows)" for i code rows
    unfolding withSoldCounts_def option.case
    by (intro sys_program.follows_still readonly_intros quiet_intros)+
  note reads = this
  have "follows ?R {} (adminCreateEvent ?dc c)" "follows ?R {} (adminUpdateEvent ?dc c)" "follows ?R {} (adminDeleteEvent ?oc ?dc c)"
    "follows ?R {} (adminCreateTicketType ?dc c)" "follows ?R {} (adminUpdateTicketType ?oc ?dc c)"
    "follows ?R {} (adminDeleteTicketType ?oc ?dc c)"
    unfolding adminCreateEvent_def adminUpdateEvent_def adminDeleteEvent_def adminCreateTicketType_def
      adminUpdateTicketType_def adminDeleteTicketType_def CreateEvent_def UpdateEvent_def CreateTicketType_def
      UpdateTicketType_def JSON_def NoContent_def
    by (intro sys_program.follows_rules admin_writes_follow reads)+
  moreover have "follows ?R {} (markUsed_handler (a_upper a) c)"
  proof -
    have "follows ?R {} (ticket_MarkUsed code)" for code
      by (rule sys_program.follows_step) (simp add: sys_step_def shop_step.admitted)
    then show ?thesis unfolding markUsed_handler_def MarkUsed_def Let_def JSON_def
      by (intro sys_program.follows_rules reads)
  qed
  moreover have "follows ?R {} (bind (resend (notificationService d s) i) (\<lambda>resp. JSON 200 (ResentBody resp)))" for d s i
    unfolding resend_def JSON_def
    by (intro sys_program.follows_rules follows_shop_sys [OF send_follows]
        sys_program.follows_still [OF deliveries.order_readonly deliveries.delivery_quiet(1)])
  moreover note calculation
  ultimately show ?thesis
    using assms
    by (auto simp: event_admin_routes_def order_admin_routes_def ticket_admin_routes_def notification_admin_routes_def
        GET_def POST_def PUT_def DELETE_def Let_def)
qed

lemma serve_follows: "follows (sys_step a) {} (serve a rq)"
proof (rule sys_program.follows_serve)
  fix r c
  assume "r \<in> set (routes a)"
  then show "follows (sys_step a) {} (rt_handler r c)"
  proof (cases rule: route_cases)
    case guest
    then show ?thesis by (rule follows_shop_sys [OF guest_handlers_follow])
  next
    case admin
    then show ?thesis by (intro admin_handlers_follow)
  next
    case health
    then show ?thesis by (simp add: sys_program.follows_still healthz_readonly quiet_reading_handlers)
  qed
qed

end
