(* ===== verification/System_Properties.thy ===== *)
theory System_Properties
  imports Programs
begin

text \<open>
  What holds of the running backend, whatever the interleaving of requests, notifications, sweeps
  and goroutines: the properties read off the invariants, each applied to a run of the sample
  installation.
\<close>

lemma quota_nonneg:
  assumes "schema_ok d" and "quota_of d t = Some n"
  shows "0 \<le> n"
proof -
  from assms(2) obtain r where "find (\<lambda>r. tt_id r = t) (ticket_types d) = Some r" "n = tt_quota r"
    by (auto simp: quota_of_def)
  with assms(1) show ?thesis by (auto simp: schema_defs dest!: find_SomeD)
qed

section \<open>Programs run alone\<close>

lemma serve_path:
  assumes "serve a rq (y_world s) = (resp, w)"
  shows "\<exists>s'. reaches a s s' \<and> y_world s' = w \<and> y_taken s' = y_taken s"
proof -
  from serve_follows assms obtain refs results where "reaches a s (recalling s w refs results)"
    by (rule followsE) auto
  then show ?thesis by (intro exI [of _ "recalling s w refs results"]) simp
qed

lemma sweep_path:
  assumes "sweepOnce (api_payments a) (y_world s) = (u, w)"
  shows "\<exists>s'. shop_reaches a s s' \<and> y_world s' = w \<and> y_taken s' = y_taken s"
proof -
  from sweep_follows assms obtain refs results where "shop_reaches a s (recalling s w refs results)"
    by (rule followsE) auto
  then show ?thesis by (intro exI [of _ "recalling s w refs results"]) simp
qed

text \<open>A day of the sample installation: a guest refreshes an order that the provider reports as settled, then its fulfilment.\<close>

definition sample_open :: world where
  "sample_open = sample_world\<lparr>wdb := sample_db\<lparr>orders := [sample_order\<lparr>ord_expires_at := Some 500\<rparr>,
     sample_order\<lparr>ord_id := 21, ord_number := ''ORD-B'', ord_total := 50, ord_status := OrderStatusPaid\<rparr>]\<rparr>\<rparr>"

definition sample_paid :: world where
  "sample_paid = snd (serve sample_api sample_refresh sample_open)"

definition sample_fulfilled :: world where
  "sample_fulfilled = snd (fulfill (api_payments sample_api) 20 sample_paid)"

lemma sample_open_facts:
  "schema_ok (wdb sample_open)" "fulfillment sample_open = []" "tickets_ok (wdb sample_open)"
proof -
  show "schema_ok (wdb sample_open)" by code_simp
  show "fulfillment sample_open = []" by (simp add: sample_open_def sample_world_def)
  show "tickets_ok (wdb sample_open)" unfolding tickets_ok_def by code_simp
qed

lemma sample_day:
  "fulfillment sample_paid = [20]" "order_status (wdb sample_paid) 20 = Some OrderStatusPaid"
  "map (\<lambda>t. (tk_order t, tk_attendee t)) (tickets (wdb sample_fulfilled)) = [(21, 42), (20, 40), (20, 41)]"
proof -
  have "case snd (serve sample_api sample_refresh sample_open) of w \<Rightarrow>
      fulfillment w = [20] \<and> order_status (wdb w) 20 = Some OrderStatusPaid \<and>
      map (\<lambda>t. (tk_order t, tk_attendee t)) (tickets (wdb (snd (fulfill (api_payments sample_api) 20 w)))) =
        [(21, 42), (20, 40), (20, 41)]"
    by code_simp
  then show "fulfillment sample_paid = [20]" "order_status (wdb sample_paid) 20 = Some OrderStatusPaid"
    "map (\<lambda>t. (tk_order t, tk_attendee t)) (tickets (wdb sample_fulfilled)) = [(21, 42), (20, 40), (20, 41)]"
    by (simp_all add: sample_paid_def sample_fulfilled_def)
qed

lemma sample_reachable:
  "\<exists>s. reaches sample_api (boot sample_open) s \<and> y_world s = sample_paid \<and> y_taken s = []"
  "\<exists>s. reaches sample_api (boot sample_open) s \<and> y_world s = sample_fulfilled"
proof -
  have "serve sample_api sample_refresh (y_world (boot sample_open)) =
      (fst (serve sample_api sample_refresh sample_open), sample_paid)"
    by (simp add: boot_def sample_paid_def)
  from serve_path [OF this] obtain s where s: "reaches sample_api (boot sample_open) s" "y_world s = sample_paid" "y_taken s = []"
    by (auto simp: boot_def)
  then show "\<exists>s. reaches sample_api (boot sample_open) s \<and> y_world s = sample_paid \<and> y_taken s = []" by blast
  have "fulfill (api_payments sample_api) 20 (y_world s) = (fst (fulfill (api_payments sample_api) 20 sample_paid), sample_fulfilled)"
    by (simp add: s(2) sample_fulfilled_def)
  from fulfill_path [OF this] obtain t where "shop_reaches sample_api s t" "y_world t = sample_fulfilled"
    using s sample_day(1) by auto
  with s(1) shop_path_sys show "\<exists>s. reaches sample_api (boot sample_open) s \<and> y_world s = sample_fulfilled"
    by (meson rtranclp_trans)
qed

section \<open>Properties\<close>

text \<open>
  C4: The step relation has every run of the backend's programs: a request served from the router to
  its reply, a tick of the sweeper, and a fulfilment goroutine that has been spawned and not yet
  started, run from any state, are paths of steps that end in the world the program leaves. What is
  proved of reachable states therefore holds after any of them, and between the transactions of
  several of them.
\<close>

theorem programs_are_paths:
  "(serve a rq (y_world s) = (resp, w) \<longrightarrow> (\<exists>s'. reaches a s s' \<and> y_world s' = w \<and> y_taken s' = y_taken s)) \<and>
   (sweepOnce (api_payments a) (y_world s) = (u, w) \<longrightarrow> (\<exists>s'. shop_reaches a s s' \<and> y_world s' = w \<and> y_taken s' = y_taken s)) \<and>
   (fulfill (api_payments a) i (y_world s) = (v, w) \<and>
      count_list (y_taken s) i < count_list (fulfillment (y_world s)) i \<longrightarrow>
      (\<exists>s'. shop_reaches a s s' \<and> y_world s' = w \<and> y_taken s' = y_taken s @ [i]))"
  using serve_path sweep_path fulfill_path by metis

theorem programs_are_paths_witness:
  "\<exists>s. reaches sample_api (boot sample_open) s \<and> order_status (y_db s) 20 = Some OrderStatusPaid"
proof -
  have "serve sample_api sample_refresh (y_world (boot sample_open)) =
      (fst (serve sample_api sample_refresh sample_open), sample_paid)"
    by (simp add: boot_def sample_paid_def)
  with programs_are_paths show ?thesis using sample_day(2) by metis
qed

subsection \<open>Seats\<close>

lemma shop_reaches_base:
  assumes "shop_reaches a s s'" and "base_ok s"
  shows "base_ok s' \<and> evolves (y_db s) (y_db s')"
  using assms
proof (induction rule: rtranclp_induct)
  case (step y z)
  with shop_step_base [OF step.hyps(2)] show ?case by (blast intro: evo.G_trans)
qed (simp add: evo.G_refl)

lemma reaches_base:
  assumes "reaches a s s'" and "base_ok s"
  shows "base_ok s' \<and> orders_evolve (y_db s) (y_db s')"
  using assms
proof (induction rule: rtranclp_induct)
  case (step y z)
  then have "base_ok y" "orders_evolve (y_db s) (y_db y)" by blast+
  moreover from step.hyps(2) this(1) have "base_ok z \<and> orders_evolve (y_db y) (y_db z)"
    using shop_step_base admin_step_base evolves_orders unfolding sys_step_def by blast
  ultimately show ?case by (blast intro: orders_evo.G_trans)
qed (simp add: orders_evo.G_refl)

lemma base_boot: "schema_ok (wdb w) \<Longrightarrow> base_ok (boot w)"
  by (simp add: base_ok_def boot_def)

lemma boot_world [simp]: "y_world (boot w) = w"
  by (simp add: boot_def)

text \<open>
  C9: Whatever happens, guests, provider, sweeper, goroutines and admins in any order, every reachable
  database is well formed: keys are unique (slugs, order numbers, ticket codes, emails among them),
  every reference has its row, no quota is negative or outgrows its column, and statuses are among
  those the code knows. The lines a checkout still holds in memory are those stored under its order.
\<close>

theorem database_well_formed:
  assumes "reaches a (boot w) s" and "schema_ok (wdb w)"
  shows "schema_ok (y_db s) \<and> (\<forall>c \<in> set (y_checkouts s). own_lines (y_db s) c)"
  using reaches_base [OF assms(1) base_boot [OF assms(2)]] by (simp add: base_ok_def)

theorem database_well_formed_witness:
  "\<exists>s. reaches sample_api (boot sample_open) s \<and> y_world s = sample_paid \<and> schema_ok (y_db s)"
proof -
  from sample_reachable(1) obtain s where s: "reaches sample_api (boot sample_open) s" "y_world s = sample_paid" by blast
  from database_well_formed [OF s(1) sample_open_facts(1)] s show ?thesis by blast
qed

text \<open>
  C1: No interleaving of checkouts, payments, refreshes, sweeps and fulfilments sells a seat twice
  or loses one. However many requests are between their transactions, the quota left plus the seats
  of pending and paid orders is, for every ticket type, the number that was put on sale, so the
  seats held never exceed it; and the schema's constraints hold in every reachable state.
\<close>

theorem seats_conserved:
  assumes "shop_reaches a (boot w) s" and "schema_ok (wdb w)"
  shows "schema_ok (y_db s) \<and> ledger (y_db s) = ledger (wdb w) \<and>
    (\<forall>t n. ledger (wdb w) t = Some n \<longrightarrow> held (y_db s) t \<le> n)"
proof -
  from shop_reaches_base [OF assms(1) base_boot [OF assms(2)]] assms(2)
  have "schema_ok (y_db s)" "ledger (y_db s) = ledger (wdb w)" by (simp_all add: base_ok_def evolves_def)
  moreover have "held (y_db s) t \<le> n" if "ledger (wdb w) t = Some n" for t n
  proof -
    from that calculation(2) have "ledger (y_db s) t = Some n" by simp
    then obtain q where "quota_of (y_db s) t = Some q" "n = q + held (y_db s) t" by (auto simp: ledger_def)
    with quota_nonneg [OF calculation(1)] show ?thesis by fastforce
  qed
  ultimately show ?thesis by blast
qed

definition sample_swept :: world where
  "sample_swept = snd (sweepOnce (api_payments sample_api) sample_world)"

lemma sample_sweep: "\<exists>s. shop_reaches sample_api (boot sample_world) s \<and> y_world s = sample_swept"
  using sweep_path [of sample_api "boot sample_world" "fst (sweepOnce (api_payments sample_api) sample_world)" sample_swept]
  by (auto simp: sample_swept_def)

theorem seats_conserved_witness:
  "\<exists>s. shop_reaches sample_api (boot sample_world) s \<and> ledger (y_db s) 2 = Some 13 \<and> held (y_db s) 2 = 1"
proof -
  from sample_sweep obtain s where s: "shop_reaches sample_api (boot sample_world) s" "y_world s = sample_swept" by blast
  have "ledger (wdb sample_world) 2 = Some 13" by code_simp
  with seats_conserved [OF s(1) sample_world_schema] have "ledger (y_db s) 2 = Some 13" by simp
  moreover have "held (wdb sample_swept) 2 = 1" by code_simp
  ultimately show ?thesis using s by auto
qed

subsection \<open>Orders\<close>

text \<open>
  C5: Orders are never lost, their lines never change, and an order that is paid, cancelled or
  expired stays so, whatever guests, the provider, the sweeper and the admins do at the same time.
\<close>

theorem final_statuses_last:
  assumes "reaches a (boot w) s" and "reaches a s s'" and "schema_ok (wdb w)"
    and "order_status (y_db s) i = Some st"
  shows "lines_of (y_db s') i = lines_of (y_db s) i \<and>
    (order_status (y_db s') i = Some st \<or> st = OrderStatusPending \<and> order_status (y_db s') i \<noteq> None)"
proof -
  from reaches_base [OF assms(1) base_boot [OF assms(3)]] have "base_ok s" by blast
  with reaches_base [OF assms(2)] have "orders_evolve (y_db s) (y_db s')" "schema_ok (y_db s)"
    by (auto simp: base_ok_def)
  with assms(4) show ?thesis by (fastforce simp: orders_evolve_def status_path_def)
qed

theorem final_statuses_last_witness:
  "\<exists>s s'. reaches sample_api (boot sample_open) s \<and> y_world s = sample_paid \<and> reaches sample_api s s' \<and>
     y_world s' = sample_fulfilled \<and> order_status (y_db s') 20 = Some OrderStatusPaid"
proof -
  from sample_reachable(1) obtain s where s: "reaches sample_api (boot sample_open) s" "y_world s = sample_paid" "y_taken s = []"
    by blast
  have "fulfill (api_payments sample_api) 20 (y_world s) = (fst (fulfill (api_payments sample_api) 20 sample_paid), sample_fulfilled)"
    by (simp add: s(2) sample_fulfilled_def)
  from fulfill_path [OF this] s(2,3) sample_day(1) obtain s' where s': "reaches sample_api s s'" "y_world s' = sample_fulfilled"
    using shop_path_sys by auto
  have "order_status (y_db s) 20 = Some OrderStatusPaid" using sample_day(2) s(2) by simp
  from final_statuses_last [OF s(1) s'(1) sample_open_facts(1) this] s s' show ?thesis by blast
qed

text \<open>
  C2: No order is paid unless the provider said so for it: whenever an order is paid that was not
  when the server started, there is a result whose status maps to paid, about the order's own number,
  which is a notification that carried the gateway's signature or the provider's answer to a status
  query for that number.
\<close>

theorem paid_only_on_provider_word:
  assumes "reaches a (boot w) s" and "schema_ok (wdb w)" and "fulfillment w = []" and "tickets_ok (wdb w)"
    and "order_status (y_db s) i = Some OrderStatusPaid" and "order_status (wdb w) i \<noteq> Some OrderStatusPaid"
  shows "\<exists>row result. row \<in> set (orders (y_db s)) \<and> ord_id row = i \<and>
    oc_OrderStatus (MapProviderStatus (env_lower (a_env a)) (wr_status result) (wr_fraud result)) = OrderStatusPaid \<and>
    ((\<exists>payload. signed (a_env a) (a_gateway a) payload result \<and> wr_number result = ord_number row) \<or>
     (\<exists>v v'. midtrans_FetchStatus (a_env a) (ord_number row) v = (Inr result, v')))"
proof -
  from reaches_sound [OF assms(1) sound_boot [OF assms(2-4)]] have "evidence_ok a (wdb w) s"
    by (simp add: sound_def)
  with assms(5,6) obtain n result where "(i, n) \<in> numbered (y_db s)" and result: "(n, result) \<in> set (y_results s)"
    and "oc_OrderStatus (MapProviderStatus (env_lower (a_env a)) (wr_status result) (wr_fraud result)) = OrderStatusPaid"
    and auth: "\<forall>x \<in> set (y_results s). authentic a (fst x) (snd x)"
    by (auto simp: evidence_ok_def paid_by_def)
  moreover from auth result have "authentic a n result" by force
  ultimately show ?thesis by (fastforce simp: numbered_def authentic_def dest: VerifyWebhook_signed)
qed

theorem paid_only_on_provider_word_witness:
  "\<exists>row (result :: WebhookResult). row \<in> set (orders (wdb sample_paid)) \<and> ord_id row = 20 \<and>
     oc_OrderStatus (MapProviderStatus (env_lower (a_env sample_api)) (wr_status result) (wr_fraud result)) = OrderStatusPaid"
proof -
  from sample_reachable(1) obtain s where s: "reaches sample_api (boot sample_open) s" "y_world s = sample_paid" by blast
  have paid: "order_status (y_db s) 20 = Some OrderStatusPaid" using sample_day(2) s(2) by simp
  have unpaid: "order_status (wdb sample_open) 20 \<noteq> Some OrderStatusPaid" by code_simp
  from paid_only_on_provider_word [OF s(1) sample_open_facts paid unpaid] show ?thesis
    unfolding s(2) by (elim exE conjE) (intro exI conjI)
qed

subsection \<open>Fulfilment and tickets\<close>

text \<open>
  C6: Post-payment work is started for paid orders only and at most once for each, however many
  notifications, refreshes and retries of the provider report the same payment.
\<close>

theorem fulfilled_once:
  assumes "reaches a (boot w) s" and "schema_ok (wdb w)" and "fulfillment w = []" and "tickets_ok (wdb w)"
  shows "distinct (fulfillment (y_world s)) \<and>
    (\<forall>i \<in> set (fulfillment (y_world s)). order_status (y_db s) i = Some OrderStatusPaid)"
  using reaches_sound [OF assms(1) sound_boot [OF assms(2-4)]] by (simp add: sound_def fulfillment_ok_def)

theorem fulfilled_once_witness:
  "\<exists>s. reaches sample_api (boot sample_open) s \<and> y_world s = sample_paid \<and> fulfillment sample_paid = [20] \<and>
     distinct (fulfillment (y_world s)) \<and> order_status (y_db s) 20 = Some OrderStatusPaid"
proof -
  from sample_reachable(1) obtain s where s: "reaches sample_api (boot sample_open) s" "y_world s = sample_paid" by blast
  from fulfilled_once [OF s(1) sample_open_facts] s sample_day(1) show ?thesis by auto
qed

text \<open>
  C3: In every reachable state each attendee has at most one ticket, and every ticket belongs to a
  paid order and to an attendee of that order, although goroutines, retries and requests may be
  anywhere between reading the attendees and inserting the tickets.
\<close>

theorem one_ticket_per_attendee:
  assumes "reaches a (boot w) s" and "schema_ok (wdb w)" and "fulfillment w = []" and "tickets_ok (wdb w)"
  shows "distinct (map tk_attendee (tickets (y_db s))) \<and>
    (\<forall>t \<in> set (tickets (y_db s)). order_status (y_db s) (tk_order t) = Some OrderStatusPaid \<and>
       tk_attendee t \<in> set (attendee_ids (y_db s) (tk_order t)))"
  using reaches_sound [OF assms(1) sound_boot [OF assms(2-4)]] by (simp add: sound_def tickets_ok_def)

theorem one_ticket_per_attendee_witness:
  "\<exists>s. reaches sample_api (boot sample_open) s \<and> y_world s = sample_fulfilled \<and>
     map tk_attendee (tickets (y_db s)) = [42, 40, 41] \<and> distinct (map tk_attendee (tickets (y_db s)))"
proof -
  from sample_reachable(2) obtain s where s: "reaches sample_api (boot sample_open) s" "y_world s = sample_fulfilled" by blast
  have "map tk_attendee (tickets (wdb sample_fulfilled)) = map snd (map (\<lambda>t. (tk_order t, tk_attendee t)) (tickets (wdb sample_fulfilled)))"
    by (simp add: comp_def)
  also have "\<dots> = [42, 40, 41]" by (simp add: sample_day(3))
  finally show ?thesis using one_ticket_per_attendee [OF s(1) sample_open_facts] s by auto
qed

subsection \<open>Prices\<close>

definition totals_ok :: "database \<Rightarrow> bool" where
  "totals_ok d \<longleftrightarrow> (\<forall>r \<in> set (orders d). ord_total r = order_value d (ord_id r))"

lemma totals_ok_book:
  assumes "book d' = book d" and "totals_ok d"
  shows "totals_ok d'"
proof -
  have "totals_ok c \<longleftrightarrow> (\<forall>(i, n, t) \<in> set (map order_key (orders c)).
      t = (\<Sum>r \<leftarrow> filter (\<lambda>r. it_order r = i) (order_items c). it_price r * of_int (it_qty r)))" for c
    by (auto simp: totals_ok_def order_key_def order_value_def order_rows_def)
  with assms show ?thesis by (simp only: book_def prod.inject)
qed

lemma totals_ok_placed:
  assumes ok: "schema_ok d" and placed: "order_placed req row d d'" and old: "totals_ok d"
  shows "totals_ok d'"
proof -
  from placed obtain its where items: "order_items d' = order_items d @ its" and os: "orders d' = orders d @ [row]"
    and its: "map (\<lambda>r. (it_order r, it_type r, it_qty r, it_price r)) its =
          map (\<lambda>i. (ord_id row, ci_type i, sint (ci_quantity i), price_in d (ci_type i))) (cr_items req)"
    and total: "ord_total row = total_price d (cr_items req)" and new: "ord_id row \<notin> ord_id ` set (orders d)"
    unfolding order_placed_def by auto
  have own: "it_order r = ord_id row" if "r \<in> set its" for r
    using arg_cong [OF its, of "\<lambda>xs. fst ` set xs"] that by (auto simp: image_image split: if_splits)
  have "it_order r \<noteq> ord_id row" if "r \<in> set (order_items d)" for r
    using schema_refers(1) [OF ok that] new by auto
  then have "order_rows d' (ord_id row) = its"
    using own by (simp add: order_rows_def items filter_True filter_False cong: filter_cong)
  moreover have "map (\<lambda>r. it_price r * of_int (it_qty r)) its =
      map (\<lambda>i. price_in d (ci_type i) * of_int (sint (ci_quantity i))) (cr_items req)"
    using arg_cong [OF its, of "map (\<lambda>(_, _, q, p). p * of_int q)"] by (simp add: comp_def)
  ultimately have "order_value d' (ord_id row) = ord_total row"
    by (simp add: order_value_def total total_price_def)
  moreover have "order_value d' (ord_id r) = order_value d (ord_id r)" if "r \<in> set (orders d)" for r
  proof -
    have "ord_id r \<noteq> ord_id row" using that new by (metis image_eqI)
    then have "order_rows d' (ord_id r) = order_rows d (ord_id r)"
      using own by (simp add: order_rows_def items filter_False)
    then show ?thesis by (simp add: order_value_def)
  qed
  ultimately show ?thesis using old by (simp add: totals_ok_def os)
qed

lemma step_totals:
  assumes step: "sys_step a s s'" and base: "base_ok s" and totals: "totals_ok (y_db s)"
  shows "totals_ok (y_db s')"
proof (cases "shop_step a s s'")
  case True
  then show ?thesis
    using base
  proof (cases rule: shop_step_effect)
    case (placed req row)
    from base have "schema_ok (y_db s)" by (simp add: base_ok_def)
    from totals_ok_placed [OF this placed(1) totals] show ?thesis .
  next
    case (issuing xs i ids ys)
    then have "book (y_db s') = book (y_db s)" using issued_frame(1) by auto
    from totals_ok_book [OF this totals] show ?thesis .
  qed (use totals in \<open>auto intro!: totals_ok_book [OF _ totals] simp: quiet_step_def dest: moved_records\<close>)
next
  case False
  with step admin_step_quiet show ?thesis
    by (auto simp: sys_step_def quiet_step_def intro: totals_ok_book [OF _ totals])
qed

text \<open>
  C7: What an order costs is what its lines cost: its total is the sum over its stored lines of
  price times quantity, at the prices read when it was placed; no later change of a ticket type and no
  step of anyone makes the two differ.
\<close>

theorem totals_match_lines:
  assumes "reaches a (boot w) s" and "schema_ok (wdb w)" and "totals_ok (wdb w)"
  shows "\<forall>r \<in> set (orders (y_db s)). ord_total r = order_value (y_db s) (ord_id r)"
proof -
  have "base_ok s \<and> totals_ok (y_db s)"
    using assms(1)
  proof (induction rule: rtranclp_induct)
    case base
    then show ?case using assms(2,3) by (simp add: base_boot)
  next
    case (step y z)
    then have "base_ok y" "totals_ok (y_db y)" by blast+
    moreover have "reaches a y z" using step.hyps(2) by blast
    ultimately show ?case using step_totals [OF step.hyps(2)] reaches_base by blast
  qed
  then show ?thesis by (simp add: totals_ok_def)
qed

theorem totals_match_lines_witness:
  "\<exists>s. shop_reaches sample_api (boot sample_world) s \<and> y_world s = sample_swept \<and>
     (\<forall>r \<in> set (orders (y_db s)). ord_total r = order_value (y_db s) (ord_id r)) \<and> order_value (wdb sample_world) 20 = 100"
proof -
  from sample_sweep obtain s where s: "shop_reaches sample_api (boot sample_world) s" "y_world s = sample_swept" by blast
  have "totals_ok (wdb sample_world)" unfolding totals_ok_def by code_simp
  moreover have "order_value (wdb sample_world) 20 = 100" by code_simp
  ultimately show ?thesis
    using totals_match_lines [OF shop_path_sys [OF s(1)] sample_world_schema] s by blast
qed

end
