(* ===== verification/Liveness.thy ===== *)
theory Liveness
  imports System_Properties
begin

text \<open>
  Progress. While statements do not fail and the clock does not run backwards, what the code sets out
  to do gets done: \<open>succeeds m w Q\<close> says that the program \<open>m\<close> run in \<open>w\<close> returns without an error, with a
  value and a database that satisfy \<open>Q\<close>. One rule per construct carries this from the statements
  to a tick of the sweeper.
\<close>

section \<open>Success\<close>

definition healthy :: "world \<Rightarrow> bool" where
  "healthy w \<longleftrightarrow> (\<forall>n. \<not> faults w n) \<and> mono (clock w)"

definition ages :: "world \<Rightarrow> world \<Rightarrow> bool" where
  "ages w w' \<longleftrightarrow> faults w' = faults w \<and> clock w' = clock w \<and> tick w \<le> tick w'"

definition succeeds :: "'a go \<Rightarrow> world \<Rightarrow> ('a \<Rightarrow> database \<Rightarrow> bool) \<Rightarrow> bool" where
  "succeeds m w Q \<longleftrightarrow> (\<exists>x w'. m w = (Inr x, w') \<and> ages w w' \<and> Q x (wdb w'))"

lemma ages_refl [simp]: "ages w w"
  by (simp add: ages_def)

lemma ages_trans: "ages u v \<Longrightarrow> ages v w \<Longrightarrow> ages u w"
  by (simp add: ages_def)

lemma healthy_ages: "healthy w \<Longrightarrow> ages w w' \<Longrightarrow> healthy w'"
  by (simp add: healthy_def ages_def)

lemma ages_step: "ages w (step_tick w)"
  by (simp add: ages_def step_tick_def)

text \<open>A run that succeeds has what any successful run guarantees.\<close>

lemma succeeds_with:
  "succeeds m w Q \<Longrightarrow> (\<And>x w'. m w = (Inr x, w') \<Longrightarrow> R x (wdb w')) \<Longrightarrow> succeeds m w R"
  by (auto simp: succeeds_def)

lemma succeeds_ret: "Q x (wdb w) \<Longrightarrow> succeeds (ret x) w Q"
  by (simp add: succeeds_def)

lemma succeeds_handle:
  "succeeds m w R \<Longrightarrow> (\<And>x w'. ages w w' \<Longrightarrow> R x (wdb w') \<Longrightarrow> succeeds (k x) w' Q) \<Longrightarrow> succeeds (handle m h k) w Q"
  unfolding succeeds_def handle_def by (clarsimp split: prod.splits sum.splits) (meson ages_trans)

lemma succeeds_bind:
  "succeeds m w R \<Longrightarrow> (\<And>x w'. ages w w' \<Longrightarrow> R x (wdb w') \<Longrightarrow> succeeds (k x) w' Q) \<Longrightarrow> succeeds (bind m k) w Q"
  unfolding bind_def by (rule succeeds_handle)

lemma succeeds_wrapping: "succeeds m w Q \<Longrightarrow> succeeds (wrapping what m) w Q"
  unfolding wrapping_def by (rule succeeds_handle [where R = Q]) (auto intro: succeeds_ret)

lemma succeeds_row_or: "succeeds m w Q \<Longrightarrow> succeeds (row_or sentinel what m) w Q"
  unfolding row_or_def by (rule succeeds_handle [where R = Q]) (auto intro: succeeds_ret)

lemma succeeds_log: "Q () (wdb w) \<Longrightarrow> succeeds (log l s) w Q"
  by (simp add: succeeds_def ages_def)

lemma succeeds_now: "Q (clock w (tick w)) (wdb w) \<Longrightarrow> succeeds now w Q"
  by (simp add: succeeds_def now_def ages_step)

lemma succeeds_stmt:
  assumes "healthy w" and "\<And>i t. \<exists>x d. f i t (wdb w) = Inr (x, d) \<and> Q x d"
  shows "succeeds (stmt f) w Q"
proof -
  from assms(2) obtain x d where "f (newid w (tick w)) (clock w (tick w)) (wdb w) = Inr (x, d)" "Q x d" by blast
  then show ?thesis using assms(1) by (simp add: succeeds_def stmt_def healthy_def ages_def step_tick_def)
qed

lemma succeeds_query: "healthy w \<Longrightarrow> Q (q (wdb w)) (wdb w) \<Longrightarrow> succeeds (query q) w Q"
  unfolding query_def by (intro succeeds_stmt) simp_all

text \<open>A query without a total order must do with every order of the rows.\<close>

lemma succeeds_query_rows:
  "healthy w \<Longrightarrow> (\<And>s. Q (q s (wdb w)) (wdb w)) \<Longrightarrow> succeeds (query_rows q) w Q"
  using succeeds_query [of w Q] by (auto simp: succeeds_def query_rows_def)

lemma succeeds_InTx:
  assumes "healthy w" and "\<And>w'. ages w w' \<Longrightarrow> wdb w' = wdb w \<Longrightarrow> succeeds fn w' Q"
  shows "succeeds (InTx fn) w Q"
proof -
  from assms(2) [OF ages_step] obtain x w' where "fn (step_tick w) = (Inr x, w')" "ages (step_tick w) w'" "Q x (wdb w')"
    by (auto simp: succeeds_def)
  then show ?thesis
    using assms(1) by (auto simp: succeeds_def InTx_def begin_tx_def commit_tx_def healthy_def ages_def step_tick_def)
qed

section \<open>Giving seats back cannot overflow\<close>

text \<open>
  Each counter could take back all the seats that orders hold: with the ledger below \<open>2 ^ 31\<close> the
  column does not overflow.
\<close>

definition room :: "database \<Rightarrow> bool" where
  "room d \<longleftrightarrow> schema_ok d \<and> (\<forall>t n. ledger d t = Some n \<longrightarrow> n < 2 ^ 31) \<and> (\<forall>r \<in> set (order_items d). 0 \<le> it_qty r)"

lemma restore_succeeds:
  assumes "healthy w" and ok: "schema_ok (wdb w)" and n: "quota_of (wdb w) t = Some n" "0 \<le> sint q" "n + sint q < 2 ^ 31"
  shows "succeeds (RestoreQuota t q) w (\<lambda>_ d. schema_ok d \<and> quota_moved t (sint q) (wdb w) d)"
proof -
  from n obtain r where r: "find (\<lambda>r. tt_id r = t) (ticket_types (wdb w)) = Some r" "tt_quota r = n"
    by (auto simp: quota_of_def)
  have "0 \<le> n" by (rule quota_nonneg [OF ok n(1)])
  with n have range: "int4_range (n + sint q)" "\<not> n + sint q < 0" by (simp_all add: int4_range_def)
  have "succeeds (stmt (sql_RestoreQuota (sint q) t)) w (\<lambda>_ d. schema_ok d \<and> quota_moved t (sint q) (wdb w) d)"
  proof (rule succeeds_stmt [OF assms(1)])
    fix i tm
    obtain x d where "sql_RestoreQuota (sint q) t i tm (wdb w) = Inr (x, d)"
      using r range by (auto simp: sql_RestoreQuota_def)
    then show "\<exists>x d. sql_RestoreQuota (sint q) t i tm (wdb w) = Inr (x, d) \<and> schema_ok d \<and> quota_moved t (sint q) (wdb w) d"
      using schema_RestoreQuota [OF _ ok] RestoreQuota_moved [OF _ ok] by blast
  qed
  then show ?thesis
    unfolding RestoreQuota_def event_RestoreQuota_def
    by (intro succeeds_bind [OF succeeds_row_or] succeeds_ret)
qed

lemma line_seats_Cons: "line_seats ((i, q) # ls) t = (if i = t then q else 0) + line_seats ls t"
  by (simp add: line_seats_def sum_where_Cons)

lemma line_seats_nonneg: "(\<And>l. l \<in> set ls \<Longrightarrow> 0 \<le> snd l) \<Longrightarrow> 0 \<le> line_seats ls t"
  unfolding line_seats_def by (rule sum_where_nonneg) auto

lemma restore_loop_succeeds:
  assumes "healthy w" and "schema_ok (wdb w)"
    and "\<And>x. x \<in> set xs \<Longrightarrow> 0 \<le> sint (qty x) \<and> quota_of (wdb w) (ty x) \<noteq> None"
    and "\<And>t n. quota_of (wdb w) t = Some n \<Longrightarrow> n + line_seats (map (\<lambda>x. (ty x, sint (qty x))) xs) t < 2 ^ 31"
  shows "succeeds (for_each xs (\<lambda>x. RestoreQuota (ty x) (qty x))) w (\<lambda>_ _. True)"
  using assms
proof (induction xs arbitrary: w)
  case Nil
  show ?case by (simp add: succeeds_def)
next
  case (Cons x xs)
  let ?ls = "map (\<lambda>x. (ty x, sint (qty x))) xs"
  from Cons.prems(3) obtain n where n: "quota_of (wdb w) (ty x) = Some n" and q: "0 \<le> sint (qty x)" by auto
  have rest: "0 \<le> line_seats ?ls t" for t using Cons.prems(3) by (intro line_seats_nonneg) auto
  have "n + sint (qty x) < 2 ^ 31" using Cons.prems(4) [OF n] rest [of "ty x"] by (simp add: line_seats_Cons)
  note first = restore_succeeds [OF Cons.prems(1,2) n q this]
  show ?case
    unfolding for_each.simps
  proof (rule succeeds_bind [OF first])
    fix u w1
    assume w1: "ages w w1" "schema_ok (wdb w1) \<and> quota_moved (ty x) (sint (qty x)) (wdb w) (wdb w1)"
    then have quota: "quota_of (wdb w1) = (quota_of (wdb w))(ty x \<mapsto> n + sint (qty x))"
      using n by (auto simp: quota_moved_def)
    show "succeeds (for_each xs (\<lambda>x. RestoreQuota (ty x) (qty x))) w1 (\<lambda>_ _. True)"
    proof (rule Cons.IH)
      show "healthy w1" by (rule healthy_ages [OF Cons.prems(1) w1(1)])
      show "schema_ok (wdb w1)" using w1(2) by blast
      show "0 \<le> sint (qty y) \<and> quota_of (wdb w1) (ty y) \<noteq> None" if "y \<in> set xs" for y
        using Cons.prems(3) [of y] that by (auto simp: quota)
      show "m + line_seats ?ls t < 2 ^ 31" if "quota_of (wdb w1) t = Some m" for t m
        using that Cons.prems(4) [of t] n by (auto simp: quota line_seats_Cons split: if_splits)
    qed
  qed
qed

section \<open>An overdue order expires\<close>

lemma pending_fits:
  assumes "room d" and "order_status d i = Some OrderStatusPending" and n: "quota_of d t = Some n"
  shows "n + line_seats (lines_of d i) t < 2 ^ 31"
proof -
  have "held d t = sum_where (\<lambda>r. (it_type r = t \<and> holds_seats d (it_order r)) \<and> it_order r = i) it_qty (order_items d)
      + sum_where (\<lambda>r. (it_type r = t \<and> holds_seats d (it_order r)) \<and> it_order r \<noteq> i) it_qty (order_items d)"
    unfolding held_def by (rule sum_where_split)
  moreover have "sum_where (\<lambda>r. (it_type r = t \<and> holds_seats d (it_order r)) \<and> it_order r = i) it_qty (order_items d)
      = seats_of_order d i t"
    unfolding seats_of_order_def using assms(2) by (intro sum_where_cong) (auto simp: holds_seats_def)
  moreover have "0 \<le> sum_where (\<lambda>r. (it_type r = t \<and> holds_seats d (it_order r)) \<and> it_order r \<noteq> i) it_qty (order_items d)"
    using assms(1) by (intro sum_where_nonneg) (auto simp: room_def)
  moreover have "n + held d t < 2 ^ 31" using assms(1) n by (auto simp: room_def ledger_def)
  ultimately show ?thesis by (simp add: seats_of_order_lines)
qed

lemma room_released:
  assumes "room d" and "order_released i OrderStatusExpired d d'" and "schema_ok d'"
  shows "room d'"
  using assms order_released_ledger [OF assms(2)] order_released_items [OF assms(2)] by (simp add: room_def)

lemma line_items_succeed:
  assumes "healthy w" and "schema_ok (wdb w)"
  shows "succeeds (op_LineItems paymentOrderAdapter i) w (\<lambda>items d. d = wdb w \<and>
    mset (map (\<lambda>x. (li_type x, sint (li_quantity x))) items) = mset (lines_of (wdb w) i))"
proof -
  have qty: "sint (word_of_int (it_qty r) :: int32) = it_qty r" if "r \<in> set (order_items (wdb w))" for r
    using that assms(2) by (intro sint_of_int32) (simp add: schema_defs)
  let ?items = "\<lambda>s. map toOrderItemRecord (sql_ListOrderItemsByOrderID i s (wdb w))"
  let ?lines = "\<lambda>items. map (\<lambda>item. \<lparr>li_type = oi_type item, li_quantity = oi_quantity item\<rparr>) items"
  have "map (\<lambda>x. (li_type x, sint (li_quantity x))) (?lines (?items s)) =
      map (\<lambda>r. (it_type r, it_qty r)) (filter (\<lambda>r. it_order r = i) (scanned s it_id (order_items (wdb w))))" for s
    by (simp add: sql_ListOrderItemsByOrderID_def toOrderItemRecord_def qty)
  then have lines: "mset (map (\<lambda>x. (li_type x, sint (li_quantity x))) (?lines (?items s))) = mset (lines_of (wdb w) i)" for s
    by (simp add: lines_of_def del: map_map)
  have "succeeds (order_ListOrderItemsByOrderID i) w (\<lambda>items d. d = wdb w \<and> (\<exists>s. items = ?items s))"
    unfolding order_ListOrderItemsByOrderID_def
    by (intro succeeds_bind [OF succeeds_wrapping [OF succeeds_query_rows
          [where Q = "\<lambda>rows d. d = wdb w \<and> (\<exists>s. rows = sql_ListOrderItemsByOrderID i s (wdb w))"]]] succeeds_ret assms(1))
       auto
  then show ?thesis
    unfolding paymentOrderAdapter_def OrderProvider.simps
    by (rule succeeds_bind) (use lines in \<open>auto intro!: succeeds_ret simp: multiset.map_comp comp_def\<close>)
qed

lemma update_succeeds:
  assumes "healthy w" and "schema_ok (wdb w)" and "order_status (wdb w) i = Some OrderStatusPending"
  shows "succeeds (order_UpdateOrderStatusIfPending i OrderStatusExpired) w
    (\<lambda>b d. schema_ok d \<and> b \<and> status_moved i OrderStatusExpired (wdb w) d)"
proof -
  have "succeeds (stmt (sql_UpdateOrderStatusIfPending i OrderStatusExpired)) w (\<lambda>_ _. True)"
    using assms(1) by (intro succeeds_stmt)
      (simp_all add: sql_UpdateOrderStatusIfPending_def Let_def order_statuses_def)
  then have "succeeds (order_UpdateOrderStatusIfPending i OrderStatusExpired) w (\<lambda>_ _. True)"
    unfolding order_UpdateOrderStatusIfPending_def
    by (intro succeeds_bind [OF succeeds_wrapping] succeeds_ret) auto
  then show ?thesis
  proof (rule succeeds_with)
    fix b w'
    assume "order_UpdateOrderStatusIfPending i OrderStatusExpired w = (Inr b, w')"
    from UpdateStatus_Inr [OF this assms(2)] assms(3)
    show "schema_ok (wdb w') \<and> b \<and> status_moved i OrderStatusExpired (wdb w) (wdb w')" by simp
  qed
qed

lemma apply_expired_succeeds:
  assumes "healthy w" and room: "room (wdb w)" and pending: "order_status (wdb w) (rf_id ref) = Some OrderStatusPending"
  shows "succeeds (applyOutcome (api_payments a) ref expiredOutcome) w
    (\<lambda>b d. b \<and> schema_ok d \<and> order_released (rf_id ref) OrderStatusExpired (wdb w) d)"
proof -
  let ?s = "api_payments a" and ?i = "rf_id ref"
  have ok: "schema_ok (wdb w)" using room by (simp add: room_def)
  have "succeeds (applyOutcome ?s ref expiredOutcome) w (\<lambda>_ _. True)"
    unfolding applyOutcome_def
  proof (rule succeeds_InTx [OF assms(1)])
    fix w1
    assume w1: "ages w w1" "wdb w1 = wdb w"
    then have healthy1: "healthy w1" using assms(1) healthy_ages by blast
    have update: "succeeds (op_UpdateStatusIfPending (s_orders ?s) ?i (oc_OrderStatus expiredOutcome)) w1
        (\<lambda>b d. schema_ok d \<and> b \<and> status_moved ?i OrderStatusExpired (wdb w) d)"
      using update_succeeds [OF healthy1] ok pending w1(2) by (simp add: expiredOutcome_def)
    show "succeeds (applyOutcome_tx ?s ref expiredOutcome) w1 (\<lambda>_ _. True)"
      unfolding applyOutcome_tx_def
    proof (rule succeeds_bind [OF update])
      fix b w2
      assume w2: "ages w1 w2" "schema_ok (wdb w2) \<and> b \<and> status_moved ?i OrderStatusExpired (wdb w) (wdb w2)"
      then have healthy2: "healthy w2" using healthy1 healthy_ages by blast
      from w2(2) obtain os where "wdb w2 = wdb w\<lparr>orders := os\<rparr>" unfolding status_moved_def by blast
      then have lines: "lines_of (wdb w2) ?i = lines_of (wdb w) ?i" and quota: "quota_of (wdb w2) = quota_of (wdb w)"
        and items: "order_items (wdb w2) = order_items (wdb w)" and types: "ticket_types (wdb w2) = ticket_types (wdb w)"
        by (simp_all add: lines_of_def quota_of_def fun_eq_iff)
      have restored: "succeeds (for_each xs (\<lambda>x. s_quota ?s (li_type x) (li_quantity x))) w3 (\<lambda>_ _. True)"
        if w3: "ages w2 w3" "wdb w3 = wdb w2" and xs: "mset (map (\<lambda>x. (li_type x, sint (li_quantity x))) xs) = mset (lines_of (wdb w2) ?i)" for xs w3
        unfolding api_payments_fields
      proof (rule restore_loop_succeeds)
        show "healthy w3" using healthy2 w3(1) healthy_ages by blast
        show "schema_ok (wdb w3)" using w2(2) w3(2) by simp
        show "n + line_seats (map (\<lambda>x. (li_type x, sint (li_quantity x))) xs) t < 2 ^ 31" if "quota_of (wdb w3) t = Some n" for t n
          using pending_fits [OF room pending, of t n] that by (simp add: line_seats_mset [OF xs] lines w3(2) quota)
        fix x
        assume "x \<in> set xs"
        then have "(li_type x, sint (li_quantity x)) \<in> set (lines_of (wdb w) ?i)" using mset_eq_setD [OF xs] by (force simp: lines)
        then obtain r where r: "r \<in> set (order_items (wdb w))" "li_type x = it_type r" "sint (li_quantity x) = it_qty r"
          by (auto simp: lines_of_def)
        moreover from this(1) have "it_type r \<in> tt_id ` set (ticket_types (wdb w))" using ok by (auto simp: schema_defs)
        ultimately show "0 \<le> sint (li_quantity x) \<and> quota_of (wdb w3) (li_type x) \<noteq> None"
          using room by (auto simp: w3(2) quota quota_of_row [OF ok] room_def)
      qed
      show "succeeds (if \<not> b \<or> \<not> oc_RestoreQuota expiredOutcome then ret b
          else bind (op_LineItems (s_orders ?s) ?i) (\<lambda>items.
            bind (for_each items (\<lambda>item. s_quota ?s (li_type item) (li_quantity item))) (\<lambda>_. ret b))) w2 (\<lambda>_ _. True)"
        using w2(2) restored line_items_succeed [OF healthy2, of ?i]
        by (auto simp: expiredOutcome_def intro!: succeeds_ret intro: succeeds_bind)
    qed
  qed
  then show ?thesis
  proof (rule succeeds_with)
    fix b w'
    assume "applyOutcome ?s ref expiredOutcome w = (Inr b, w')"
    from shop.applyOutcome_Inr [OF this ok] pending
    show "b \<and> schema_ok (wdb w') \<and> order_released ?i OrderStatusExpired (wdb w) (wdb w')"
      by (simp add: expiredOutcome_def)
  qed
qed

lemma expireIfDue_succeeds:
  assumes "healthy w" and "room (wdb w)" and pending: "order_status (wdb w) (rf_id ref) = Some OrderStatusPending"
    and ref: "rf_status ref = OrderStatusPending" "rf_expires_at ref = Some e" "e \<le> clock w (tick w)"
  shows "succeeds (expireIfDue (api_payments a) ref) w
    (\<lambda>b d. b \<and> schema_ok d \<and> order_released (rf_id ref) OrderStatusExpired (wdb w) d)"
proof -
  let ?Q = "\<lambda>b d. b \<and> schema_ok d \<and> order_released (rf_id ref) OrderStatusExpired (wdb w) d"
  have after: "succeeds (bind (applyOutcome (api_payments a) ref expiredOutcome) (\<lambda>applied.
      if applied then bind (log LevelInfo msg) (\<lambda>_. ret applied) else ret applied)) w1 ?Q"
    if "ages w w1" "wdb w1 = wdb w" for w1 msg
  proof (rule succeeds_bind [where R = ?Q])
    show "succeeds (applyOutcome (api_payments a) ref expiredOutcome) w1 ?Q"
      using apply_expired_succeeds [of w1 ref a] assms(1,2) pending that healthy_ages by auto
    show "succeeds (if applied then bind (log LevelInfo msg) (\<lambda>_. ret applied) else ret applied) w2 ?Q"
      if "?Q applied (wdb w2)" for applied w2
      using that by (auto intro!: succeeds_bind [where R = "\<lambda>_ d. ?Q applied d"] succeeds_log succeeds_ret)
  qed
  show ?thesis
    unfolding expireIfDue_def
    using ref by (auto intro!: succeeds_bind [where R = "\<lambda>t d. t = clock w (tick w) \<and> d = wdb w"] succeeds_now after)
qed

section \<open>A sweep\<close>

definition expired_all :: "uuid list \<Rightarrow> database \<Rightarrow> database \<Rightarrow> bool" where
  "expired_all ids d d' \<longleftrightarrow> room d' \<and> ledger d' = ledger d \<and>
     order_status d' = (\<lambda>i. if i \<in> set ids then Some OrderStatusExpired else order_status d i)"

lemma expired_step:
  assumes "room d" and "schema_ok d1" and rel: "order_released i OrderStatusExpired d d1" and all: "expired_all ids d1 d'"
  shows "expired_all (i # ids) d d'"
  using assms room_released [OF assms(1) rel assms(2)] order_released_ledger [OF rel]
  by (auto simp: expired_all_def order_released_def fun_eq_iff)

abbreviation sweep_turn :: "api \<Rightarrow> int \<Rightarrow> OrderRef \<Rightarrow> int go" where
  "sweep_turn a expired ord \<equiv>
     handle (expireIfDue (api_payments a) ord)
       (\<lambda>err. bind (log LevelError ''could not expire an order past its deadline'') (\<lambda>_. ret expired))
       (\<lambda>applied. ret (if applied then expired + 1 else expired))"

lemma sweep_loop_succeeds:
  assumes "healthy w" and "room (wdb w)" and "distinct (map rf_id refs)"
    and "\<And>ref. ref \<in> set refs \<Longrightarrow> order_status (wdb w) (rf_id ref) = Some OrderStatusPending \<and>
      rf_status ref = OrderStatusPending \<and> (\<exists>e. rf_expires_at ref = Some e \<and> e \<le> clock w (tick w))"
  shows "succeeds (fold_each refs (sweep_turn a) n) w
    (\<lambda>_ d. expired_all (map rf_id refs) (wdb w) d)"
  using assms
proof (induction refs arbitrary: w n)
  case Nil
  then show ?case by (simp add: succeeds_def expired_all_def)
next
  case (Cons ref refs)
  from Cons.prems(4) obtain e where ref: "order_status (wdb w) (rf_id ref) = Some OrderStatusPending"
      "rf_status ref = OrderStatusPending" "rf_expires_at ref = Some e" "e \<le> clock w (tick w)" by auto
  note first = expireIfDue_succeeds [OF Cons.prems(1,2) ref]
  show ?case
    unfolding fold_each.simps
  proof (rule succeeds_bind [where R = "\<lambda>_ d. schema_ok d \<and> order_released (rf_id ref) OrderStatusExpired (wdb w) d"])
    show "succeeds (sweep_turn a n ref) w (\<lambda>_ d. schema_ok d \<and> order_released (rf_id ref) OrderStatusExpired (wdb w) d)"
      by (rule succeeds_handle [OF first]) (auto intro: succeeds_ret)
  next
    fix m w1
    assume w1: "ages w w1" "schema_ok (wdb w1) \<and> order_released (rf_id ref) OrderStatusExpired (wdb w) (wdb w1)"
    have st: "order_status (wdb w1) = (order_status (wdb w))(rf_id ref \<mapsto> OrderStatusExpired)"
      using w1(2) by (simp add: order_released_def)
    have later: "clock w (tick w) \<le> clock w1 (tick w1)"
      using w1(1) Cons.prems(1) by (simp add: ages_def healthy_def monoD)
    have "succeeds (fold_each refs (sweep_turn a) m) w1 (\<lambda>_ d. expired_all (map rf_id refs) (wdb w1) d)"
    proof (rule Cons.IH)
      show "healthy w1" by (rule healthy_ages [OF Cons.prems(1) w1(1)])
      show "room (wdb w1)" using room_released [OF Cons.prems(2)] w1(2) by blast
      show "distinct (map rf_id refs)" using Cons.prems(3) by simp
      show "order_status (wdb w1) (rf_id r) = Some OrderStatusPending \<and> rf_status r = OrderStatusPending \<and>
          (\<exists>e. rf_expires_at r = Some e \<and> e \<le> clock w1 (tick w1))" if "r \<in> set refs" for r
      proof -
        have "rf_id r \<noteq> rf_id ref" using that Cons.prems(3) by (auto simp: image_iff)
        then show ?thesis using that Cons.prems(4) [of r] later by (auto simp: st)
      qed
    qed
    then show "succeeds (fold_each refs (sweep_turn a) m) w1
      (\<lambda>_ d. expired_all (map rf_id (ref # refs)) (wdb w) d)"
      using expired_step [OF Cons.prems(2)] w1(2) unfolding succeeds_def by fastforce
  qed
qed

definition overdue :: "gotime \<Rightarrow> order_row \<Rightarrow> bool" where
  "overdue t r \<longleftrightarrow> ord_status r = OrderStatusPending \<and> (case ord_expires_at r of None \<Rightarrow> False | Some e \<Rightarrow> e \<le> t)"

text \<open>
  The orders one sweep takes on: the hundred whose deadlines are oldest, any of those whose
  deadlines tie at the boundary.
\<close>

definition oldest_due :: "gotime \<Rightarrow> database \<Rightarrow> order_row list \<Rightarrow> bool" where
  "oldest_due t d b \<longleftrightarrow> (\<exists>os. mset os = mset (filter (overdue t) (orders d)) \<and>
     sorted (map (\<lambda>r. nulls_last (ord_expires_at r)) os) \<and> b = take 100 os)"

lemma oldest_due_members: "oldest_due t d b \<Longrightarrow> r \<in> set b \<Longrightarrow> r \<in> set (orders d) \<and> overdue t r"
  unfolding oldest_due_def by (metis in_set_takeD mem_Collect_eq mset_eq_setD set_filter)

lemma oldest_due_distinct:
  assumes "schema_ok d" and "oldest_due t d b"
  shows "distinct (map ord_id b)"
proof -
  from assms(2) obtain os where os: "mset os = mset (filter (overdue t) (orders d))" "b = take 100 os"
    by (auto simp: oldest_due_def)
  have "distinct (map ord_id (filter (overdue t) (orders d)))"
    using assms(1) by (simp add: schema_defs distinct_map_filter)
  then have "distinct (map ord_id os)" by (metis distinct_map_mset os(1))
  then show ?thesis by (simp add: os(2) flip: take_map)
qed

lemma oldest_due_all:
  assumes "oldest_due t d b" and "\<not> 100 < length (filter (overdue t) (orders d))"
  shows "set b = {r \<in> set (orders d). overdue t r}"
proof -
  from assms(1) obtain os where os: "mset os = mset (filter (overdue t) (orders d))" "b = take 100 os"
    by (auto simp: oldest_due_def)
  then have "length os \<le> 100" using assms(2) mset_eq_length by fastforce
  with os show ?thesis using mset_eq_setD [OF os(1)] by auto
qed

definition ref_of :: "order_row \<Rightarrow> OrderRef" where
  "ref_of r = \<lparr>rf_id = ord_id r, rf_number = ord_number r, rf_status = ord_status r, rf_expires_at = ord_expires_at r\<rparr>"

lemma due_succeeds:
  assumes "healthy w"
  shows "succeeds (op_DueForExpiry paymentOrderAdapter t expiryBatchSize) w
    (\<lambda>refs d. (\<exists>b. oldest_due t d b \<and> refs = map ref_of b) \<and> d = wdb w)"
proof -
  have "sint (100 :: int32) = 100" by simp
  have rows: "\<exists>b. oldest_due t d b \<and> sql_ListOrdersDueForExpiry t expiryBatchSize s d =
      map (\<lambda>r. (ord_id r, ord_number r, ord_status r, ord_expires_at r)) b" for s d
  proof (intro exI conjI)
    let ?os = "sort_key (\<lambda>r. nulls_last (ord_expires_at r)) (filter (overdue t) (scanned s ord_id (orders d)))"
    show "oldest_due t d (take 100 ?os)"
      unfolding oldest_due_def by (rule exI [of _ ?os]) simp
    show "sql_ListOrdersDueForExpiry t expiryBatchSize s d =
        map (\<lambda>r. (ord_id r, ord_number r, ord_status r, ord_expires_at r)) (take 100 ?os)"
      using \<open>sint (100 :: int32) = 100\<close>
      by (simp add: sql_ListOrdersDueForExpiry_def overdue_def cong: filter_cong)
  qed
  have "succeeds (order_ListOrdersDueForExpiry t expiryBatchSize) w
      (\<lambda>cs d. (\<exists>b. oldest_due t d b \<and> map (\<lambda>c. \<lparr>rf_id = xc_id c, rf_number = xc_number c, rf_status = xc_status c,
          rf_expires_at = xc_expires_at c\<rparr>) cs = map ref_of b) \<and> d = wdb w)"
    unfolding order_ListOrdersDueForExpiry_def
    by (rule succeeds_bind [OF succeeds_wrapping [OF succeeds_query_rows
          [where Q = "\<lambda>rows d. (\<exists>b. oldest_due t d b \<and> rows =
            map (\<lambda>r. (ord_id r, ord_number r, ord_status r, ord_expires_at r)) b) \<and> d = wdb w"]]])
       (use assms rows in \<open>auto intro!: succeeds_ret simp: ref_of_def\<close>)
  then show ?thesis
    unfolding paymentOrderAdapter_def OrderProvider.simps
    by (rule succeeds_bind) (auto intro!: succeeds_ret)
qed

lemma sweep_succeeds:
  assumes healthy: "healthy w" and room: "room (wdb w)"
  shows "succeeds (sweepOnce (api_payments a)) w
    (\<lambda>_ d. \<exists>b. oldest_due (clock w (tick w)) (wdb w) b \<and> expired_all (map ord_id b) (wdb w) d)"
proof -
  let ?t = "clock w (tick w)"
  let ?Q = "\<lambda>d. \<exists>b. oldest_due ?t (wdb w) b \<and> expired_all (map ord_id b) (wdb w) d"
  have ok: "schema_ok (wdb w)" using room by (simp add: room_def)
  have "succeeds (ExpireDueOrders (api_payments a)) w (\<lambda>_. ?Q)"
    unfolding ExpireDueOrders_def
  proof (rule succeeds_bind [OF succeeds_now [where Q = "\<lambda>t d. t = ?t \<and> d = wdb w"]])
    show "?t = ?t \<and> wdb w = wdb w" by simp
    fix t w1
    assume w1: "ages w w1" "t = ?t \<and> wdb w1 = wdb w"
    then have healthy1: "healthy w1" using healthy healthy_ages by blast
    show "succeeds (bind (op_DueForExpiry (s_orders (api_payments a)) t expiryBatchSize) (\<lambda>due. fold_each due (sweep_turn a) 0)) w1
        (\<lambda>_. ?Q)"
      unfolding api_payments_fields
    proof (rule succeeds_bind [OF due_succeeds [OF healthy1]])
      fix refs w2
      assume w2: "ages w1 w2" "(\<exists>b. oldest_due t (wdb w2) b \<and> refs = map ref_of b) \<and> wdb w2 = wdb w1"
      then obtain b where b: "oldest_due ?t (wdb w) b" "refs = map ref_of b" "wdb w2 = wdb w" using w1(2) by auto
      have now: "clock w (tick w) \<le> clock w2 (tick w2)"
        using ages_trans [OF w1(1) w2(1)] healthy by (simp add: ages_def healthy_def monoD)
      have ids: "map rf_id refs = map ord_id b" by (simp add: b(2) ref_of_def comp_def)
      have "succeeds (fold_each refs (sweep_turn a) 0) w2 (\<lambda>_ d. expired_all (map rf_id refs) (wdb w2) d)"
      proof (rule sweep_loop_succeeds)
        show "healthy w2" using healthy1 w2(1) healthy_ages by blast
        show "room (wdb w2)" using room b(3) by simp
        show "distinct (map rf_id refs)" using oldest_due_distinct [OF ok b(1)] ids by simp
        fix ref
        assume "ref \<in> set refs"
        then obtain r where r: "ref = ref_of r" "r \<in> set (orders (wdb w))" "overdue ?t r"
          using oldest_due_members [OF b(1)] b(2) by auto
        with order_status_row [OF ok r(2)] now
        show "order_status (wdb w2) (rf_id ref) = Some OrderStatusPending \<and> rf_status ref = OrderStatusPending \<and>
            (\<exists>e. rf_expires_at ref = Some e \<and> e \<le> clock w2 (tick w2))"
          using b(3) by (auto simp: ref_of_def overdue_def split: option.splits)
      qed
      then have "succeeds (fold_each refs (sweep_turn a) 0) w2 (\<lambda>_ d. expired_all (map ord_id b) (wdb w) d)"
        by (simp only: ids b(3))
      with b(1) show "succeeds (fold_each refs (sweep_turn a) 0) w2 (\<lambda>_. ?Q)"
        unfolding succeeds_def by blast
    qed
  qed
  then show ?thesis
    unfolding sweepOnce_def
    by (rule succeeds_handle) (auto intro: succeeds_log succeeds_ret)
qed

section \<open>Properties\<close>

text \<open>
  C8: While no statement fails and the clock does not run backwards, one tick of the sweeper expires
  the hundred overdue orders with the oldest deadlines (all of them when there are fewer) and changes
  the status of no other, and each seat those orders held is back on sale. So no overdue order is
  left when at most a hundred were. Which of the orders whose deadlines tie at the hundredth place
  belong to the batch is the database's choice.
\<close>

theorem sweep_expires_the_overdue:
  assumes "healthy w" and "room (wdb w)" and "sweepOnce (api_payments a) w = (u, w')"
  shows "(\<exists>b. oldest_due (clock w (tick w)) (wdb w) b \<and> order_status (wdb w') =
      (\<lambda>i. if i \<in> ord_id ` set b then Some OrderStatusExpired else order_status (wdb w) i)) \<and>
    ledger (wdb w') = ledger (wdb w) \<and>
    (\<not> 100 < length (filter (overdue (clock w (tick w))) (orders (wdb w))) \<longrightarrow>
      (\<forall>r \<in> set (orders (wdb w)). overdue (clock w (tick w)) r \<longrightarrow> order_status (wdb w') (ord_id r) = Some OrderStatusExpired))"
proof -
  let ?t = "clock w (tick w)"
  from sweep_succeeds [OF assms(1,2), of a] assms(3)
  obtain b where b: "oldest_due ?t (wdb w) b" and "expired_all (map ord_id b) (wdb w) (wdb w')"
    by (auto simp: succeeds_def)
  then have "order_status (wdb w') =
      (\<lambda>i. if i \<in> ord_id ` set b then Some OrderStatusExpired else order_status (wdb w) i)"
    and "ledger (wdb w') = ledger (wdb w)" by (simp_all add: expired_all_def)
  with b oldest_due_all [OF b] show ?thesis by auto
qed

definition sample_overdue :: world where
  "sample_overdue = sample_open\<lparr>clock := (\<lambda>n. 1000 + int n)\<rparr>"

theorem sweep_expires_the_overdue_witness:
  "order_status (wdb (snd (sweepOnce (api_payments sample_api) sample_overdue))) 20 = Some OrderStatusExpired"
proof -
  have "\<forall>r \<in> set (ticket_types (wdb sample_overdue)). the (ledger (wdb sample_overdue) (tt_id r)) < 2 ^ 31" by code_simp
  moreover have "\<forall>r \<in> set (order_items (wdb sample_overdue)). 0 \<le> it_qty r" by code_simp
  moreover have "t \<in> tt_id ` set (ticket_types d)" if "ledger d t = Some n" for d t n
    using that by (auto simp: ledger_def quota_of_def dest: find_SomeD)
  moreover have "schema_ok (wdb sample_overdue)" using sample_open_facts(1) by (simp add: sample_overdue_def)
  ultimately have room: "room (wdb sample_overdue)" unfolding room_def by (metis (no_types, lifting) image_iff option.sel)
  have healthy: "healthy sample_overdue"
    by (simp add: healthy_def sample_overdue_def sample_open_def sample_world_def mono_def)
  have few: "\<not> 100 < length (filter (overdue (clock sample_overdue (tick sample_overdue))) (orders (wdb sample_overdue)))"
    and "list_ex (\<lambda>r. ord_id r = 20 \<and> overdue (clock sample_overdue (tick sample_overdue)) r) (orders (wdb sample_overdue))"
    by code_simp+
  then obtain r where r: "r \<in> set (orders (wdb sample_overdue))" "ord_id r = 20"
    "overdue (clock sample_overdue (tick sample_overdue)) r" by (auto simp only: list_ex_iff)
  from sweep_expires_the_overdue [of sample_overdue sample_api, OF healthy room surjective_pairing,
      THEN conjunct2, THEN conjunct2] few r(1,3)
  show ?thesis by (metis (no_types) r(2))
qed

text \<open>An order whose payment session was never recorded has no deadline, and no sweep ever ends it.\<close>

lemma no_deadline_never_swept:
  assumes "healthy w" and room: "room (wdb w)" and r: "r \<in> set (orders (wdb w))" "ord_expires_at r = None"
    and run: "sweepOnce (api_payments a) w = (u, w')"
  shows "order_status (wdb w') (ord_id r) = Some (ord_status r)"
proof -
  have ok: "schema_ok (wdb w)" using room by (simp add: room_def)
  from sweep_succeeds [OF assms(1) room, of a] run obtain b
    where b: "oldest_due (clock w (tick w)) (wdb w) b" and all: "expired_all (map ord_id b) (wdb w) (wdb w')"
    by (auto simp: succeeds_def)
  have "ord_id r \<notin> ord_id ` set b"
  proof
    assume "ord_id r \<in> ord_id ` set b"
    then obtain x where x: "x \<in> set b" "ord_id x = ord_id r" by auto
    note due = oldest_due_members [OF b x(1)]
    then have "x = r" using ok r(1) x(2) by (auto simp: schema_defs intro: distinct_map_inj)
    with due r(2) show False by (simp add: overdue_def)
  qed
  with all order_status_row [OF ok r(1)] show ?thesis by (auto simp: expired_all_def)
qed

end
