(* ===== verification/Config.thy ===== *)
theory Config
  imports Errors "HOL-Library.State_Monad"
begin

text \<open>
  \<open>pkg/config\<close>: the configuration read from the environment (\<open>config.go\<close>) and the \<open>.env\<close> file that
  may fill it in (\<open>dotenv.go\<close>). The loader collects its complaints in a state; \<open>Load\<close> reports them
  all at once. \<open>strconv.Atoi\<close>, \<open>strconv.ParseBool\<close> and \<open>time.ParseDuration\<close> are the standard
  library's algorithms; its floating point, \<open>ParseFloat\<close> and the nanoseconds of a fraction of a
  unit, is the argument \<open>config_lib\<close>, and reading the file is godotenv's.
\<close>

section \<open>The standard library's parsers\<close>

record config_lib =
  lib_ParseFloat :: "string \<Rightarrow> rat option"
  lib_fraction :: "int \<Rightarrow> int \<Rightarrow> int \<Rightarrow> int"

definition is_digit :: "char \<Rightarrow> bool" where
  "is_digit c \<longleftrightarrow> 48 \<le> (of_char c :: nat) \<and> (of_char c :: nat) \<le> 57"

definition digit_of :: "char \<Rightarrow> int" where
  "digit_of c = of_char c - 48"

definition read_digits :: "string \<Rightarrow> int" where
  "read_digits s = foldl (\<lambda>n c. 10 * n + digit_of c) 0 s"

text \<open>An optional sign and decimal digits, within 64 bits.\<close>

definition Atoi :: "string \<Rightarrow> int option" where
  "Atoi s =
     (let (neg, ds) = (case s of [] \<Rightarrow> (False, []) | c # cs \<Rightarrow>
            if c = CHR ''-'' then (True, cs) else if c = CHR ''+'' then (False, cs) else (False, s));
          n = (if neg then - read_digits ds else read_digits ds)
      in if ds = [] \<or> \<not> list_all is_digit ds then None
         else if n < - (2 ^ 63) \<or> 2 ^ 63 \<le> n then None else Some n)"

definition ParseBool :: "string \<Rightarrow> bool option" where
  "ParseBool s =
     (if List.member [''1'', ''t'', ''T'', ''TRUE'', ''true'', ''True''] s then Some True
      else if List.member [''0'', ''f'', ''F'', ''FALSE'', ''false'', ''False''] s then Some False
      else None)"

text \<open>Durations are whole nanoseconds.\<close>

abbreviation Nanosecond :: int where "Nanosecond \<equiv> 1"
abbreviation Microsecond :: int where "Microsecond \<equiv> 1000"
abbreviation Millisecond :: int where "Millisecond \<equiv> 1000000"
abbreviation Second :: int where "Second \<equiv> 1000000000"
abbreviation Minute :: int where "Minute \<equiv> 60000000000"
abbreviation Hour :: int where "Hour \<equiv> 3600000000000"

definition unitMap :: "string \<Rightarrow> int option" where
  "unitMap = map_of
     [(''ns'', Nanosecond), (''us'', Microsecond), ([CHR 0xC2, CHR 0xB5, CHR ''s''], Microsecond),
      ([CHR 0xCE, CHR 0xBC, CHR ''s''], Microsecond), (''ms'', Millisecond), (''s'', Second),
      (''m'', Minute), (''h'', Hour)]"

fun leadingInt :: "string \<Rightarrow> int \<Rightarrow> (int \<times> string) option" where
  "leadingInt [] x = Some (x, [])"
| "leadingInt (c # cs) x =
     (if \<not> is_digit c then Some (x, c # cs)
      else if x > 2 ^ 63 div 10 then None
      else let y = x * 10 + digit_of c in
        if y > 2 ^ 63 then None else leadingInt cs y)"

fun leadingFraction :: "string \<Rightarrow> int \<Rightarrow> int \<Rightarrow> bool \<Rightarrow> int \<times> int \<times> string" where
  "leadingFraction [] x scale overflow = (x, scale, [])"
| "leadingFraction (c # cs) x scale overflow =
     (if \<not> is_digit c then (x, scale, c # cs)
      else if overflow \<or> x > (2 ^ 63 - 1) div 10 then leadingFraction cs x scale True
      else let y = x * 10 + digit_of c in
        if y > 2 ^ 63 then leadingFraction cs x scale True
        else leadingFraction cs y (scale * 10) False)"

text \<open>One turn of the loop: a number with an optional fraction, and its unit.\<close>

definition parse_term :: "config_lib \<Rightarrow> string \<Rightarrow> (int \<times> string) option" where
  "parse_term lib s =
     (case leadingInt s 0 of
        None \<Rightarrow> None
      | Some (v, rest) \<Rightarrow>
          let pre = rest \<noteq> s;
              dot = (case rest of c # cs \<Rightarrow> c = CHR ''.'' | [] \<Rightarrow> False);
              (f, scale, after) = (if dot then leadingFraction (tl rest) 0 1 False else (0, 1, rest));
              post = dot \<and> after \<noteq> tl rest;
              u = takeWhile (\<lambda>c. c \<noteq> CHR ''.'' \<and> \<not> is_digit c) after
          in if \<not> pre \<and> \<not> post then None
             else if u = [] then None
             else case unitMap u of
               None \<Rightarrow> None
             | Some k \<Rightarrow>
                 if v > 2 ^ 63 div k then None
                 else let n = v * k + (if f > 0 then lib_fraction lib f scale k else 0)
                   in if f > 0 \<and> n > 2 ^ 63 then None else Some (n, drop (length u) after))"

lemma leadingInt_rest: "leadingInt s x = Some (v, rest) \<Longrightarrow> length rest \<le> length s"
  by (induction s x rule: leadingInt.induct) (auto simp: Let_def split: if_splits)

lemma leadingFraction_rest: "leadingFraction s x sc ov = (f, scale, rest) \<Longrightarrow> length rest \<le> length s"
  by (induction s x sc ov rule: leadingFraction.induct) (auto simp: Let_def split: if_splits)

lemma parse_term_shorter:
  assumes "parse_term lib s = Some (n, rest)"
  shows "length rest < length s"
proof -
  from assms obtain v r where r: "leadingInt s 0 = Some (v, r)"
    by (auto simp: parse_term_def split: option.splits)
  define dot where "dot = (case r of c # cs \<Rightarrow> c = CHR ''.'' | [] \<Rightarrow> False)"
  obtain f scale after where frac: "(if dot then leadingFraction (tl r) 0 1 False else (0, 1, r)) = (f, scale, after)"
    by (metis surj_pair)
  let ?u = "takeWhile (\<lambda>c. c \<noteq> CHR ''.'' \<and> \<not> is_digit c) after"
  have "?u \<noteq> []" and rest: "rest = drop (length ?u) after"
    using assms r frac unfolding parse_term_def Let_def dot_def by (auto split: if_splits option.splits)
  have "length after \<le> length r"
    using frac by (auto split: if_splits dest!: leadingFraction_rest)
  moreover have "length ?u \<le> length after" by (rule length_takeWhile_le)
  moreover have "0 < length ?u" using \<open>?u \<noteq> []\<close> by blast
  ultimately show ?thesis using leadingInt_rest [OF r] by (simp only: rest length_drop)
qed

function duration_loop :: "config_lib \<Rightarrow> string \<Rightarrow> int \<Rightarrow> int option" where
  "duration_loop lib s d =
     (if s = [] then Some d
      else if \<not> (hd s = CHR ''.'' \<or> is_digit (hd s)) then None
      else case parse_term lib s of
        None \<Rightarrow> None
      | Some (v, rest) \<Rightarrow>
          let d' = (d + v) mod 2 ^ 64 in
          if d' > 2 ^ 63 then None else duration_loop lib rest d')"
  by pat_completeness auto
termination
  by (relation "measure (\<lambda>(lib, s, d). length s)") (simp, force dest: parse_term_shorter)

declare duration_loop.simps [simp del]

definition ParseDuration :: "config_lib \<Rightarrow> string \<Rightarrow> int option" where
  "ParseDuration lib orig =
     (let (neg, s) = (case orig of [] \<Rightarrow> (False, []) | c # cs \<Rightarrow>
            if c = CHR ''-'' then (True, cs) else if c = CHR ''+'' then (False, cs) else (False, orig))
      in if s = ''0'' then Some 0
         else if s = [] then None
         else case duration_loop lib s 0 of
           None \<Rightarrow> None
         | Some d \<Rightarrow> if neg then Some (- d) else if d > 2 ^ 63 - 1 then None else Some d)"

section \<open>The loader\<close>

type_synonym environment = "string \<rightharpoonup> string"

definition Getenv :: "environment \<Rightarrow> string \<Rightarrow> string" where
  "Getenv env key = (case env key of None \<Rightarrow> [] | Some v \<Rightarrow> v)"

text \<open>The state of the loader is its \<open>errs\<close>.\<close>

type_synonym 'a loader = "(message list, 'a) state"

definition complain :: "message \<Rightarrow> unit loader" where
  "complain e = State (\<lambda>errs. ((), errs @ [e]))"

definition l_required :: "environment \<Rightarrow> string \<Rightarrow> string loader" where
  "l_required env key =
     (let v = Getenv env key in
      do { _ \<leftarrow> (if v = [] then complain (Msg ''%s is required but not set'' [ArgS key]) else State_Monad.return ());
           State_Monad.return v })"

definition l_str :: "environment \<Rightarrow> string \<Rightarrow> string \<Rightarrow> string loader" where
  "l_str env key def = (let v = Getenv env key in State_Monad.return (if v \<noteq> [] then v else def))"

text \<open>\<open>integer\<close>, \<open>float\<close>, \<open>boolean\<close> and \<open>duration\<close> differ in the parser and the message only.\<close>

definition l_parsed :: "(string \<Rightarrow> 'a option) \<Rightarrow> string \<Rightarrow> environment \<Rightarrow> string \<Rightarrow> 'a \<Rightarrow> 'a loader" where
  "l_parsed parse complaint env key def =
     (let v = Getenv env key in
      if v = [] then State_Monad.return def
      else case parse v of
        None \<Rightarrow> do { _ \<leftarrow> complain (Msg complaint [ArgS key, ArgS v]); State_Monad.return def }
      | Some x \<Rightarrow> State_Monad.return x)"

definition l_integer :: "environment \<Rightarrow> string \<Rightarrow> int \<Rightarrow> int loader" where
  "l_integer = l_parsed Atoi ''%s must be an integer, got %q''"

definition l_float :: "config_lib \<Rightarrow> environment \<Rightarrow> string \<Rightarrow> rat \<Rightarrow> rat loader" where
  "l_float lib = l_parsed (lib_ParseFloat lib) ''%s must be a number, got %q''"

definition l_boolean :: "environment \<Rightarrow> string \<Rightarrow> bool \<Rightarrow> bool loader" where
  "l_boolean = l_parsed ParseBool ''%s must be a boolean, got %q''"

definition l_duration :: "config_lib \<Rightarrow> environment \<Rightarrow> string \<Rightarrow> int \<Rightarrow> int loader" where
  "l_duration lib = l_parsed (ParseDuration lib) ''%s must be a duration such as 12h, got %q''"

section \<open>Load\<close>

abbreviation minPaymentExpiry :: int where "minPaymentExpiry \<equiv> 15 * Minute"

record Config =
  AppPort :: string
  AppBaseURL :: string
  FrontendURL :: string
  DatabaseURL :: string
  JWTSecret :: string
  JWTTTL :: int
  MidtransServerKey :: string
  MidtransClientKey :: string
  MidtransIsProduction :: bool
  MidtransBaseURL :: string
  PaymentExpiry :: int
  PaymentSweepInterval :: int
  SMTPHost :: string
  SMTPPort :: int
  SMTPUsername :: string
  SMTPPassword :: string
  SMTPFrom :: string
  SMTPFromName :: string
  TicketLookupRateLimit :: rat
  TicketLookupBurst :: int
  ServiceName :: string
  ServiceVersion :: string
  Environment :: string
  OTLPEndpoint :: string
  TraceSampleRatio :: rat
  MetricsEnabled :: bool

definition load_fields :: "config_lib \<Rightarrow> environment \<Rightarrow> Config loader" where
  "load_fields lib env = do {
     appPort \<leftarrow> l_str env ''APP_PORT'' ''8080'';
     appBaseURL \<leftarrow> l_str env ''APP_BASE_URL'' ''http://localhost:8080'';
     frontendURL \<leftarrow> l_str env ''FRONTEND_URL'' ''http://localhost:3000'';
     databaseURL \<leftarrow> l_required env ''DATABASE_URL'';
     jwtSecret \<leftarrow> l_required env ''JWT_SECRET'';
     jwtTTL \<leftarrow> l_duration lib env ''JWT_TTL'' (12 * Hour);
     serverKey \<leftarrow> l_str env ''MIDTRANS_SERVER_KEY'' [];
     clientKey \<leftarrow> l_str env ''MIDTRANS_CLIENT_KEY'' [];
     isProduction \<leftarrow> l_boolean env ''MIDTRANS_IS_PRODUCTION'' False;
     baseURL \<leftarrow> l_str env ''MIDTRANS_BASE_URL'' [];
     paymentExpiry \<leftarrow> l_duration lib env ''PAYMENT_EXPIRY'' (15 * Minute);
     sweepInterval \<leftarrow> l_duration lib env ''PAYMENT_SWEEP_INTERVAL'' (30 * Second);
     smtpHost \<leftarrow> l_str env ''SMTP_HOST'' ''localhost'';
     smtpPort \<leftarrow> l_integer env ''SMTP_PORT'' 1025;
     smtpUsername \<leftarrow> l_str env ''SMTP_USERNAME'' [];
     smtpPassword \<leftarrow> l_str env ''SMTP_PASSWORD'' [];
     smtpFrom \<leftarrow> l_str env ''SMTP_FROM'' ''tickets@example.com'';
     smtpFromName \<leftarrow> l_str env ''SMTP_FROM_NAME'' ''Event Ticketing'';
     rateLimit \<leftarrow> l_float lib env ''TICKET_LOOKUP_RATE_LIMIT'' 5;
     burst \<leftarrow> l_integer env ''TICKET_LOOKUP_BURST'' 10;
     serviceName \<leftarrow> l_str env ''OTEL_SERVICE_NAME'' ''ticketing-api'';
     serviceVersion \<leftarrow> l_str env ''SERVICE_VERSION'' ''dev'';
     environ \<leftarrow> l_str env ''ENVIRONMENT'' ''local'';
     otlpEndpoint \<leftarrow> l_str env ''OTEL_EXPORTER_OTLP_ENDPOINT'' [];
     sampleRatio \<leftarrow> l_float lib env ''OTEL_TRACES_SAMPLER_ARG'' 1;
     metricsEnabled \<leftarrow> l_boolean env ''METRICS_ENABLED'' True;
     State_Monad.return \<lparr>AppPort = appPort, AppBaseURL = appBaseURL, FrontendURL = frontendURL,
       DatabaseURL = databaseURL, JWTSecret = jwtSecret, JWTTTL = jwtTTL,
       MidtransServerKey = serverKey, MidtransClientKey = clientKey, MidtransIsProduction = isProduction,
       MidtransBaseURL = baseURL, PaymentExpiry = paymentExpiry, PaymentSweepInterval = sweepInterval,
       SMTPHost = smtpHost, SMTPPort = smtpPort, SMTPUsername = smtpUsername, SMTPPassword = smtpPassword,
       SMTPFrom = smtpFrom, SMTPFromName = smtpFromName, TicketLookupRateLimit = rateLimit,
       TicketLookupBurst = burst, ServiceName = serviceName, ServiceVersion = serviceVersion,
       Environment = environ, OTLPEndpoint = otlpEndpoint, TraceSampleRatio = sampleRatio,
       MetricsEnabled = metricsEnabled\<rparr>
   }"

text \<open>The report strings the texts of the complaints together, each on a line of its own.\<close>

definition invalid_configuration :: "message list \<Rightarrow> goerror" where
  "invalid_configuration errs =
     Errorf (Msg (''invalid configuration:'' @ concat (map (\<lambda>e. CHR 0x0A # ''  - '' @ msg_format e) errs))
       (concat (map msg_args errs))) []"

definition Load :: "config_lib \<Rightarrow> environment \<Rightarrow> goerror + Config" where
  "Load lib env =
     (let (cfg, errs) = run_state (load_fields lib env) [];
          errs = (if PaymentExpiry cfg < minPaymentExpiry then
              errs @ [Msg ''PAYMENT_EXPIRY must be at least %s (the payment provider's expiry scheduler is unreliable below that), got %s''
                [ArgI minPaymentExpiry, ArgI (PaymentExpiry cfg)]] else errs);
          errs = (if PaymentSweepInterval cfg \<le> 0 then
              errs @ [Msg ''PAYMENT_SWEEP_INTERVAL must be positive, got %s'' [ArgI (PaymentSweepInterval cfg)]] else errs)
      in if errs \<noteq> [] then Inl (invalid_configuration errs) else Inr cfg)"

section \<open>The .env file\<close>

text \<open>
  What \<open>os.Stat\<close> and godotenv find: the file may be missing, unreadable, or hold assignments, listed
  in the order in which the range over the map happens to visit them.
\<close>

datatype dotenv_file = Missing | StatFailed goerror | Unreadable goerror | Assignments "(string \<times> string) list"

text \<open>\<open>os.Setenv\<close> refuses an empty key, a key with \<open>=\<close> or NUL, and a value with NUL.\<close>

definition Setenv :: "string \<Rightarrow> string \<Rightarrow> environment \<Rightarrow> goerror + environment" where
  "Setenv key val env =
     (if key = [] \<or> CHR ''='' \<in> set key \<or> CHR 0x00 \<in> set key \<or> CHR 0x00 \<in> set val
      then Inl (DriverError ''setenv'') else Inr (env(key \<mapsto> val)))"

fun apply_assignments :: "(string \<times> string) list \<Rightarrow> environment \<Rightarrow> goerror option \<times> environment" where
  "apply_assignments [] env = (None, env)"
| "apply_assignments ((key, val) # rest) env =
     (if Getenv env key \<noteq> [] then apply_assignments rest env
      else case Setenv key val env of
        Inl err \<Rightarrow> (Some (Errorf (Msg ''apply %s from %s: %w'' [ArgS key, ArgS ''.env'']) [err]), env)
      | Inr env' \<Rightarrow> apply_assignments rest env')"

definition LoadDotEnv :: "dotenv_file \<Rightarrow> environment \<Rightarrow> goerror option \<times> environment" where
  "LoadDotEnv file env =
     (case file of
        Missing \<Rightarrow> (None, env)
      | StatFailed err \<Rightarrow> (Some (Errorf (Msg ''check for %s: %w'' [ArgS ''.env'']) [err]), env)
      | Unreadable err \<Rightarrow> (Some (Errorf (Msg ''read %s: %w'' [ArgS ''.env'']) [err]), env)
      | Assignments values \<Rightarrow> apply_assignments values env)"

section \<open>Durations fit their type\<close>

lemma duration_loop_range: "duration_loop lib s d = Some n \<Longrightarrow> 0 \<le> d \<Longrightarrow> d \<le> 2 ^ 63 \<Longrightarrow> 0 \<le> n \<and> n \<le> 2 ^ 63"
proof (induction lib s d rule: duration_loop.induct)
  case (1 lib s d)
  show ?case
  proof (cases "s = []")
    case True
    with "1.prems" show ?thesis by (simp add: duration_loop.simps)
  next
    case False
    with "1.prems" obtain v rest where step: "hd s = CHR ''.'' \<or> is_digit (hd s)" "parse_term lib s = Some (v, rest)"
      and rec: "\<not> (d + v) mod 2 ^ 64 > 2 ^ 63" "duration_loop lib rest ((d + v) mod 2 ^ 64) = Some n"
      by (subst (asm) duration_loop.simps) (auto simp: Let_def split: if_splits option.splits)
    show ?thesis
      using "1.IH" [OF False _ step(2) refl refl rec(1) rec(2)] step(1) rec(1) by simp
  qed
qed

lemma ParseDuration_range: "ParseDuration lib s = Some n \<Longrightarrow> - (2 ^ 63) \<le> n \<and> n < 2 ^ 63"
  by (auto simp: ParseDuration_def Let_def dest!: duration_loop_range split: if_splits option.splits list.splits prod.splits)

section \<open>What Load computes\<close>

text \<open>The configuration and the complaints, variable by variable.\<close>

definition str_or :: "environment \<Rightarrow> string \<Rightarrow> string \<Rightarrow> string" where
  "str_or env key def = (if Getenv env key = [] then def else Getenv env key)"

definition value_or :: "(string \<Rightarrow> 'a option) \<Rightarrow> environment \<Rightarrow> string \<Rightarrow> 'a \<Rightarrow> 'a" where
  "value_or parse env key def =
     (if Getenv env key = [] then def else case parse (Getenv env key) of None \<Rightarrow> def | Some x \<Rightarrow> x)"

definition missing :: "environment \<Rightarrow> string \<Rightarrow> message list" where
  "missing env key = (if Getenv env key = [] then [Msg ''%s is required but not set'' [ArgS key]] else [])"

definition malformed :: "(string \<Rightarrow> 'a option) \<Rightarrow> string \<Rightarrow> environment \<Rightarrow> string \<Rightarrow> message list" where
  "malformed parse complaint env key =
     (if Getenv env key \<noteq> [] \<and> parse (Getenv env key) = None then [Msg complaint [ArgS key, ArgS (Getenv env key)]] else [])"

abbreviation not_integer :: "environment \<Rightarrow> string \<Rightarrow> message list" where
  "not_integer \<equiv> malformed Atoi ''%s must be an integer, got %q''"
abbreviation not_number :: "config_lib \<Rightarrow> environment \<Rightarrow> string \<Rightarrow> message list" where
  "not_number lib \<equiv> malformed (lib_ParseFloat lib) ''%s must be a number, got %q''"
abbreviation not_boolean :: "environment \<Rightarrow> string \<Rightarrow> message list" where
  "not_boolean \<equiv> malformed ParseBool ''%s must be a boolean, got %q''"
abbreviation not_duration :: "config_lib \<Rightarrow> environment \<Rightarrow> string \<Rightarrow> message list" where
  "not_duration lib \<equiv> malformed (ParseDuration lib) ''%s must be a duration such as 12h, got %q''"

definition config_of :: "config_lib \<Rightarrow> environment \<Rightarrow> Config" where
  "config_of lib env =
     \<lparr>AppPort = str_or env ''APP_PORT'' ''8080'', AppBaseURL = str_or env ''APP_BASE_URL'' ''http://localhost:8080'',
      FrontendURL = str_or env ''FRONTEND_URL'' ''http://localhost:3000'',
      DatabaseURL = Getenv env ''DATABASE_URL'', JWTSecret = Getenv env ''JWT_SECRET'',
      JWTTTL = value_or (ParseDuration lib) env ''JWT_TTL'' (12 * Hour),
      MidtransServerKey = str_or env ''MIDTRANS_SERVER_KEY'' [], MidtransClientKey = str_or env ''MIDTRANS_CLIENT_KEY'' [],
      MidtransIsProduction = value_or ParseBool env ''MIDTRANS_IS_PRODUCTION'' False,
      MidtransBaseURL = str_or env ''MIDTRANS_BASE_URL'' [],
      PaymentExpiry = value_or (ParseDuration lib) env ''PAYMENT_EXPIRY'' (15 * Minute),
      PaymentSweepInterval = value_or (ParseDuration lib) env ''PAYMENT_SWEEP_INTERVAL'' (30 * Second),
      SMTPHost = str_or env ''SMTP_HOST'' ''localhost'', SMTPPort = value_or Atoi env ''SMTP_PORT'' 1025,
      SMTPUsername = str_or env ''SMTP_USERNAME'' [], SMTPPassword = str_or env ''SMTP_PASSWORD'' [],
      SMTPFrom = str_or env ''SMTP_FROM'' ''tickets@example.com'', SMTPFromName = str_or env ''SMTP_FROM_NAME'' ''Event Ticketing'',
      TicketLookupRateLimit = value_or (lib_ParseFloat lib) env ''TICKET_LOOKUP_RATE_LIMIT'' 5,
      TicketLookupBurst = value_or Atoi env ''TICKET_LOOKUP_BURST'' 10,
      ServiceName = str_or env ''OTEL_SERVICE_NAME'' ''ticketing-api'', ServiceVersion = str_or env ''SERVICE_VERSION'' ''dev'',
      Environment = str_or env ''ENVIRONMENT'' ''local'', OTLPEndpoint = str_or env ''OTEL_EXPORTER_OTLP_ENDPOINT'' [],
      TraceSampleRatio = value_or (lib_ParseFloat lib) env ''OTEL_TRACES_SAMPLER_ARG'' 1,
      MetricsEnabled = value_or ParseBool env ''METRICS_ENABLED'' True\<rparr>"

definition problems :: "config_lib \<Rightarrow> environment \<Rightarrow> message list" where
  "problems lib env =
     missing env ''DATABASE_URL'' @ missing env ''JWT_SECRET'' @ not_duration lib env ''JWT_TTL'' @
     not_boolean env ''MIDTRANS_IS_PRODUCTION'' @ not_duration lib env ''PAYMENT_EXPIRY'' @
     not_duration lib env ''PAYMENT_SWEEP_INTERVAL'' @ not_integer env ''SMTP_PORT'' @
     not_number lib env ''TICKET_LOOKUP_RATE_LIMIT'' @ not_integer env ''TICKET_LOOKUP_BURST'' @
     not_number lib env ''OTEL_TRACES_SAMPLER_ARG'' @ not_boolean env ''METRICS_ENABLED'' @
     (if PaymentExpiry (config_of lib env) < minPaymentExpiry
      then [Msg ''PAYMENT_EXPIRY must be at least %s (the payment provider's expiry scheduler is unreliable below that), got %s''
              [ArgI minPaymentExpiry, ArgI (PaymentExpiry (config_of lib env))]] else []) @
     (if PaymentSweepInterval (config_of lib env) \<le> 0
      then [Msg ''PAYMENT_SWEEP_INTERVAL must be positive, got %s'' [ArgI (PaymentSweepInterval (config_of lib env))]] else [])"

lemma run_l_str: "run_state (l_str env key def) errs = (str_or env key def, errs)"
  by (simp add: l_str_def str_or_def Let_def)

lemma run_l_required: "run_state (l_required env key) errs = (Getenv env key, errs @ missing env key)"
  by (simp add: l_required_def missing_def complain_def Let_def)

lemma run_l_parsed:
  "run_state (l_parsed parse complaint env key def) errs = (value_or parse env key def, errs @ malformed parse complaint env key)"
  by (simp add: l_parsed_def value_or_def malformed_def complain_def Let_def split: option.split)

lemma run_load_fields:
  "run_state (load_fields lib env) errs =
   (config_of lib env, errs @ missing env ''DATABASE_URL'' @ missing env ''JWT_SECRET'' @ not_duration lib env ''JWT_TTL'' @
     not_boolean env ''MIDTRANS_IS_PRODUCTION'' @ not_duration lib env ''PAYMENT_EXPIRY'' @
     not_duration lib env ''PAYMENT_SWEEP_INTERVAL'' @ not_integer env ''SMTP_PORT'' @
     not_number lib env ''TICKET_LOOKUP_RATE_LIMIT'' @ not_integer env ''TICKET_LOOKUP_BURST'' @
     not_number lib env ''OTEL_TRACES_SAMPLER_ARG'' @ not_boolean env ''METRICS_ENABLED'')"
  by (simp only: load_fields_def config_of_def l_duration_def l_boolean_def l_integer_def l_float_def
      run_state_bind run_state_return run_l_str run_l_required run_l_parsed append_assoc prod.case)

lemma complaint_added: "(if p then errs @ [x] else errs) = errs @ (if p then [x] else [])"
  by simp

lemma report_or_answer: "(if errs \<noteq> [] then Inl e else Inr c) = (if errs = [] then Inr c else Inl e)"
  by simp

lemma Load_problems:
  "Load lib env = (if problems lib env = [] then Inr (config_of lib env) else Inl (invalid_configuration (problems lib env)))"
  by (simp only: Load_def run_load_fields Let_def prod.case complaint_added report_or_answer append_Nil append_assoc problems_def)

lemma Load_within:
  assumes "Load lib env = Inr cfg"
  shows "DatabaseURL cfg \<noteq> [] \<and> JWTSecret cfg \<noteq> [] \<and>
    15 * Minute \<le> PaymentExpiry cfg \<and> PaymentExpiry cfg < 2 ^ 63 \<and>
    0 < PaymentSweepInterval cfg \<and> PaymentSweepInterval cfg < 2 ^ 63 \<and>
    - (2 ^ 63) \<le> JWTTTL cfg \<and> JWTTTL cfg < 2 ^ 63"
proof -
  from assms have none: "problems lib env = []" and cfg: "cfg = config_of lib env"
    by (auto simp: Load_problems split: if_splits)
  have range: "- (2 ^ 63) \<le> value_or (ParseDuration lib) env key dflt \<and> value_or (ParseDuration lib) env key dflt < 2 ^ 63"
    if "- (2 ^ 63) \<le> dflt" "dflt < 2 ^ 63" for key and dflt :: int
    using that ParseDuration_range by (auto simp: value_or_def split: option.split)
  have "PaymentExpiry cfg < 2 ^ 63" "PaymentSweepInterval cfg < 2 ^ 63" "- (2 ^ 63) \<le> JWTTTL cfg" "JWTTTL cfg < 2 ^ 63"
    unfolding cfg config_of_def Config.simps using range by simp_all
  moreover have "DatabaseURL cfg \<noteq> []" "JWTSecret cfg \<noteq> []"
    using none by (auto simp: problems_def missing_def cfg config_of_def split: if_splits)
  moreover have "15 * Minute \<le> PaymentExpiry cfg" "0 < PaymentSweepInterval cfg"
    using none by (auto simp: problems_def cfg split: if_splits)
  ultimately show ?thesis by blast
qed

section \<open>Properties\<close>

text \<open>
  C35: Loading reports every problem of the environment at once, in one error, and fails exactly when
  there is one: a required variable that is empty or unset, a value its parser refuses, a payment
  expiry below fifteen minutes or a sweep interval that is not positive. When it succeeds, each
  setting is the variable's parsed value, or the default where the variable is empty.
\<close>

theorem Load_reports_all:
  "Load lib env = (if problems lib env = [] then Inr (config_of lib env)
     else Inl (invalid_configuration (problems lib env)))"
  by (rule Load_problems)

text \<open>
  C36: A configuration that loads is one the rest of the program may rely on: the database URL and the
  signing secret are not empty, a payment code lives for at least the provider's fifteen minutes, the
  sweeper has a positive interval, and all three durations fit 64 bits.
\<close>

theorem Load_bounds:
  assumes "Load lib env = Inr cfg"
  shows "DatabaseURL cfg \<noteq> [] \<and> JWTSecret cfg \<noteq> [] \<and>
    15 * Minute \<le> PaymentExpiry cfg \<and> PaymentExpiry cfg < 2 ^ 63 \<and>
    0 < PaymentSweepInterval cfg \<and> PaymentSweepInterval cfg < 2 ^ 63 \<and>
    - (2 ^ 63) \<le> JWTTTL cfg \<and> JWTTTL cfg < 2 ^ 63"
  by (rule Load_within [OF assms])

definition config_sample :: config_lib where
  "config_sample = \<lparr>lib_ParseFloat = (\<lambda>_. None), lib_fraction = (\<lambda>f scale k. f * k div scale)\<rparr>"

definition sample_environment :: environment where
  "sample_environment = [''DATABASE_URL'' \<mapsto> ''postgres://db'', ''JWT_SECRET'' \<mapsto> ''secret'', ''PAYMENT_EXPIRY'' \<mapsto> ''1h2.5m'',
     ''SMTP_PORT'' \<mapsto> ''+2525'', ''METRICS_ENABLED'' \<mapsto> ''F'']"

theorem Load_bounds_witness:
  "\<exists>cfg. Load config_sample sample_environment = Inr cfg \<and> PaymentExpiry cfg = 62 * Minute + 30 * Second \<and>
     SMTPPort cfg = 2525 \<and> \<not> MetricsEnabled cfg \<and> 15 * Minute \<le> PaymentExpiry cfg"
proof -
  let ?cfg = "projr (Load config_sample sample_environment)"
  have "\<not> isl (Load config_sample sample_environment)" "PaymentExpiry ?cfg = 62 * Minute + 30 * Second"
    "SMTPPort ?cfg = 2525" "\<not> MetricsEnabled ?cfg" by code_simp+
  moreover from this(1) have "Load config_sample sample_environment = Inr ?cfg" by simp
  moreover note Load_bounds [OF this]
  ultimately show ?thesis by blast
qed

text \<open>
  C37: The \<open>.env\<close> file only fills gaps. Whatever order its assignments are visited in, a variable that
  has a value keeps it, one that is unset or empty gets the file's value if the file has one, and
  nothing else changes; on an error the environment has still lost nothing.
\<close>

theorem dotenv_fills_gaps:
  assumes "LoadDotEnv (Assignments vals) env = (err, env')" and "distinct (map fst vals)"
  shows "(Getenv env key \<noteq> [] \<longrightarrow> env' key = env key) \<and>
    (err = None \<longrightarrow> Getenv env key = [] \<longrightarrow>
       env' key = (case map_of vals key of None \<Rightarrow> env key | Some v \<Rightarrow> Some v))"
proof -
  have "apply_assignments vals env = (err, env')" using assms(1) by (simp add: LoadDotEnv_def)
  then show ?thesis
    using assms(2)
  proof (induction vals env rule: apply_assignments.induct)
    case (2 k v rest env)
    show ?case
    proof (cases "Getenv env k = []")
      case False
      with 2 show ?thesis by auto
    next
      case gap: True
      show ?thesis
      proof (cases "Setenv k v env")
        case (Inl e)
        with gap "2.prems"(1) show ?thesis by auto
      next
        case (Inr env1)
        then have env1: "env1 = env(k \<mapsto> v)" by (auto simp: Setenv_def split: if_splits)
        have rest: "apply_assignments rest env1 = (err, env')" and dist: "distinct (map fst rest)" "k \<notin> fst ` set rest"
          using "2.prems" gap Inr by auto
        note IH = "2.IH"(2) [OF _ Inr rest dist(1)]
        have "map_of rest k = None" using dist(2) by (simp add: map_of_eq_None_iff)
        show ?thesis
        proof (cases "key = k")
          case True
          have "env1 key = Some v" "Getenv env1 key = v" by (simp_all add: env1 True Getenv_def)
          with IH gap \<open>map_of rest k = None\<close> True show ?thesis by (cases "v = []") auto
        next
          case False
          then have "env1 key = env key" "Getenv env1 key = Getenv env key" by (simp_all add: env1 Getenv_def)
          with IH gap False show ?thesis by (cases "map_of rest key") simp_all
        qed
      qed
    qed
  qed auto
qed

theorem dotenv_fills_gaps_witness:
  "snd (LoadDotEnv (Assignments [(''PORT'', ''1''), (''HOST'', ''x''), (''NAME'', ''y'')]) [''PORT'' \<mapsto> ''2'', ''HOST'' \<mapsto> []]) ''PORT'' = Some ''2'' \<and>
   snd (LoadDotEnv (Assignments [(''PORT'', ''1''), (''HOST'', ''x''), (''NAME'', ''y'')]) [''PORT'' \<mapsto> ''2'', ''HOST'' \<mapsto> []]) ''HOST'' = Some ''x''"
proof -
  let ?vs = "[(''PORT'', ''1''), (''HOST'', ''x''), (''NAME'', ''y'')]" and ?env = "[''PORT'' \<mapsto> ''2'', ''HOST'' \<mapsto> []]"
  have "fst (LoadDotEnv (Assignments ?vs) ?env) = None" by code_simp
  then have "LoadDotEnv (Assignments ?vs) ?env = (None, snd (LoadDotEnv (Assignments ?vs) ?env))" by (simp add: prod_eq_iff)
  note fills = dotenv_fills_gaps [OF this]
  show ?thesis using fills [of "''PORT''"] fills [of "''HOST''"] by (simp add: Getenv_def)
qed

end
