(* ===== verification/Observability.thy ===== *)
theory Observability
  imports Errors Gotime
begin

text \<open>
  \<open>pkg/observability\<close> and the trace half of \<open>pkg/logger\<close>: the request metrics with the middleware
  that keeps them, how tracing is set up and shut down, and how a log line is stamped with the
  trace it belongs to. A counter or histogram is the list of what it was told, newest last; the
  Prometheus and OpenTelemetry packages are arguments where their answer matters.
\<close>

section \<open>Metrics\<close>

abbreviation metricsPath :: string where "metricsPath \<equiv> ''/metrics''"
abbreviation unmatchedRoute :: string where "unmatchedRoute \<equiv> ''<unmatched>''"

text \<open>The instruments a registry holds, with what they are registered under.\<close>

datatype instrument =
    CounterVec string string "string list"
  | HistogramVec string string "rat list" "string list"
  | Gauge string string
  | GoCollector
  | ProcessCollector

record Metrics =
  mt_registry :: "instrument list"
  mt_requests :: "(string \<times> string \<times> int) list"
  mt_duration :: "(string \<times> string \<times> gotime) list"
  mt_inFlight :: int

definition NewMetrics :: "instrument list \<Rightarrow> Metrics" where
  "NewMetrics registry =
     \<lparr>mt_registry = registry @
        [CounterVec ''http_requests_total'' ''Total HTTP requests handled, by method, matched route, and status.''
           [''method'', ''path'', ''status''],
         HistogramVec ''http_request_duration_seconds'' ''HTTP request latency in seconds, by method and matched route.''
           [5 / 1000, 1 / 100, 25 / 1000, 5 / 100, 1 / 10, 25 / 100, 5 / 10, 1, 25 / 10, 5, 10] [''method'', ''path''],
         Gauge ''http_requests_in_flight'' ''HTTP requests currently being served.'',
         GoCollector, ProcessCollector],
      mt_requests = [], mt_duration = [], mt_inFlight = 0\<rparr>"

text \<open>\<open>statusOf\<close> of the response's status and the error the handler returned.\<close>

definition statusOf :: "int \<Rightarrow> goerror option \<Rightarrow> int" where
  "statusOf response_status err =
     (case err of
        None \<Rightarrow> response_status
      | Some e \<Rightarrow>
          (case errors_As is_AppErr e of
             Some appErr \<Rightarrow> HTTPStatus appErr
           | None \<Rightarrow>
               (case errors_As is_EchoErr e of
                  Some (HTTPError code msg cause) \<Rightarrow> code
                | _ \<Rightarrow> 500)))"

text \<open>
  A handler runs while other requests move the metrics too. It returns with the route the router
  matched, the status of the response, its error and the time it took, or it panics.
\<close>

datatype outcome = Returned (oc_route: string) (oc_status: int) (oc_err: "goerror option") (oc_took: gotime) | Panicked

definition Metrics_Middleware ::
  "string \<Rightarrow> string \<Rightarrow> (Metrics \<Rightarrow> outcome \<times> Metrics) \<Rightarrow> Metrics \<Rightarrow> outcome \<times> Metrics" where
  "Metrics_Middleware url_path method next_handler m =
     (if url_path = metricsPath then next_handler m
      else let (out, m) = next_handler (m\<lparr>mt_inFlight := mt_inFlight m + 1\<rparr>) in
       (case out of
          Panicked \<Rightarrow> (out, m)
        | Returned route response_status err took \<Rightarrow>
            let m = m\<lparr>mt_inFlight := mt_inFlight m - 1\<rparr>;
                route = (if route = [] then unmatchedRoute else route);
                status = statusOf response_status err;
                m = m\<lparr>mt_requests := mt_requests m @ [(method, route, status)]\<rparr>;
                m = m\<lparr>mt_duration := mt_duration m @ [(method, route, took)]\<rparr>
            in (out, m)))"

section \<open>Tracing\<close>

record TracingConfig =
  tc_ServiceName :: string
  tc_ServiceVersion :: string
  tc_Environment :: string
  tc_OTLPEndpoint :: string
  tc_SampleRatio :: rat

type_synonym attributes = "(string \<times> string) list"

datatype provider = Noop | Sdk attributes rat

record otel =
  ot_propagators :: "string list"
  ot_provider :: "provider option"

text \<open>
  The exporter of an endpoint, the merge of attributes into the SDK's default resource, and the
  provider's own shutdown.
\<close>

record tracing_lib =
  tl_exporter :: "string \<Rightarrow> goerror option"
  tl_merge :: "attributes \<Rightarrow> goerror + attributes"
  tl_shutdown :: "goerror option"

definition BuildResource :: "tracing_lib \<Rightarrow> TracingConfig \<Rightarrow> goerror + attributes" where
  "BuildResource lib cfg =
     (case tl_merge lib [(''service.name'', tc_ServiceName cfg), (''service.version'', tc_ServiceVersion cfg),
          (''deployment.environment'', tc_Environment cfg)] of
        Inl err \<Rightarrow> Inl (Errorf (text_msg ''build trace resource: %w'') [err])
      | Inr res \<Rightarrow> Inr res)"

text \<open>The shutdown it answers is the error that calling it gives.\<close>

definition InitTracing :: "tracing_lib \<Rightarrow> TracingConfig \<Rightarrow> otel \<Rightarrow> (goerror + goerror option) \<times> otel" where
  "InitTracing lib cfg g =
     (let g = g\<lparr>ot_propagators := [''tracecontext'', ''baggage'']\<rparr> in
      if tc_OTLPEndpoint cfg = [] then (Inr None, g\<lparr>ot_provider := Some Noop\<rparr>)
      else case tl_exporter lib (tc_OTLPEndpoint cfg) of
        Some err \<Rightarrow> (Inl (Errorf (text_msg ''create OTLP trace exporter: %w'') [err]), g)
      | None \<Rightarrow>
          (case BuildResource lib cfg of
             Inl err \<Rightarrow> (Inl err, g)
           | Inr res \<Rightarrow>
               (Inr (map_option (\<lambda>err. Errorf (text_msg ''shutdown trace provider'') [Sentinel ''shutdown trace provider'', err])
                  (tl_shutdown lib)),
                g\<lparr>ot_provider := Some (Sdk res (tc_SampleRatio cfg))\<rparr>)))"

section \<open>Log lines and their trace\<close>

text \<open>
  A handler of \<open>slog\<close> as far as the wrapper sees it: the attributes of \<open>With\<close> and the groups opened
  so far, in order, and the lines written. \<open>traceHandler\<close> embeds one and stamps the record first.
\<close>

datatype scope = Attrs attributes | Group string

type_synonym slog_handler = "scope list"

datatype traceHandler = TraceHandler (th_handler: slog_handler)

record span_context =
  sc_trace :: string
  sc_span :: string
  sc_valid :: bool

record log_record =
  rc_message :: string
  rc_attrs :: attributes

definition th_Handle :: "traceHandler \<Rightarrow> span_context \<Rightarrow> log_record \<Rightarrow> slog_handler \<times> log_record" where
  "th_Handle h sp r =
     (let r = (if sc_valid sp
           then r\<lparr>rc_attrs := rc_attrs r @ [(''trace_id'', sc_trace sp), (''span_id'', sc_span sp)]\<rparr> else r)
      in (th_handler h, r))"

definition th_WithAttrs :: "traceHandler \<Rightarrow> attributes \<Rightarrow> traceHandler" where
  "th_WithAttrs h attrs = TraceHandler (th_handler h @ [Attrs attrs])"

definition th_WithGroup :: "traceHandler \<Rightarrow> string \<Rightarrow> traceHandler" where
  "th_WithGroup h name = TraceHandler (th_handler h @ [Group name])"

text \<open>A line logged inside a valid span carries its ids as its last attributes, whatever \<open>With\<close> came first.\<close>

lemma logs_carry_their_trace:
  "snd (th_Handle (th_WithAttrs h attrs) sp r) = snd (th_Handle h sp r)"
  "snd (th_Handle (th_WithGroup h name) sp r) = snd (th_Handle h sp r)"
  "sc_valid sp \<Longrightarrow> rc_attrs (snd (th_Handle h sp r)) = rc_attrs r @ [(''trace_id'', sc_trace sp), (''span_id'', sc_span sp)]"
  by (simp_all add: th_Handle_def th_WithAttrs_def th_WithGroup_def)

section \<open>What the metrics say\<close>

text \<open>
  C39: The status a request is counted under is the status its client gets: when the handler returns an
  error and nothing has been sent yet, the one that the shared error handler writes for that error.
\<close>

theorem metrics_tell_the_status:
  assumes "ErrorHandler StatusText err False method = Some (resp, lvl)"
  shows "statusOf response_status (Some err) = resp_status resp"
  using assms
  by (auto simp: statusOf_def ErrorHandler_def toAppError_def Let_def errors_As_def apperr_defs
      split: option.splits goerror.splits dest: find_EchoErr)

theorem metrics_tell_the_status_witness:
  "statusOf 200 (Some (Errorf (text_msg ''wrapped: %w'') [NotFound CodeOrderNotFound (text_msg ''Order not found.'')])) = 404"
proof -
  let ?err = "Errorf (text_msg ''wrapped: %w'') [NotFound CodeOrderNotFound (text_msg ''Order not found.'')]"
  let ?answer = "the (ErrorHandler (\<lambda>_. []) ?err False ''GET'')"
  have "ErrorHandler (\<lambda>_. []) ?err False ''GET'' = Some (fst ?answer, snd ?answer)" "resp_status (fst ?answer) = 404"
    by code_simp+
  from metrics_tell_the_status [OF this(1)] this(2) show ?thesis by simp
qed

text \<open>Requests served one after the other, each a path, a method and what its handler did.\<close>

definition served :: "(string \<times> string \<times> outcome) list \<Rightarrow> Metrics \<Rightarrow> Metrics" where
  "served = fold (\<lambda>(url_path, method, out) m. snd (Metrics_Middleware url_path method (\<lambda>m. (out, m)) m))"

definition counted :: "(string \<times> string \<times> outcome) list \<Rightarrow> (string \<times> string \<times> outcome) list" where
  "counted = filter (\<lambda>(url_path, method, out). url_path \<noteq> metricsPath \<and> out \<noteq> Panicked)"

definition panics :: "(string \<times> string \<times> outcome) list \<Rightarrow> nat" where
  "panics rs = length (filter (\<lambda>(url_path, method, out). url_path \<noteq> metricsPath \<and> out = Panicked) rs)"

definition route_label :: "outcome \<Rightarrow> string" where
  "route_label out = (if oc_route out = [] then unmatchedRoute else oc_route out)"

lemma served_from:
  "mt_requests (served rs m) = mt_requests m @
     map (\<lambda>(url_path, method, out). (method, route_label out, statusOf (oc_status out) (oc_err out))) (counted rs) \<and>
   mt_duration (served rs m) = mt_duration m @
     map (\<lambda>(url_path, method, out). (method, route_label out, oc_took out)) (counted rs) \<and>
   mt_inFlight (served rs m) = mt_inFlight m + int (panics rs)"
proof (induction rs arbitrary: m)
  case Nil
  show ?case by (simp add: served_def counted_def panics_def)
next
  case (Cons r rs)
  obtain url_path verb out where r: "r = (url_path, verb, out)" by (cases r)
  have "served (r # rs) m = served rs (snd (Metrics_Middleware url_path verb (\<lambda>m. (out, m)) m))"
    by (simp add: served_def r)
  then show ?case
    by (cases out) (auto simp: Cons.IH r counted_def panics_def Metrics_Middleware_def Let_def route_label_def)
qed

text \<open>
  After any run of requests, each one that returned is counted exactly once, in the counter and in
  the histogram, under its method, its status and either the route it matched or the one label all
  unmatched requests share, so probing random paths adds no series; scrapes of the metrics are not
  counted. The in-flight gauge, which should be back at zero, stands at the number of handlers that
  panicked.
\<close>

theorem metrics_add_up:
  "mt_requests (served rs (NewMetrics registry)) =
     map (\<lambda>(url_path, method, out). (method, route_label out, statusOf (oc_status out) (oc_err out))) (counted rs) \<and>
   length (mt_duration (served rs (NewMetrics registry))) = length (counted rs) \<and>
   fst ` snd ` set (mt_requests (served rs (NewMetrics registry))) \<subseteq>
     insert unmatchedRoute ((\<lambda>(url_path, method, out). oc_route out) ` set (counted rs)) \<and>
   mt_inFlight (served rs (NewMetrics registry)) = int (panics rs)"
  using served_from [of rs "NewMetrics registry"] by (force simp: NewMetrics_def route_label_def)

text \<open>
  Tracing never stands between the service and its start without a collector: with no endpoint it
  always succeeds, installs the no-op provider, and its shutdown does nothing. It fails exactly when
  an endpoint is set and the exporter or the resource cannot be built, and then no provider has been
  replaced; in every case incoming trace context is still propagated.
\<close>

theorem tracing_is_optional:
  "ot_propagators (snd (InitTracing lib cfg g)) = [''tracecontext'', ''baggage''] \<and>
   (if tc_OTLPEndpoint cfg = [] then
      fst (InitTracing lib cfg g) = Inr None \<and> ot_provider (snd (InitTracing lib cfg g)) = Some Noop
    else (\<exists>err. fst (InitTracing lib cfg g) = Inl err) =
        (tl_exporter lib (tc_OTLPEndpoint cfg) \<noteq> None \<or> (\<exists>err. BuildResource lib cfg = Inl err)) \<and>
      ot_provider (snd (InitTracing lib cfg g)) =
        (case fst (InitTracing lib cfg g) of Inl _ \<Rightarrow> ot_provider g
         | Inr _ \<Rightarrow> Some (Sdk (projr (BuildResource lib cfg)) (tc_SampleRatio cfg))))"
  by (auto simp: InitTracing_def Let_def split: option.splits sum.splits)

end
