(* ===== verification/Server.thy ===== *)
theory Server
  imports Api Config Observability "HOL-Library.Stream"
begin

text \<open>
  The life of the process: \<open>main\<close> and \<open>run\<close> of \<open>cmd/api\<close>, from the environment to the wired services and
  through an orderly stop, with the connection pool of \<open>pkg/db\<close> and the loop of the sweeper. What the
  operating system, the collector, the database and the HTTP server answer are the fields of
  \<open>host\<close>; log lines are left out. A run is its error and the list of what it did.
\<close>

section \<open>The sweeper's loop\<close>

text \<open>
  What \<open>select\<close> takes next: that the context is cancelled, or a tick. The loop has no end of its own,
  so it is a partial function; \<open>NewTicker\<close> panics for an interval that is not positive.
\<close>

datatype signal = Done | Tick

record Sweeper =
  sw_svc :: PaymentService
  sw_interval :: int

definition NewSweeper :: "PaymentService \<Rightarrow> int \<Rightarrow> Sweeper" where
  "NewSweeper svc interval = \<lparr>sw_svc = svc, sw_interval = interval\<rparr>"

partial_function (option) sweeper_loop :: "PaymentService \<Rightarrow> signal stream \<Rightarrow> world \<Rightarrow> world option" where
  "sweeper_loop svc sigs w =
     (case shd sigs of
        Done \<Rightarrow> Some w
      | Tick \<Rightarrow> sweeper_loop svc (stl sigs) (snd (sweepOnce svc w)))"

datatype 'a call = Panic | Return 'a

definition Sweeper_Run :: "Sweeper \<Rightarrow> signal stream \<Rightarrow> world \<Rightarrow> world call option" where
  "Sweeper_Run sw sigs w =
     (if sw_interval sw \<le> 0 then Some Panic else map_option Return (sweeper_loop (sw_svc sw) sigs w))"

section \<open>The connection pool\<close>

datatype action =
    OpenPool string | ClosePool | StartSweeper int | StopSweeper | Listen string api
  | Shutdown | WaitForFulfillment | FlushTraces

record pool_lib =
  pl_ParseConfig :: "string \<Rightarrow> goerror option"
  pl_NewWithConfig :: "string \<Rightarrow> goerror option"
  pl_Ping :: "string \<Rightarrow> goerror option"

definition NewPool :: "pool_lib \<Rightarrow> string \<Rightarrow> goerror option \<times> action list" where
  "NewPool lib dsn =
     (if dsn = [] then (Some (Sentinel ''database DSN is empty''), [])
      else case pl_ParseConfig lib dsn of
        Some err \<Rightarrow> (Some (Errorf (text_msg ''parse database DSN: %w'') [err]), [])
      | None \<Rightarrow>
          (case pl_NewWithConfig lib dsn of
             Some err \<Rightarrow> (Some (Errorf (text_msg ''create connection pool: %w'') [err]), [])
           | None \<Rightarrow>
               (case pl_Ping lib dsn of
                  Some err \<Rightarrow> (Some (Errorf (text_msg ''ping database: %w'') [err]), [OpenPool dsn, ClosePool])
                | None \<Rightarrow> (None, [OpenPool dsn]))))"

section \<open>Wiring\<close>

abbreviation CoreAPISandboxBaseURL :: string where
  "CoreAPISandboxBaseURL \<equiv> ''https://api.sandbox.midtrans.com''"
abbreviation CoreAPIProductionBaseURL :: string where
  "CoreAPIProductionBaseURL \<equiv> ''https://api.midtrans.com''"

definition NewMidtransGateway :: "string \<Rightarrow> string \<Rightarrow> int \<Rightarrow> MidtransGateway" where
  "NewMidtransGateway serverKey baseURL paymentExpiry =
     \<lparr>mg_serverKey = serverKey,
      mg_baseURL = (if baseURL \<noteq> [] \<and> last baseURL = CHR ''/'' then butlast baseURL else baseURL),
      mg_paymentExpiry = paymentExpiry\<rparr>"

definition gatewayBaseURL :: "Config \<Rightarrow> string" where
  "gatewayBaseURL cfg =
     (let url = CoreAPISandboxBaseURL;
          url = (if MidtransIsProduction cfg then CoreAPIProductionBaseURL else url)
      in if MidtransBaseURL cfg \<noteq> [] then MidtransBaseURL cfg else url)"

text \<open>The services built from the configuration, over the libraries and the world outside (\<open>ext\<close>).\<close>

definition wire :: "api \<Rightarrow> Config \<Rightarrow> api" where
  "wire ext cfg = ext\<lparr>
     a_gateway := NewMidtransGateway (MidtransServerKey cfg) (gatewayBaseURL cfg) (PaymentExpiry cfg),
     a_smtp := \<lparr>sc_host = SMTPHost cfg, sc_port = SMTPPort cfg, sc_username = SMTPUsername cfg,
       sc_password = SMTPPassword cfg, sc_from = SMTPFrom cfg, sc_from_name = SMTPFromName cfg\<rparr>,
     a_issuer := \<lparr>is_secret = JWTSecret cfg, is_ttl = JWTTTL cfg\<rparr>,
     a_lookup_limit := \<lparr>lm_rate = TicketLookupRateLimit cfg, lm_burst = TicketLookupBurst cfg,
       lm_expires = rateLimitWindow\<rparr>\<rparr>"

section \<open>Startup and shutdown\<close>

text \<open>Serving ends with an error of the server or with a signal.\<close>

datatype serve_end = ServeError goerror | StopSignal string

record host =
  ho_dotenv :: dotenv_file
  ho_environ :: environment
  ho_config :: config_lib
  ho_tracing :: tracing_lib
  ho_otel :: otel
  ho_pool :: pool_lib
  ho_ext :: api
  ho_serve :: serve_end
  ho_shutdown :: "goerror option"

definition tracing_config :: "Config \<Rightarrow> TracingConfig" where
  "tracing_config cfg =
     \<lparr>tc_ServiceName = ServiceName cfg, tc_ServiceVersion = ServiceVersion cfg, tc_Environment = Environment cfg,
      tc_OTLPEndpoint = OTLPEndpoint cfg, tc_SampleRatio = TraceSampleRatio cfg\<rparr>"

text \<open>A failed flush is only logged.\<close>

definition drain :: "host \<Rightarrow> goerror option \<times> action list" where
  "drain h =
     (case ho_serve h of
        ServeError err \<Rightarrow> (Some err, [])
      | StopSignal sig \<Rightarrow>
          (case ho_shutdown h of
             Some err \<Rightarrow> (Some err, [Shutdown])
           | None \<Rightarrow> (None, [Shutdown, StopSweeper, WaitForFulfillment, FlushTraces])))"

text \<open>The deferred calls run last, the latest deferred first.\<close>

definition run :: "host \<Rightarrow> goerror option \<times> action list" where
  "run h =
     (case LoadDotEnv (ho_dotenv h) (ho_environ h) of
        (Some err, env) \<Rightarrow> (Some err, [])
      | (None, env) \<Rightarrow>
          (case Load (ho_config h) env of
             Inl err \<Rightarrow> (Some err, [])
           | Inr cfg \<Rightarrow>
               (case InitTracing (ho_tracing h) (tracing_config cfg) (ho_otel h) of
                  (Inl err, _) \<Rightarrow> (Some err, [])
                | (Inr shutdownTracing, _) \<Rightarrow>
                    (case NewPool (ho_pool h) (DatabaseURL cfg) of
                       (Some err, acts) \<Rightarrow> (Some err, acts)
                     | (None, acts) \<Rightarrow>
                         (case drain h of
                            (err, drained) \<Rightarrow>
                              (err, acts @ [StartSweeper (PaymentSweepInterval cfg), Listen (AppPort cfg) (wire (ho_ext h) cfg)] @
                                 drained @ [StopSweeper, ClosePool]))))))"

definition main_exit :: "host \<Rightarrow> int" where
  "main_exit h = (case fst (run h) of Some err \<Rightarrow> 1 | None \<Rightarrow> 0)"

section \<open>The loop ends when it is told to\<close>

lemma loop_Done: "shd sigs = Done \<Longrightarrow> sweeper_loop svc sigs w = Some w"
  by (simp add: sweeper_loop.simps)

lemma loop_Tick:
  "shd sigs = Tick \<Longrightarrow> sweeper_loop svc sigs w = sweeper_loop svc (stl sigs) (snd (sweepOnce svc w))"
  by (subst sweeper_loop.simps) simp

lemma loop_ticks:
  "sweeper_loop svc (replicate n Tick @- Done ## rest) w = Some (((\<lambda>w. snd (sweepOnce svc w)) ^^ n) w)"
  by (induction n arbitrary: w) (simp_all add: loop_Done loop_Tick funpow_swap1 [of "\<lambda>w. snd (sweepOnce svc w)"])

lemma loop_returns:
  assumes "sweeper_loop svc sigs w = Some w'"
  shows "Done \<in> sset sigs"
proof (rule sweeper_loop.raw_induct [OF _ assms])
  fix f svc sigs w w'
  assume IH: "\<And>svc sigs w w'. f svc sigs w = Some w' \<Longrightarrow> Done \<in> sset sigs"
    and step: "(case shd sigs of Done \<Rightarrow> Some w | Tick \<Rightarrow> f svc (stl sigs) (snd (sweepOnce svc w))) = Some w'"
  show "Done \<in> sset sigs"
  proof (cases "shd sigs")
    case Done
    then show ?thesis by (metis shd_sset)
  next
    case Tick
    with IH step have "Done \<in> sset (stl sigs)" by auto
    then show ?thesis by (metis stl_sset)
  qed
qed

lemma first_Done: "sigs !! k = Done \<Longrightarrow> \<exists>n rest. sigs = replicate n Tick @- Done ## rest"
proof (induction k arbitrary: sigs)
  case 0
  then show ?case by (intro exI [of _ 0]) (metis replicate_0 shift.simps(1) snth.simps(1) stream.collapse)
next
  case (Suc k)
  show ?case
  proof (cases "shd sigs")
    case Done
    then show ?thesis by (intro exI [of _ 0]) (metis replicate_0 shift.simps(1) stream.collapse)
  next
    case Tick
    obtain n rest where "stl sigs = replicate n Tick @- Done ## rest"
      using Suc.IH [of "stl sigs"] Suc.prems by (metis snth.simps(2))
    with Tick show ?thesis by (intro exI [of _ "Suc n"]) (metis replicate_Suc shift.simps(2) stream.collapse)
  qed
qed

lemma loop_iff: "(\<exists>w'. sweeper_loop svc sigs w = Some w') \<longleftrightarrow> Done \<in> sset sigs"
proof
  assume "Done \<in> sset sigs"
  then obtain n rest where "sigs = replicate n Tick @- Done ## rest" using first_Done by (metis sset_range imageE)
  then show "\<exists>w'. sweeper_loop svc sigs w = Some w'" by (simp add: loop_ticks)
qed (auto dest: loop_returns)

text \<open>
  C33: With a configuration that loads, the sweeper never panics and its loop returns exactly when its
  context is cancelled some time, however many ticks come first; by then it has swept once for
  each of them, in order, and nothing else. A context that is never cancelled keeps it running.
\<close>

theorem sweeper_runs_until_cancelled:
  assumes "Load lib env = Inr cfg"
  shows "(\<exists>w'. Sweeper_Run (NewSweeper svc (PaymentSweepInterval cfg)) sigs w = Some (Return w')) = (Done \<in> sset sigs) \<and>
    Sweeper_Run (NewSweeper svc (PaymentSweepInterval cfg)) sigs w \<noteq> Some Panic \<and>
    Sweeper_Run (NewSweeper svc (PaymentSweepInterval cfg)) (replicate n Tick @- Done ## rest) w =
      Some (Return (((\<lambda>w. snd (sweepOnce svc w)) ^^ n) w))"
proof -
  have "0 < PaymentSweepInterval cfg" using Load_within [OF assms] by blast
  then show ?thesis using loop_iff [of svc sigs w] by (simp add: Sweeper_Run_def NewSweeper_def loop_ticks)
qed

theorem sweeper_runs_until_cancelled_witness:
  "\<exists>cfg. Load config_sample sample_environment = Inr cfg \<and>
     Sweeper_Run (NewSweeper (api_payments sample_api) (PaymentSweepInterval cfg)) ([Tick, Tick] @- Done ## sconst Tick) sample_world =
       Some (Return (snd (sweepOnce (api_payments sample_api) (snd (sweepOnce (api_payments sample_api) sample_world)))))"
proof -
  let ?cfg = "projr (Load config_sample sample_environment)"
  have "\<not> isl (Load config_sample sample_environment)" by code_simp
  then have "Load config_sample sample_environment = Inr ?cfg" by simp
  moreover from sweeper_runs_until_cancelled [OF this, of "api_payments sample_api" _ sample_world "Suc (Suc 0)"]
  have "Sweeper_Run (NewSweeper (api_payments sample_api) (PaymentSweepInterval ?cfg)) ([Tick, Tick] @- Done ## sconst Tick) sample_world =
       Some (Return (snd (sweepOnce (api_payments sample_api) (snd (sweepOnce (api_payments sample_api) sample_world)))))"
    by simp
  ultimately show ?thesis by blast
qed

section \<open>Starting and stopping\<close>

lemma NewPool_cases:
  "NewPool lib dsn = (err, acts) \<Longrightarrow>
   acts = (if err = None then [OpenPool dsn] else []) \<or> acts = [OpenPool dsn, ClosePool] \<and> err \<noteq> None"
  by (auto simp: NewPool_def split: if_splits option.splits)

lemma run_cases:
  obtains (early) err acts where "run h = (Some err, acts)"
      "acts = [] \<or> (\<exists>dsn. acts = [OpenPool dsn, ClosePool])"
    | (served) err drained cfg where "drain h = (err, drained)"
      "Load (ho_config h) (snd (LoadDotEnv (ho_dotenv h) (ho_environ h))) = Inr cfg"
      "run h = (err, [OpenPool (DatabaseURL cfg), StartSweeper (PaymentSweepInterval cfg),
         Listen (AppPort cfg) (wire (ho_ext h) cfg)] @ drained @ [StopSweeper, ClosePool])"
proof (cases "LoadDotEnv (ho_dotenv h) (ho_environ h)")
  case (Pair err env)
  show thesis
  proof (cases err)
    case (Some e)
    with Pair show thesis by (intro early [of e "[]"]) (simp_all add: run_def)
  next
    case None
    show thesis
    proof (cases "Load (ho_config h) env")
      case (Inl e)
      with Pair None show thesis by (intro early [of e "[]"]) (simp_all add: run_def)
    next
      case (Inr cfg)
      obtain tr g where tracing: "InitTracing (ho_tracing h) (tracing_config cfg) (ho_otel h) = (tr, g)" by fastforce
      obtain perr acts where pool: "NewPool (ho_pool h) (DatabaseURL cfg) = (perr, acts)" by fastforce
      obtain derr drained where drain: "drain h = (derr, drained)" by fastforce
      note run = Pair None Inr tracing pool drain
      show thesis
      proof (cases "isl tr \<or> perr \<noteq> None")
        case True
        then show thesis
          using run NewPool_cases [OF pool]
          by (intro early [of "case tr of Inl e \<Rightarrow> e | Inr _ \<Rightarrow> the perr" "if isl tr then [] else acts"])
             (auto simp: run_def split: sum.splits)
      next
        case False
        then show thesis
          using run NewPool_cases [OF pool]
          by (intro served [OF drain, of cfg])
             (auto simp: run_def split: sum.splits)
      qed
    qed
  qed
qed

lemma drain_cases:
  "drain h = (err, drained) \<Longrightarrow>
   err \<noteq> None \<and> (drained = [] \<or> drained = [Shutdown]) \<or>
   err = None \<and> drained = [Shutdown, StopSweeper, WaitForFulfillment, FlushTraces]"
  by (auto simp: drain_def split: serve_end.splits option.splits)

definition opened :: "action list \<Rightarrow> bool" where
  "opened = list_ex (\<lambda>act. case act of OpenPool _ \<Rightarrow> True | _ \<Rightarrow> False)"

text \<open>
  C34: The process starts and stops in order. It exits with 0 exactly on a stop signal after a clean
  drain of the server, and then it has stopped the sweeper before it waited for the post-payment
  work, flushed the traces after that and closed the pool last. Any other run exits with 1, and
  neither waits for post-payment work nor flushes traces. A pool that was opened is closed as the last thing on every
  path, and exactly once.
\<close>

theorem orderly_life:
  "(main_exit h = 0 \<or> main_exit h = 1) \<and>
   (main_exit h = 0) = (\<exists>dsn port interval a. snd (run h) =
      [OpenPool dsn, StartSweeper interval, Listen port a, Shutdown, StopSweeper, WaitForFulfillment, FlushTraces, StopSweeper, ClosePool]) \<and>
   (main_exit h = 0) = (WaitForFulfillment \<in> set (snd (run h))) \<and>
   (main_exit h = 0) = (FlushTraces \<in> set (snd (run h))) \<and>
   opened (snd (run h)) = (snd (run h) \<noteq> [] \<and> last (snd (run h)) = ClosePool) \<and>
   count_list (snd (run h)) ClosePool = (if opened (snd (run h)) then 1 else 0)"
proof (cases h rule: run_cases)
  case (early err acts)
  then show ?thesis by (auto simp: main_exit_def opened_def)
next
  case (served err drained cfg)
  with drain_cases [OF served(1)] show ?thesis by (auto simp: main_exit_def opened_def)
qed

text \<open>
  What serves is wired from a configuration that loaded: the tokens are signed with a secret that
  is not empty, a payment code lives for at least the provider's fifteen minutes, and the gateway is
  the configured override (less one trailing slash) where there is one, else the production endpoint
  if the configuration says so and the sandbox otherwise. Nothing listens before the pool is open and the sweeper runs.
\<close>

theorem serves_as_configured:
  assumes "Listen port a \<in> set (snd (run h))"
  shows "\<exists>cfg. Load (ho_config h) (snd (LoadDotEnv (ho_dotenv h) (ho_environ h))) = Inr cfg \<and>
    is_secret (a_issuer a) = JWTSecret cfg \<and> JWTSecret cfg \<noteq> [] \<and>
    mg_paymentExpiry (a_gateway a) = PaymentExpiry cfg \<and> 15 * Minute \<le> PaymentExpiry cfg \<and>
    (MidtransBaseURL cfg = [] \<longrightarrow> mg_baseURL (a_gateway a) =
      (if MidtransIsProduction cfg then CoreAPIProductionBaseURL else CoreAPISandboxBaseURL)) \<and>
    take 2 (snd (run h)) = [OpenPool (DatabaseURL cfg), StartSweeper (PaymentSweepInterval cfg)]"
proof (cases h rule: run_cases)
  case (early err acts)
  with assms show ?thesis by auto
next
  case (served err drained cfg)
  with assms drain_cases [OF served(1)] have "a = wire (ho_ext h) cfg" by auto
  with served Load_within [OF served(2)] show ?thesis
    by (intro exI [of _ cfg]) (simp add: wire_def NewMidtransGateway_def gatewayBaseURL_def)
qed

definition sample_host :: host where
  "sample_host = \<lparr>ho_dotenv = Missing, ho_environ = sample_environment, ho_config = config_sample,
     ho_tracing = \<lparr>tl_exporter = (\<lambda>_. None), tl_merge = Inr, tl_shutdown = None\<rparr>,
     ho_otel = \<lparr>ot_propagators = [], ot_provider = None\<rparr>,
     ho_pool = \<lparr>pl_ParseConfig = (\<lambda>_. None), pl_NewWithConfig = (\<lambda>_. None), pl_Ping = (\<lambda>_. None)\<rparr>,
     ho_ext = sample_api, ho_serve = StopSignal ''terminated'', ho_shutdown = None\<rparr>"

theorem serves_as_configured_witness:
  "\<exists>port a. Listen port a \<in> set (snd (run sample_host)) \<and> is_secret (a_issuer a) = ''secret'' \<and>
     mg_baseURL (a_gateway a) = CoreAPISandboxBaseURL"
proof -
  let ?cfg = "projr (Load config_sample sample_environment)"
  have "\<not> isl (Load config_sample sample_environment)" "JWTSecret ?cfg = ''secret'' \<and> MidtransBaseURL ?cfg = [] \<and>
    \<not> MidtransIsProduction ?cfg \<and> OTLPEndpoint ?cfg = [] \<and> DatabaseURL ?cfg \<noteq> []" by code_simp+
  then obtain cfg where cfg: "Load config_sample sample_environment = Inr cfg" and
    vals: "JWTSecret cfg = ''secret'' \<and> MidtransBaseURL cfg = [] \<and> \<not> MidtransIsProduction cfg \<and>
      OTLPEndpoint cfg = [] \<and> DatabaseURL cfg \<noteq> []"
    by (cases "Load config_sample sample_environment") simp_all
  from cfg vals have listens: "Listen (AppPort cfg) (wire sample_api cfg) \<in> set (snd (run sample_host))"
    by (simp add: run_def sample_host_def LoadDotEnv_def InitTracing_def tracing_config_def NewPool_def drain_def)
  from serves_as_configured [OF this] cfg vals
  have "is_secret (a_issuer (wire sample_api cfg)) = ''secret'' \<and> mg_baseURL (a_gateway (wire sample_api cfg)) = CoreAPISandboxBaseURL"
    by (auto simp: sample_host_def LoadDotEnv_def)
  with listens show ?thesis by blast
qed

end
