(* ===== verification/Seedadmin.thy ===== *)
theory Seedadmin
  imports Server
begin

text \<open>
  \<open>cmd/seedadmin\<close>: the command that creates an admin account or rotates its password. The environment
  and the pool are those of \<open>Server\<close>; hashing a password is bcrypt's.
\<close>

abbreviation minPasswordLength :: nat where "minPasswordLength \<equiv> 12"

definition sql_UpsertAdmin :: "string \<Rightarrow> string \<Rightarrow> unit sql" where
  "sql_UpsertAdmin email hash = (\<lambda>i t d.
     if has_key ad_email email (admins d)
     then Inr ((), d\<lparr>admins := upd_where (\<lambda>r. ad_email r = email) (\<lambda>r. r\<lparr>ad_password_hash := hash\<rparr>) (admins d)\<rparr>)
     else if has_key ad_id i (admins d) then Inl unique_violation
     else Inr ((), d\<lparr>admins := admins d @ [\<lparr>ad_id = i, ad_email = email, ad_password_hash = hash\<rparr>]\<rparr>))"

definition seedadmin_run :: "host \<Rightarrow> (string \<Rightarrow> goerror + string) \<Rightarrow> string \<Rightarrow> string \<Rightarrow> unit go" where
  "seedadmin_run h generate email password =
     (if email = [] \<or> password = [] then fail (Sentinel ''both -email and -password are required'')
      else if length password < minPasswordLength then
        fail (Errorf (Msg ''password must be at least %d characters'' [ArgI (int minPasswordLength)]) [])
      else case LoadDotEnv (ho_dotenv h) (ho_environ h) of
        (Some err, env) \<Rightarrow> fail err
      | (None, env) \<Rightarrow>
          Runtime.bind (lift (Load (ho_config h) env)) (\<lambda>cfg.
          case fst (NewPool (ho_pool h) (DatabaseURL cfg)) of
            Some err \<Rightarrow> fail err
          | None \<Rightarrow>
              handle (lift (generate password))
                (\<lambda>err. fail (Errorf (text_msg ''hash password: %w'') [err]))
                (\<lambda>hash. wrapping ''upsert admin: %w'' (stmt (sql_UpsertAdmin email hash)))))"

definition seedadmin_main ::
  "(string \<Rightarrow> string) \<Rightarrow> host \<Rightarrow> (string \<Rightarrow> goerror + string) \<Rightarrow> string \<Rightarrow> string \<Rightarrow> world \<Rightarrow> int \<times> world" where
  "seedadmin_main lc h generate email password w =
     (case seedadmin_run h generate (ToLower lc (TrimSpace email)) password w of
        (Inl err, w') \<Rightarrow> (1, w')
      | (Inr _, w') \<Rightarrow> (0, w'))"

section \<open>What the statement does\<close>

lemma upsert_admins:
  assumes run: "sql_UpsertAdmin email hash i t d = Inr (u, d')" and ok: "schema_ok d"
  shows "schema_ok d' \<and> (\<exists>row. find (\<lambda>r. ad_email r = email) (admins d') = Some row \<and> ad_password_hash row = hash) \<and>
    filter (\<lambda>r. ad_email r \<noteq> email) (admins d') = filter (\<lambda>r. ad_email r \<noteq> email) (admins d) \<and>
    d' = d\<lparr>admins := admins d'\<rparr>"
proof (cases "has_key ad_email email (admins d)")
  case True
  let ?f = "\<lambda>r. if ad_email r = email then r\<lparr>ad_password_hash := hash\<rparr> else r"
  have d': "d' = d\<lparr>admins := map ?f (admins d)\<rparr>"
    using run True by (auto simp: sql_UpsertAdmin_def upd_where_def)
  have keys: "map ad_id (map ?f (admins d)) = map ad_id (admins d)" "map ad_email (map ?f (admins d)) = map ad_email (admins d)"
    by simp_all
  have schema: "schema_ok d'" using ok keys by (simp add: schema_defs d' del: map_map)
  have found: "\<exists>row. find (\<lambda>r. ad_email r = email) (map ?f rs) = Some row \<and> ad_password_hash row = hash"
    if "has_key ad_email email rs" for rs
    using that by (induction rs) (auto simp: has_key_def)
  have others: "filter (\<lambda>r. ad_email r \<noteq> email) (map ?f rs) = filter (\<lambda>r. ad_email r \<noteq> email) rs" for rs
    by (induction rs) auto
  have d'': "admins d' = map ?f (admins d)" by (simp add: d')
  show ?thesis using schema found [OF True] unfolding d'' others by (simp add: d')
next
  case False
  then have d': "\<not> has_key ad_id i (admins d)"
      "d' = d\<lparr>admins := admins d @ [\<lparr>ad_id = i, ad_email = email, ad_password_hash = hash\<rparr>]\<rparr>"
    using run by (auto simp: sql_UpsertAdmin_def split: if_splits)
  have "find (\<lambda>r. ad_email r = email) (rs @ [r]) = (if ad_email r = email then Some r else None)"
    if "\<not> has_key ad_email email rs" for rs r
    using that by (induction rs) (auto simp: has_key_def)
  from this [OF False] have "find (\<lambda>r. ad_email r = email) (admins d') = Some \<lparr>ad_id = i, ad_email = email, ad_password_hash = hash\<rparr>"
    by (simp add: d')
  then show ?thesis using d' False ok by (auto simp: schema_defs)
qed

lemma seedadmin_ran:
  assumes run: "seedadmin_run h generate email password w = (Inr u, w')" and ok: "schema_ok (wdb w)"
  obtains hash row where "generate password = Inr hash" "minPasswordLength \<le> length password" "schema_ok (wdb w')"
    "find (\<lambda>r. ad_email r = email) (admins (wdb w')) = Some row" "ad_password_hash row = hash"
    "filter (\<lambda>r. ad_email r \<noteq> email) (admins (wdb w')) = filter (\<lambda>r. ad_email r \<noteq> email) (admins (wdb w))"
    "wdb w' = wdb w\<lparr>admins := admins (wdb w')\<rparr>"
proof -
  from run obtain hash where hash: "generate password = Inr hash" and len: "minPasswordLength \<le> length password"
    and up: "wrapping ''upsert admin: %w'' (stmt (sql_UpsertAdmin email hash)) w = (Inr u, w')"
    by (auto simp: seedadmin_run_def bind_Inr lift_def handle_def split: if_splits option.splits sum.splits prod.splits)
  from up obtain i t where "sql_UpsertAdmin email hash i t (wdb w) = Inr (u, wdb w')"
    by (auto simp: wrapping_def handle_def stmt_def split: prod.splits sum.splits if_splits)
  from upsert_admins [OF this ok] hash len show thesis by (auto intro: that)
qed

lemma Login_accepts:
  assumes "Login lib t req v = (r, v')"
    and "find (\<lambda>x. ad_email x = ToLower (al_lower lib) (TrimSpace (lr_email req))) (admins (wdb v)) = Some row"
    and "al_bcrypt lib (ad_password_hash row) (lr_password req) = None"
  shows "r \<noteq> Inl invalidCredentials"
proof -
  let ?email = "ToLower (al_lower lib) (TrimSpace (lr_email req))"
  obtain q v1 where get: "admin_GetByEmail ?email v = (q, v1)" by fastforce
  show ?thesis
  proof (cases q)
    case (Inl e)
    with assms get GetByEmail_run [OF get] show ?thesis
      by (auto simp: Login_def Let_def handle_def invalidCredentials_def apperr_defs)
  next
    case (Inr ac)
    with GetByEmail_run [OF get] assms(2) have ac: "ac = \<lparr>ac_id = ad_id row, ac_email = ad_email row, ac_password_hash = ad_password_hash row\<rparr>"
      by auto
    obtain x v2 where issue: "Issue lib t (ad_id row) (ad_email row) v1 = (x, v2)" by fastforce
    then have "x = Inl e \<Longrightarrow> e \<noteq> invalidCredentials" for e
      by (auto simp: invalidCredentials_def apperr_defs dest!: Issue_Inl)
    with assms get Inr ac issue show ?thesis
      by (cases x) (auto simp: Login_def Let_def handle_def bind_run split: prod.splits)
  qed
qed

section \<open>Properties\<close>

text \<open>
  C40: After the command has succeeded, and as long as the accounts stay as it left them, logging in
  with the same password and the same email, up to case and surrounding space, is never refused for
  the credentials. The command takes no password shorter than
  twelve bytes, touches no other account and keeps the schema. Of bcrypt it needs only that a
  password matches the hash made of it.
\<close>

theorem seeded_admin_can_log_in:
  assumes run: "seedadmin_main (al_lower lib) h generate email password w = (0, w')" and ok: "schema_ok (wdb w)"
    and bcrypt: "\<And>hash. generate password = Inr hash \<Longrightarrow> al_bcrypt lib hash password = None"
    and login: "Login lib t \<lparr>lr_email = email', lr_password = password\<rparr> v = (r, v')" "admins (wdb v) = admins (wdb w')"
    and same: "ToLower (al_lower lib) (TrimSpace email') = ToLower (al_lower lib) (TrimSpace email)"
  shows "r \<noteq> Inl invalidCredentials \<and> 12 \<le> length password \<and> schema_ok (wdb w') \<and>
    filter (\<lambda>x. ad_email x \<noteq> ToLower (al_lower lib) (TrimSpace email)) (admins (wdb w')) =
    filter (\<lambda>x. ad_email x \<noteq> ToLower (al_lower lib) (TrimSpace email)) (admins (wdb w))"
proof -
  let ?email = "ToLower (al_lower lib) (TrimSpace email)"
  from run obtain u where "seedadmin_run h generate ?email password w = (Inr u, w')"
    by (auto simp: seedadmin_main_def split: prod.splits sum.splits)
  from seedadmin_ran [OF this ok] obtain hash row where *: "generate password = Inr hash" "12 \<le> length password"
      "schema_ok (wdb w')" "find (\<lambda>r. ad_email r = ?email) (admins (wdb w')) = Some row" "ad_password_hash row = hash"
      "filter (\<lambda>r. ad_email r \<noteq> ?email) (admins (wdb w')) = filter (\<lambda>r. ad_email r \<noteq> ?email) (admins (wdb w))" .
  with bcrypt Login_accepts [OF login(1), of row] login(2) same show ?thesis by simp
qed

theorem seeded_admin_can_log_in_witness:
  "fst (seedadmin_main (\<lambda>s. s) sample_host Inr '' NEW@x '' ''correct horse'' sample_world) = 0 \<and>
   fst (sample_login ''new@X'' ''correct horse'' (snd (seedadmin_main (\<lambda>s. s) sample_host Inr '' NEW@x '' ''correct horse'' sample_world)))
     \<noteq> Inl invalidCredentials"
proof -
  let ?seeded = "seedadmin_main (\<lambda>s. s) sample_host Inr '' NEW@x '' ''correct horse'' sample_world"
  have zero: "fst ?seeded = 0" by code_simp
  then have run: "seedadmin_main (al_lower sample_lib) sample_host Inr '' NEW@x '' ''correct horse'' sample_world = (0, snd ?seeded)"
    by (simp add: sample_lib_def signing_lib_def prod_eq_iff)
  have "schema_ok (wdb sample_world)" by (rule sample_world_schema)
  moreover have "ToLower (al_lower sample_lib) (TrimSpace ''new@X'') = ToLower (al_lower sample_lib) (TrimSpace '' NEW@x '')"
    by code_simp
  ultimately have "fst (Login sample_lib sample_issuer \<lparr>lr_email = ''new@X'', lr_password = ''correct horse''\<rparr> (snd ?seeded)) \<noteq>
      Inl invalidCredentials"
    using seeded_admin_can_log_in [OF run _ _ surjective_pairing refl] by (simp add: sample_lib_def signing_lib_def)
  with zero
  show ?thesis by (simp add: sample_login_def sample_lib_def)
qed

end
