(* ===== verification/Money.thy ===== *)
theory Money
  imports Codes Errors
begin

text \<open>
  \<open>pkg/money\<close>: amounts on the wire. A \<open>decimal.Decimal\<close> is the rational it denotes; rendering one at
  a fixed scale and parsing one are the decimal package's. Of \<open>encoding/json\<close> the strings are written
  out, except for what it does with bytes outside ASCII and with \<open>\u\<close> escapes, which go through
  the Unicode routines.
\<close>

section \<open>JSON strings\<close>

record money_lib =
  ml_StringFixed :: "decimal \<Rightarrow> nat \<Rightarrow> string"
  ml_NewFromString :: "string \<Rightarrow> goerror + decimal"
  ml_encode_unicode :: "string \<Rightarrow> string"
  ml_decode_unicode :: "string \<Rightarrow> goerror + string"

definition hex_digit :: "nat \<Rightarrow> char" where
  "hex_digit n = char_of (if n < 10 then 48 + n else 87 + n)"

definition json_escape :: "char \<Rightarrow> string" where
  "json_escape c =
     (if c = CHR 0x22 \<or> c = CHR 0x5C then [CHR 0x5C, c]
      else if c = CHR 0x08 then [CHR 0x5C, CHR ''b''] else if c = CHR 0x0C then [CHR 0x5C, CHR ''f'']
      else if c = CHR 0x0A then [CHR 0x5C, CHR ''n''] else if c = CHR 0x0D then [CHR 0x5C, CHR ''r'']
      else if c = CHR 0x09 then [CHR 0x5C, CHR ''t'']
      else if of_char c < (32 :: nat) \<or> c = CHR ''<'' \<or> c = CHR ''>'' \<or> c = CHR ''&'' then
        [CHR 0x5C] @ ''u00'' @ [hex_digit (of_char c div 16), hex_digit (of_char c mod 16)]
      else [c])"

definition json_Marshal :: "money_lib \<Rightarrow> string \<Rightarrow> string" where
  "json_Marshal lib s =
     [CHR 0x22] @ (if is_ascii s then concat (map json_escape s) else ml_encode_unicode lib s) @ [CHR 0x22]"

definition json_escaped :: "char \<Rightarrow> char option" where
  "json_escaped e = map_of
     [(CHR 0x22, CHR 0x22), (CHR 0x5C, CHR 0x5C), (CHR ''/'', CHR ''/''), (CHR ''b'', CHR 0x08), (CHR ''f'', CHR 0x0C),
      (CHR ''n'', CHR 0x0A), (CHR ''r'', CHR 0x0D), (CHR ''t'', CHR 0x09)] e"

text \<open>From behind the opening quote: the characters up to the closing one, and what follows it.\<close>

fun json_chars :: "string \<Rightarrow> (string \<times> string) option" where
  "json_chars [] = None"
| "json_chars (c # cs) =
     (if c = CHR 0x22 then Some ([], cs)
      else if c = CHR 0x5C then
        (case cs of [] \<Rightarrow> None | e # rest \<Rightarrow>
           (case json_escaped e of None \<Rightarrow> None | Some d \<Rightarrow> map_option (apfst (Cons d)) (json_chars rest)))
      else if of_char c < (32 :: nat) then None
      else map_option (apfst (Cons c)) (json_chars cs))"

definition json_space :: "char \<Rightarrow> bool" where
  "json_space c \<longleftrightarrow> List.member [CHR '' '', CHR 0x09, CHR 0x0A, CHR 0x0D] c"

text \<open>\<open>json.Unmarshal\<close> of a document that starts with a quote, into a string.\<close>

definition json_Unmarshal :: "money_lib \<Rightarrow> string \<Rightarrow> goerror + string" where
  "json_Unmarshal lib doc =
     (if \<not> is_ascii doc \<or> list_ex (\<lambda>(x, y). x = CHR 0x5C \<and> y = CHR ''u'') (zip doc (tl doc))
      then ml_decode_unicode lib doc
      else case dropWhile json_space doc of
        [] \<Rightarrow> Inl (DriverError ''json'')
      | q # cs \<Rightarrow>
          if q \<noteq> CHR 0x22 then Inl (DriverError ''json'')
          else case json_chars cs of
            None \<Rightarrow> Inl (DriverError ''json'')
          | Some (s, rest) \<Rightarrow> if list_all json_space rest then Inr s else Inl (DriverError ''json''))"

section \<open>Money\<close>

record Money =
  amount :: decimal

abbreviation scale :: nat where
  "scale \<equiv> 2"

definition From :: "decimal \<Rightarrow> Money" where
  "From d = \<lparr>amount = d\<rparr>"

definition Decimal :: "Money \<Rightarrow> decimal" where
  "Decimal m = amount m"

definition Money_String :: "money_lib \<Rightarrow> Money \<Rightarrow> string" where
  "Money_String lib m = ml_StringFixed lib (amount m) scale"

definition MarshalJSON :: "money_lib \<Rightarrow> Money \<Rightarrow> string" where
  "MarshalJSON lib m = json_Marshal lib (Money_String lib m)"

text \<open>The receiver is overwritten on success and left alone on an error.\<close>

definition UnmarshalJSON :: "money_lib \<Rightarrow> string \<Rightarrow> Money \<Rightarrow> goerror option \<times> Money" where
  "UnmarshalJSON lib doc m =
     (let parse = (\<lambda>txt. case ml_NewFromString lib txt of
            Inl err \<Rightarrow> (Some (Errorf (Msg ''money: %q is not a valid decimal amount'' [ArgS txt]) []), m)
          | Inr parsed \<Rightarrow> (None, m\<lparr>amount := parsed\<rparr>));
          txt = TrimSpace doc
      in if txt = ''null'' then (None, m\<lparr>amount := 0\<rparr>)
         else if has_prefix [CHR 0x22] txt then
           (case json_Unmarshal lib doc of
              Inl err \<Rightarrow> (Some (Errorf (text_msg ''money: %w'') [err]), m)
            | Inr s \<Rightarrow> parse (TrimSpace s))
         else parse txt)"

section \<open>Characters that travel unchanged\<close>

definition wire_char :: "char \<Rightarrow> bool" where
  "wire_char c \<longleftrightarrow> c \<in> set ''-.0123456789''"

lemma wire_graphic: "wire_char c \<Longrightarrow> graphic c"
  by (auto simp: wire_char_def graphic_def)

lemma wire_plain: "wire_char c \<Longrightarrow> c \<noteq> CHR 0x22 \<and> c \<noteq> CHR 0x5C \<and> \<not> of_char c < (32 :: nat)"
  by (auto simp: wire_char_def)

lemma wire_escape: "wire_char c \<Longrightarrow> json_escape c = [c]"
proof -
  have "list_all (\<lambda>c. json_escape c = [c]) ''-.0123456789''" by code_simp
  then show "wire_char c \<Longrightarrow> json_escape c = [c]" unfolding wire_char_def list_all_iff by blast
qed

lemma wire_ascii: "list_all wire_char s \<Longrightarrow> is_ascii s"
  by (induction s) (auto simp: is_ascii_def graphic_def dest!: wire_graphic)

lemma wire_json_chars: "list_all wire_char s \<Longrightarrow> json_chars (s @ [CHR 0x22]) = Some (s, [])"
proof (induction s)
  case (Cons c s)
  with wire_plain [of c] show ?case by simp
qed simp

lemma wire_TrimSpace: "list_all wire_char s \<Longrightarrow> TrimSpace s = s"
  by (intro TrimSpace_graphic) (auto simp: list_all_iff intro: wire_graphic)

lemma wire_concat: "list_all wire_char s \<Longrightarrow> concat (map json_escape s) = s"
  by (induction s) (auto simp: wire_escape)

section \<open>Amounts of two decimals\<close>

text \<open>The text of a number of hundredths.\<close>

definition amount_text :: "int \<Rightarrow> string" where
  "amount_text k =
     (if k < 0 then ''-'' else []) @ decimal_digits (nat \<bar>k\<bar> div 100) @ ''.'' @ pad_zero 2 (decimal_digits (nat \<bar>k\<bar> mod 100))"

lemma digit_char: "c \<in> set (decimal_digits n) \<Longrightarrow> c \<in> set ''0123456789''"
proof -
  assume "c \<in> set (decimal_digits n)"
  from decimal_digits_range [OF this] have "(of_char c :: nat) \<in> of_char ` set ''0123456789''"
    by simp presburger
  then show ?thesis by (auto simp del: list.set)
qed

lemma wire_decimal_digits: "list_all wire_char (decimal_digits n)"
  using digit_char [of _ n] by (auto simp: list_all_iff wire_char_def)

lemma wire_pad: "list_all wire_char s \<Longrightarrow> list_all wire_char (pad_zero n s)"
proof -
  have "wire_char CHR ''0''" by (simp add: wire_char_def)
  then show "list_all wire_char s \<Longrightarrow> list_all wire_char (pad_zero n s)" by (auto simp: pad_zero_def list_all_iff)
qed

lemma wire_amount_text: "list_all wire_char (amount_text k)"
proof -
  have "list_all wire_char ''-''" "list_all wire_char ''.''" by (simp_all add: wire_char_def)
  then show ?thesis by (simp add: amount_text_def wire_decimal_digits wire_pad)
qed

text \<open>
  C38: Every amount the database can hold, a whole number of hundredths, goes over the wire as a quoted
  string with exactly two decimals and reads back as itself, whatever the receiver held; the same
  text without the quotes, a JSON number, reads as the same amount. The decimal package is asked for
  its documented behaviour only: it prints an amount at scale two and parses what it prints.
\<close>

theorem Money_roundtrip:
  assumes prints: "\<And>k. ml_StringFixed lib (of_int k / 100) 2 = amount_text k"
    and parses: "\<And>k. ml_NewFromString lib (amount_text k) = Inr (of_int k / 100)"
  shows "MarshalJSON lib (From (of_int k / 100)) = [CHR 0x22] @ amount_text k @ [CHR 0x22] \<and>
    UnmarshalJSON lib (MarshalJSON lib (From (of_int k / 100))) m = (None, From (of_int k / 100)) \<and>
    UnmarshalJSON lib (amount_text k) m = (None, From (of_int k / 100))"
proof -
  let ?t = "amount_text k" and ?doc = "[CHR 0x22] @ amount_text k @ [CHR 0x22]"
  note wire = wire_amount_text [of k]
  note chars = wire_concat [OF wire]
  have marshal: "MarshalJSON lib (From (of_int k / 100)) = ?doc"
    using wire_ascii [OF wire] by (simp add: MarshalJSON_def From_def Money_String_def prints json_Marshal_def chars)
  have "?t \<noteq> ''null''" "\<not> has_prefix [CHR 0x22] ?t"
    using wire by (cases ?t; auto simp: wire_char_def)+
  moreover have trim: "TrimSpace ?doc = ?doc" by (rule TrimSpace_graphic) (simp add: graphic_def)
  moreover have "CHR 0x5C \<notin> set ?doc" using wire wire_plain by (auto simp: list_all_iff)
  then have "\<not> list_ex (\<lambda>(x, y). x = CHR 0x5C \<and> y = CHR ''u'') (zip ?doc (tl ?doc))"
    by (auto simp: list_ex_iff simp del: append.simps dest!: set_zip_leftD)
  then have json: "json_Unmarshal lib ?doc = Inr ?t"
    using wire_ascii [OF wire] wire_json_chars [OF wire]
    by (simp add: json_Unmarshal_def is_ascii_def json_space_def)
  ultimately show ?thesis
    by (simp add: marshal UnmarshalJSON_def Let_def parses wire_TrimSpace [OF wire]) (simp add: From_def)
qed

text \<open>A decimal package for amounts in hundredths: it rounds half away from zero, and reads what it prints.\<close>

definition hundredths :: "decimal \<Rightarrow> int" where
  "hundredths a = (if a < 0 then - \<lfloor>- a * 100 + 1 / 2\<rfloor> else \<lfloor>a * 100 + 1 / 2\<rfloor>)"

definition read_amount :: "string \<Rightarrow> goerror + decimal" where
  "read_amount s =
     (let neg = s \<noteq> [] \<and> hd s = CHR ''-''; u = (if neg then tl s else s);
          w = takeWhile (\<lambda>c. c \<noteq> CHR ''.'') u; f = tl (dropWhile (\<lambda>c. c \<noteq> CHR ''.'') u)
      in if length f \<noteq> 2 then Inl (DriverError ''decimal'')
         else Inr ((if neg then - 1 else 1) * (of_nat (digits_value w) + of_nat (digits_value f) / 100)))"

definition money_sample :: money_lib where
  "money_sample = \<lparr>ml_StringFixed = (\<lambda>a n. amount_text (hundredths a)), ml_NewFromString = read_amount,
     ml_encode_unicode = (\<lambda>s. s), ml_decode_unicode = (\<lambda>_. Inl (DriverError ''json''))\<rparr>"

lemma hundredths_of: "hundredths (of_int k / 100) = k"
  by (simp add: hundredths_def floor_eq_iff)

lemma digits_value_pad [simp]: "digits_value (pad_zero n s) = digits_value s"
proof -
  have "digits_value (replicate m CHR ''0'' @ s) = digits_value s" for m
    by (induction m) (simp_all add: digits_value_def)
  then show ?thesis by (simp add: pad_zero_def)
qed

lemma decimal_digits_plain: "c \<in> set (decimal_digits n) \<Longrightarrow> c \<noteq> CHR ''.'' \<and> c \<noteq> CHR ''-''"
  using digit_char [of c n] by auto

lemma length_decimal_digits_100: "n < 100 \<Longrightarrow> length (decimal_digits n) \<le> 2"
  by (cases "n < 10") (auto simp: decimal_digits.simps [of n] decimal_digits.simps [of "n div 10"])

lemma read_parts:
  assumes "\<And>c. c \<in> set w \<Longrightarrow> c \<noteq> CHR ''.'' \<and> c \<noteq> CHR ''-''" and "w \<noteq> []" and "length f = 2"
  shows "read_amount (w @ CHR ''.'' # f) = Inr (of_nat (digits_value w) + of_nat (digits_value f) / 100)"
    and "read_amount (CHR ''-'' # w @ CHR ''.'' # f) = Inr (- (of_nat (digits_value w) + of_nat (digits_value f) / 100))"
proof -
  have "takeWhile (\<lambda>c. c \<noteq> CHR ''.'') (w @ CHR ''.'' # f) = w"
    and "tl (dropWhile (\<lambda>c. c \<noteq> CHR ''.'') (w @ CHR ''.'' # f)) = f"
    using assms(1) by (simp_all add: takeWhile_append2 dropWhile_append2)
  then show "read_amount (w @ CHR ''.'' # f) = Inr (of_nat (digits_value w) + of_nat (digits_value f) / 100)"
    and "read_amount (CHR ''-'' # w @ CHR ''.'' # f) = Inr (- (of_nat (digits_value w) + of_nat (digits_value f) / 100))"
    using assms by (simp_all add: read_amount_def Let_def)
qed

lemma read_amount_text: "read_amount (amount_text k) = Inr (of_int k / 100)"
proof -
  define n where "n = nat \<bar>k\<bar>"
  define w where "w = decimal_digits (n div 100)"
  define f where "f = pad_zero 2 (decimal_digits (n mod 100))"
  have "w \<noteq> []" unfolding w_def by (subst decimal_digits.simps) simp
  moreover have "length f = 2" unfolding f_def by (intro length_pad_zero length_decimal_digits_100) simp
  moreover have "c \<in> set w \<Longrightarrow> c \<noteq> CHR ''.'' \<and> c \<noteq> CHR ''-''" for c
    unfolding w_def by (rule decimal_digits_plain)
  ultimately have read: "read_amount (amount_text k) =
      Inr ((if k < 0 then - 1 else 1) * (of_nat (digits_value w) + of_nat (digits_value f) / 100))"
    using read_parts [of w f] by (simp add: amount_text_def flip: n_def w_def f_def)
  have "(of_nat n :: rat) = of_nat (n div 100 * 100 + n mod 100)" by simp
  then have "(of_nat n :: rat) = of_nat (n div 100) * 100 + of_nat (n mod 100)"
    by (simp only: of_nat_add of_nat_mult of_nat_numeral)
  then have "(of_nat (digits_value w) + of_nat (digits_value f) / 100 :: rat) = of_nat n / 100"
    by (simp add: w_def f_def)
  moreover have "(if k < 0 then - 1 else 1) * (of_nat n :: rat) = of_int k" by (simp add: n_def)
  ultimately show ?thesis by (simp only: read times_divide_eq_right)
qed

theorem Money_roundtrip_witness:
  "MarshalJSON money_sample (From (351 / 2)) = [CHR 0x22] @ ''175.50'' @ [CHR 0x22] \<and>
   UnmarshalJSON money_sample ([CHR 0x22] @ ''175.50'' @ [CHR 0x22]) (From 3) = (None, From (351 / 2)) \<and>
   UnmarshalJSON money_sample ''175.50'' (From 3) = (None, From (351 / 2))"
proof -
  have "char_of (49 :: nat) = CHR ''1''" "char_of (55 :: nat) = CHR ''7''" "char_of (53 :: nat) = CHR ''5''"
    "char_of (48 :: nat) = CHR ''0''" by code_simp+
  then have "amount_text 17550 = ''175.50''"
    by (simp add: amount_text_def pad_zero_def decimal_digits.simps)
  moreover have "ml_StringFixed money_sample (of_int k / 100) 2 = amount_text k"
    and "ml_NewFromString money_sample (amount_text k) = Inr (of_int k / 100)" for k
    by (simp_all add: money_sample_def hundredths_of read_amount_text)
  note trip = Money_roundtrip [OF this, of 17550 "From 3"]
  ultimately have "MarshalJSON money_sample (From (of_int 17550 / 100)) = [CHR 0x22] @ ''175.50'' @ [CHR 0x22]"
    by (simp only:)
  from trip [unfolded this \<open>amount_text 17550 = ''175.50''\<close>] this show ?thesis by simp
qed

end
