(* ===== verification/Spec2Isabelle.thy ===== *)
theory Spec2Isabelle
  imports Liveness Seedadmin Money
begin

text \<open>
  A verification library for the backend of the event portal (\<open>backend/\<close>, Go): a shop for event
  tickets. A guest picks seats and checks out; the order holds its seats while a QRIS code can be paid
  at the provider (Midtrans); a signed notification, a refresh by the guest or a sweep past the deadline
  settles it; a paid order gets one ticket per attendee and an email; the door validates and uses up
  tickets; admins keep events and ticket types and read orders and attendees.

  \<^bold>\<open>How a program is modelled.\<close> A Go function is a function on the world (\<open>Runtime\<close>): it takes the world
  and returns an error or a value, with the new world. The world holds the database, a log, the
  goroutines started, and an oracle for each thing the code reads from outside: whether the next
  statement fails, the clock, the random source, new UUIDs, the order in which a query meets the rows.
  Nothing is assumed of the oracles, so a property of a run covers every fault at every statement and
  every order the database may answer rows in where \<open>ORDER BY\<close> leaves it open. An SQL statement is a
  function on the tables (\<open>Database\<close>) with the constraints it can violate; \<open>InTx\<close> runs a body and puts
  the database back when the body or the commit fails, and \<open>InTx_amid\<close> does so with other transactions
  committing between the statements of the body. Errors are values (\<open>Errors\<close>) with Go's chains, \<open>errors.Is\<close> and
  \<open>errors.As\<close>; \<open>int32\<close> is a 32-bit word, a \<open>time.Time\<close> or duration a number of nanoseconds, a string its
  list of bytes, a decimal the rational it denotes.

  \<^bold>\<open>Theories and the code they model.\<close>
  \<^item> \<open>Prelude\<close>, \<open>Errors\<close>, \<open>Runtime\<close>, \<open>Regexp\<close>, \<open>Codes\<close>, \<open>Gotime\<close>: Go's basic types and the string
    functions used; \<open>pkg/apperr\<close>, \<open>pkg/httpx/error_handler.go\<close> and log levels; the world, transactions
    (\<open>pkg/db\<close>) and the reasoning rules; the slug pattern; \<open>pkg/randcode\<close>, order numbers and ticket codes;
    parsing the provider's times.
  \<^item> \<open>Database\<close>, \<open>Event_Sql\<close>, \<open>Order_Sql\<close>, \<open>Ticket_Sql\<close>: the tables of \<open>migrations/\<close> with \<open>schema_ok\<close>, their keys,
    foreign keys and checks, and every statement of the \<open>queries/\<close> directories. \<open>Ledger\<close> is the abstract
    view: per ticket type, seats left plus seats held.
  \<^item> \<open>Event_Repo\<close>, \<open>Event_Service\<close>, \<open>Handlers\<close>: \<open>internal/event\<close>, catalogue, quota and admin operations.
  \<^item> \<open>Order_Dto\<close>, \<open>Order_Repo\<close>, \<open>Checkout\<close>, \<open>Order_Views\<close>: \<open>internal/order\<close>, from validation over the reservation,
    its retry, the payment session and the compensation, to the guest page and the admin lists.
  \<^item> \<open>Payment_Status\<close>, \<open>Payment\<close>, \<open>Midtrans\<close>: \<open>internal/payment\<close>, status mapping, webhook, refresh, expiry,
    fulfilment, and the gateway with its signature check.
  \<^item> \<open>Ticket\<close>, \<open>Notification\<close>, \<open>Admin\<close>: \<open>internal/ticket\<close>, \<open>internal/notification\<close> (the PDF as the list of
    calls that draw it), \<open>internal/admin\<close> (login, tokens, middleware).
  \<^item> \<open>Order_Adapters\<close>, \<open>Payment_Adapters\<close>, \<open>Delivery_Adapters\<close>, \<open>View_Adapters\<close>, \<open>Api\<close>: \<open>cmd/api/adapters.go\<close> and
    the routes of \<open>cmd/api/main.go\<close> with their guards, \<open>pkg/httpx/rate_limit.go\<close>, and \<open>serve\<close>, a request
    from the router to the error handler's reply.
  \<^item> \<open>Config\<close>, \<open>Money\<close>, \<open>Observability\<close>, \<open>Server\<close>, \<open>Seedadmin\<close>: \<open>pkg/config\<close>, \<open>pkg/money\<close>, \<open>pkg/observability\<close> with
    the trace handler of \<open>pkg/logger\<close>, startup and shutdown with the sweeper's loop and the pool, and
    \<open>cmd/seedadmin\<close>.
  \<^item> \<open>System\<close>: the whole backend as a step relation, one step a transaction or a statement outside one, with
    what each thread remembers between its steps. \<open>Programs\<close> proves that \<open>serve\<close>, the sweep and the
    goroutines are paths of it.

  \<^bold>\<open>Interfaces.\<close> Where a component relies on another, a locale states the contract and an interpretation
  discharges it on the model of the code: \<open>order_checker\<close> (event on order, in \<open>Order_Repo\<close>),
  \<open>quota_restorer\<close>, \<open>event_provider\<close> and \<open>checkout\<close> (order on event and payment, in \<open>Order_Adapters\<close> and
  \<open>Payment_Adapters\<close>), \<open>payment_service\<close> (payment on order and event, in \<open>Payment_Adapters\<close>),
  \<open>attendee_provider\<close> (in \<open>Ticket\<close>), \<open>delivery\<close> and \<open>event_lookup\<close> (in the adapters). \<open>guarantee\<close> in \<open>Runtime\<close>
  is the rule set for reflexive and transitive relations between the database before and after;
  \<open>idling\<close> in \<open>Programs\<close> the one for following a step relation.

  \<^bold>\<open>What is shown.\<close>
  \<^item> Of the system, over every interleaving (\<open>System_Invariants\<close>, \<open>Lifecycle\<close>, \<open>System_Properties\<close>): seats are
    conserved and never oversold, an order is paid only on a signed notification or an answered query
    about its own number, fulfilment starts once, each attendee of a paid order gets at most one ticket,
    a final status lasts, totals are the sum of the stored lines, the schema always holds.
  \<^item> Of progress (\<open>Liveness\<close>): when statements succeed, a sweep expires the overdue orders and returns
    their seats; \<open>room\<close> asks that the seats on sale fit the 32-bit column they return to.
  \<^item> Of each component: the outcome of a checkout on every branch and what it writes, row by row (below),
    deletions under their guard with other transactions committing in between, issuing, validating and using tickets, delivery, login and tokens, the guard of the admin routes, the
    error envelope, the guest page and the admin lists, the configuration's report, the round trip of
    amounts, metrics, the order of startup and shutdown, the seeded account.
  \<^item> Witnesses apply the properties to the small shop of \<open>Sample\<close> and to the days of it in
    \<open>System_Properties\<close>.

  \<^bold>\<open>Recursion and bounds.\<close> Loops over lists are structural; \<open>TrimSpace\<close>, \<open>ParseDuration\<close> and the regular
  expressions recurse on a string that shrinks; retries run down the code's own constants. The only
  loop that may not end, the sweeper's, is a partial function on a stream of signals, and
  \<open>sweeper_runs_until_cancelled\<close> says exactly when it returns. There is no fuel.

  \<^bold>\<open>Assumptions.\<close> A statement is atomic. Transactions run at \<open>READ COMMITTED\<close>; those that decide by a
  guarded update or a unique key (reservation, status change with the seats it returns, compensation,
  issue of tickets) hold the row's lock until they commit and are taken as one step. The guard of an
  admin's deletion locks nothing, so deletions are also modelled with rivals: \<open>deletes_guarded\<close> shows
  that the foreign keys then stop what the guard no longer does, and in \<open>System\<close> the deleting statements
  are steps of their own. An admin's edit of a ticket type is ordered before or after a whole
  reservation, though it may also commit between the reservation's reading the price and its deduction;
  the invariants whose steps include admins say of quotas only that they stay in range. A commit that
  fails has not committed. A crash
  is a thread that takes no further step, except that starting a goroutine goes with the step that
  committed the payment. Libraries are arguments: HTTP, JSON decoding of requests and provider replies,
  SHA-512, JWT, bcrypt, mail, QR and PDF drawing, rate limiter buckets, decimal printing, tracing;
  properties that need a documented behaviour of one of them name it as a hypothesis, restricted to the
  arguments it is documented for (the token library's to claims that JSON keeps, with no \<open>nbf\<close>).

  \<^bold>\<open>Not modelled.\<close> Column lengths, NUMERIC precision and indexes of the schema; request ids, CORS, the
  recovery middleware and the text of log attributes; the JSON log handler, the metrics exposition and the
  named tracer, which only call libraries; generated interfaces of the query packages
  (\<open>db.go\<close>, \<open>models.go\<close> beyond the rows); \<open>internal/testsupport\<close> and the tests; the frontend and the
  deployment files.
\<close>

section \<open>A checkout to evaluate\<close>

definition sample_request :: CheckoutRequest where
  "sample_request = \<lparr>cr_buyer_name = ''Dan'', cr_buyer_email = ''dan@x'', cr_buyer_phone = ''1'',
     cr_items = [\<lparr>ci_type = 2, ci_quantity = 1\<rparr>],
     cr_attendees = [\<lparr>ca_type = 2, ca_name = ''Dan'', ca_email = ''dan@x''\<rparr>]\<rparr>"

definition sample_checkout :: "OrderResponse go" where
  "sample_checkout = Checkout (\<lambda>_. True) (\<lambda>m. m) eventProviderAdapter
     (gatewayAdapter (midtransGateway sample_env sample_gateway)) sample_request"

section \<open>Checkout\<close>

lemma checkout_outcome:
  assumes "schema_ok (wdb w)"
    and "Checkout P iter eventProviderAdapter (gatewayAdapter (midtransGateway env g)) req w = (r, w')"
  obtains (unchanged) e where "r = Inl e" "wdb w' = wdb w"
    | (stuck) row d1 err msg where "r = Inl (Wrap err 502 CodePaymentInitiationFailed msg)"
        "order_placed req row (wdb w) d1" "schema_ok d1" "row_written (ord_id row) d1 (wdb w')" "wdb w' = d1"
    | (undone) row d1 err msg where "r = Inl (Wrap err 502 CodePaymentInitiationFailed msg)"
        "order_placed req row (wdb w) d1" "schema_ok d1" "row_written (ord_id row) d1 (wdb w')"
        "order_released (ord_id row) OrderStatusCancelled d1 (wdb w')"
    | (placed) resp row d1 where "r = Inr resp" "CheckoutRequest_Validate P iter req = None"
        "order_placed req row (wdb w) d1" "schema_ok d1" "row_written (ord_id row) d1 (wdb w')" "statuses_kept d1 (wdb w')"
        "resp_number resp = ord_number row" "resp_order_status resp = OrderStatusPending"
        "resp_total resp = total_price (wdb w) (cr_items req)"
proof -
  note run = checkouts.checkout_run [OF assms(2,1)]
  show thesis
  proof (cases r)
    case (Inl e)
    with run have "wdb w' = wdb w \<or>
         (\<exists>row d1 err msg. order_placed req row (wdb w) d1 \<and> schema_ok d1 \<and>
            e = Wrap err 502 CodePaymentInitiationFailed msg \<and> row_written (ord_id row) d1 (wdb w') \<and>
            (wdb w' = d1 \<or> order_released (ord_id row) OrderStatusCancelled d1 (wdb w')))"
      by simp
    with Inl unchanged stuck undone show thesis by blast
  next
    case (Inr resp)
    with run have "CheckoutRequest_Validate P iter req = None"
      and "\<exists>row d1. order_placed req row (wdb w) d1 \<and> schema_ok d1 \<and> statuses_kept d1 (wdb w') \<and>
            row_written (ord_id row) d1 (wdb w') \<and> resp_number resp = ord_number row \<and> resp_order_status resp = OrderStatusPending \<and>
            resp_total resp = total_price (wdb w) (cr_items req)"
      by simp_all
    with Inr placed show thesis by blast
  qed
qed

lemma order_placed_old:
  assumes "schema_ok d" and "order_placed req row d d1" and "order_status d i = Some s"
  shows "i \<noteq> ord_id row" and "order_status d1 i = Some s" and "lines_of d1 i = lines_of d i"
proof -
  show i: "i \<noteq> ord_id row" and "order_status d1 i = Some s"
    using order_placed_status [OF assms(2)] assms(3) by auto
  show "lines_of d1 i = lines_of d i" using order_placed_lines(2) [OF assms(1,2) i] .
qed

lemma statuses_kept_frame:
  assumes "statuses_kept d d'"
  shows "order_status d' = order_status d" and "quota_of d' = quota_of d"
    and "order_items d' = order_items d" and "lines_of d' = lines_of d"
proof -
  from assms obtain os where d': "d' = d\<lparr>orders := os\<rparr>" unfolding statuses_kept_def by blast
  from assms show "order_status d' = order_status d" unfolding statuses_kept_def by iprover
  show "quota_of d' = quota_of d" "order_items d' = order_items d"
    by (simp_all add: d' quota_of_def fun_eq_iff)
  then show "lines_of d' = lines_of d" by (intro lines_of_cong)
qed

text \<open>
  Once an order is placed, whatever the checkout still writes goes to the row of that order and to
  the quotas: the tables are what they were, with the new order, its lines and its attendees added.
\<close>

lemma order_placed_written:
  assumes placed: "order_placed req row d d1" and written: "row_written (ord_id row) d1 d'"
  obtains row' its ats where "orders d' = orders d @ [row']" "purchase_part row' = purchase_part row"
    and "order_items d' = order_items d @ its" "attendees d' = attendees d @ ats"
    and "map (\<lambda>r. (it_order r, it_type r, it_qty r, it_price r)) its =
      map (\<lambda>i. (ord_id row', ci_type i, sint (ci_quantity i), price_in d (ci_type i))) (cr_items req)"
    and "map (\<lambda>a. (at_order a, at_type a, at_name a, at_email a)) ats =
      map (\<lambda>a. (ord_id row', ca_type a, ca_name a, ca_email a)) (cr_attendees req)"
    and "tickets d' = tickets d" "payments d' = payments d" "events d' = events d" "admins d' = admins d"
      "catalogue d' = catalogue d"
proof -
  from placed obtain its ats ts where d1: "d1 = d\<lparr>ticket_types := ts, orders := orders d @ [row],
        order_items := order_items d @ its, attendees := attendees d @ ats\<rparr>"
    and its: "map (\<lambda>r. (it_order r, it_type r, it_qty r, it_price r)) its =
      map (\<lambda>i. (ord_id row, ci_type i, sint (ci_quantity i), price_in d (ci_type i))) (cr_items req)"
      "map (\<lambda>a. (at_order a, at_type a, at_name a, at_email a)) ats =
      map (\<lambda>a. (ord_id row, ca_type a, ca_name a, ca_email a)) (cr_attendees req)"
    and new: "ord_id row \<notin> ord_id ` set (orders d)" and cat: "catalogue d1 = catalogue d"
    unfolding order_placed_def by blast
  have "orders d1 = orders d @ [row]" by (simp add: d1)
  then obtain row' where "orders d' = orders d @ [row']" and part: "purchase_part row' = purchase_part row"
    by (rule row_written_last [OF written _ new])
  then show thesis
    using its cat row_written_frame [OF written] purchase_part_fields(1) [OF part]
    by (intro that [of row' its ats]) (simp_all add: d1)
qed

text \<open>
  The tables have gained at most one order, which is new, and lines and attendees of that one only;
  every row that was there is still what it was. All else is unchanged but the quotas.
\<close>

definition adds_order :: "database \<Rightarrow> database \<Rightarrow> bool" where
  "adds_order d d' \<longleftrightarrow>
     (\<exists>new its ats. length new \<le> 1 \<and> ord_id ` set new \<inter> ord_id ` set (orders d) = {} \<and>
        orders d' = orders d @ new \<and>
        order_items d' = order_items d @ its \<and> it_order ` set its \<subseteq> ord_id ` set new \<and>
        attendees d' = attendees d @ ats \<and> at_order ` set ats \<subseteq> ord_id ` set new) \<and>
     tickets d' = tickets d \<and> payments d' = payments d \<and> events d' = events d \<and> admins d' = admins d \<and>
     catalogue d' = catalogue d"

lemma adds_nothing: "adds_order d d"
  unfolding adds_order_def by (intro conjI exI [of _ "[]"]) simp_all

lemma placed_adds:
  assumes placed: "order_placed req row d d1" and written: "row_written (ord_id row) d1 d'"
  shows "adds_order d d'"
proof (rule order_placed_written [OF placed written])
  fix row' its ats
  assume os: "orders d' = orders d @ [row']" and part: "purchase_part row' = purchase_part row"
    and its: "order_items d' = order_items d @ its" "attendees d' = attendees d @ ats"
    and keys: "map (\<lambda>r. (it_order r, it_type r, it_qty r, it_price r)) its =
        map (\<lambda>i. (ord_id row', ci_type i, sint (ci_quantity i), price_in d (ci_type i))) (cr_items req)"
      "map (\<lambda>a. (at_order a, at_type a, at_name a, at_email a)) ats =
        map (\<lambda>a. (ord_id row', ca_type a, ca_name a, ca_email a)) (cr_attendees req)"
    and frame: "tickets d' = tickets d" "payments d' = payments d" "events d' = events d" "admins d' = admins d"
      "catalogue d' = catalogue d"
  have "ord_id row' \<notin> ord_id ` set (orders d)"
    using placed by (simp add: order_placed_def purchase_part_fields [OF part])
  moreover from keys [THEN arg_cong [where f = "map fst"]]
  have "map it_order its = map (\<lambda>_. ord_id row') (cr_items req)"
    and "map at_order ats = map (\<lambda>_. ord_id row') (cr_attendees req)" by (simp_all add: comp_def)
  from this [THEN arg_cong [where f = set]] have "it_order ` set its \<subseteq> ord_id ` set [row']"
    and "at_order ` set ats \<subseteq> ord_id ` set [row']" by auto
  ultimately show "adds_order d d'"
    unfolding adds_order_def using os its frame
    by (intro conjI exI [of _ "[row']"] exI [of _ its] exI [of _ ats]) simp_all
qed

lemma checkout_adds:
  assumes "schema_ok (wdb w)"
    and "Checkout P iter eventProviderAdapter (gatewayAdapter (midtransGateway env g)) req w = (r, w')"
  shows "adds_order (wdb w) (wdb w')"
  using assms
proof (cases rule: checkout_outcome)
  case (unchanged e)
  then show ?thesis by (simp add: adds_nothing)
next
  case (stuck row d1 err msg)
  show ?thesis by (rule placed_adds [OF stuck(2,4)])
next
  case (undone row d1 err msg)
  show ?thesis by (rule placed_adds [OF undone(2,4)])
next
  case (placed resp row d1)
  show ?thesis by (rule placed_adds [OF placed(3,5)])
qed

text \<open>
  C10: A checkout, however it ends (success, refusal, gateway failure, failed compensation, database
  fault at any statement), neither loses nor invents a seat: for every ticket type the remaining
  quota plus the seats held by pending and paid orders is what it was. Row by row, every other order,
  its lines and its attendees stay what they were (status, payment details, deadline and delivery
  included): the tables gain at most one new order, and lines and attendees of that one only. Tickets, payment log,
  events, admins and all of a ticket type but its quota are unchanged, and the schema's constraints
  still hold.
\<close>

theorem checkout_conserves_seats:
  assumes "schema_ok (wdb w)"
    and "Checkout P iter eventProviderAdapter (gatewayAdapter (midtransGateway env g)) req w = (r, w')"
  shows "schema_ok (wdb w') \<and> ledger (wdb w') = ledger (wdb w) \<and>
    (\<forall>i s. order_status (wdb w) i = Some s \<longrightarrow>
       order_status (wdb w') i = Some s \<and> lines_of (wdb w') i = lines_of (wdb w) i) \<and>
    adds_order (wdb w) (wdb w')"
proof -
  have "evolves (wdb w) (wdb w')" using ensuresD [OF checkouts.checkout_evolves assms(2)] .
  then have "schema_ok (wdb w')" and "ledger (wdb w') = ledger (wdb w)"
    and lines: "\<And>i s. order_status (wdb w) i = Some s \<Longrightarrow> lines_of (wdb w') i = lines_of (wdb w) i"
    using assms(1) by (auto simp: evolves_def orders_evolve_def)
  moreover have "order_status (wdb w') i = Some s" if s: "order_status (wdb w) i = Some s" for i s
    using assms
  proof (cases rule: checkout_outcome)
    case (undone row d1)
    then show ?thesis using order_placed_old [OF assms(1) undone(2) s] by (simp add: order_released_def)
  next
    case (placed resp row d1)
    then show ?thesis using order_placed_old [OF assms(1) placed(3) s] statuses_kept_frame(1) by simp
  qed (use s order_placed_old [OF assms(1) _ s] in auto)
  ultimately show ?thesis using checkout_adds [OF assms] by blast
qed

theorem checkout_conserves_seats_witness:
  "ledger (wdb (snd (sample_checkout sample_world))) 2 = Some 13 \<and>
   quota_of (wdb (snd (sample_checkout sample_world))) 2 = Some 9 \<and>
   take 2 (orders (wdb (snd (sample_checkout sample_world)))) = orders sample_db"
proof -
  note conserved = checkout_conserves_seats [OF sample_world_schema surjective_pairing, where P = "\<lambda>_. True" and
      iter = "\<lambda>m. m" and env = sample_env and g = sample_gateway and req = sample_request, folded sample_checkout_def]
  have "ledger (wdb (snd (sample_checkout sample_world))) = ledger (wdb sample_world)" using conserved by blast
  moreover have "take 2 (orders (wdb (snd (sample_checkout sample_world)))) = orders sample_db"
    using conserved by (auto simp: adds_order_def sample_world_def sample_db_def)
  moreover have "ledger (wdb sample_world) 2 = Some 13" by code_simp
  moreover have "quota_of (wdb (snd (sample_checkout sample_world))) 2 = Some 9" by code_simp
  ultimately show ?thesis by simp
qed

text \<open>
  C11: A checkout that answers success was a valid request; it has added one order that did not
  exist, under the number it answers: pending, with the request's buyer, and with a stored total
  that the server computed from its own prices. Its stored lines are those of the request, in order,
  each at the price the server has for its type, its attendees those of the request; every ordered
  type had the seats and exactly those have left its quota. The answer carries the stored total, and
  nothing else in the database has changed.
\<close>

theorem checkout_places_order:
  assumes "schema_ok (wdb w)"
    and "Checkout P iter eventProviderAdapter (gatewayAdapter (midtransGateway env g)) req w = (Inr resp, w')"
  shows "CheckoutRequest_Validate P iter req = None \<and>
    (\<exists>row its ats.
       ord_id row \<notin> ord_id ` set (orders (wdb w)) \<and> orders (wdb w') = orders (wdb w) @ [row] \<and>
       order_items (wdb w') = order_items (wdb w) @ its \<and> attendees (wdb w') = attendees (wdb w) @ ats \<and>
       ord_number row = resp_number resp \<and> ord_status row = OrderStatusPending \<and>
       ord_buyer_name row = cr_buyer_name req \<and> ord_buyer_email row = cr_buyer_email req \<and>
       ord_buyer_phone row = cr_buyer_phone req \<and> ord_total row = total_price (wdb w) (cr_items req) \<and>
       map (\<lambda>r. (it_order r, it_type r, it_qty r, it_price r)) its =
         map (\<lambda>i. (ord_id row, ci_type i, sint (ci_quantity i), price_in (wdb w) (ci_type i))) (cr_items req) \<and>
       map (\<lambda>a. (at_order a, at_type a, at_name a, at_email a)) ats =
         map (\<lambda>a. (ord_id row, ca_type a, ca_name a, ca_email a)) (cr_attendees req) \<and>
       order_status (wdb w) (ord_id row) = None \<and>
       order_status (wdb w') = (order_status (wdb w))(ord_id row \<mapsto> OrderStatusPending) \<and>
       lines_of (wdb w') (ord_id row) = item_lines (cr_items req)) \<and>
    resp_total resp = total_price (wdb w) (cr_items req) \<and>
    (\<forall>t n. quota_of (wdb w) t = Some n \<longrightarrow>
       line_seats (item_lines (cr_items req)) t \<le> n \<and>
       quota_of (wdb w') t = Some (n - line_seats (item_lines (cr_items req)) t)) \<and>
    tickets (wdb w') = tickets (wdb w) \<and> payments (wdb w') = payments (wdb w) \<and>
    events (wdb w') = events (wdb w) \<and> admins (wdb w') = admins (wdb w) \<and> catalogue (wdb w') = catalogue (wdb w)"
proof -
  from assms obtain row d1 where valid: "CheckoutRequest_Validate P iter req = None"
    and placed: "order_placed req row (wdb w) d1" and ok1: "schema_ok d1" and kept: "statuses_kept d1 (wdb w')"
    and written: "row_written (ord_id row) d1 (wdb w')" and number: "resp_number resp = ord_number row"
    and total: "resp_total resp = total_price (wdb w) (cr_items req)"
    by (cases rule: checkout_outcome) auto
  note frame = statuses_kept_frame [OF kept]
  obtain row' its ats where os: "orders (wdb w') = orders (wdb w) @ [row']" and part: "purchase_part row' = purchase_part row"
    and its: "order_items (wdb w') = order_items (wdb w) @ its" "attendees (wdb w') = attendees (wdb w) @ ats"
      "map (\<lambda>r. (it_order r, it_type r, it_qty r, it_price r)) its =
        map (\<lambda>i. (ord_id row', ci_type i, sint (ci_quantity i), price_in (wdb w) (ci_type i))) (cr_items req)"
      "map (\<lambda>a. (at_order a, at_type a, at_name a, at_email a)) ats =
        map (\<lambda>a. (ord_id row', ca_type a, ca_name a, ca_email a)) (cr_attendees req)"
    by (rule order_placed_written [OF placed written])
  note others = checkout_adds [OF assms, unfolded adds_order_def, THEN conjunct2]
  note fields = purchase_part_fields [OF part]
  have new: "ord_id row' \<notin> ord_id ` set (orders (wdb w))" using placed by (simp add: order_placed_def fields)
  have buyer: "ord_buyer_name row' = cr_buyer_name req" "ord_buyer_email row' = cr_buyer_email req"
    "ord_buyer_phone row' = cr_buyer_phone req" "ord_total row' = total_price (wdb w) (cr_items req)"
    using placed by (simp_all add: order_placed_def fields)
  have st: "order_status (wdb w) (ord_id row') = None"
    "order_status (wdb w') = (order_status (wdb w))(ord_id row' \<mapsto> OrderStatusPending)"
    using order_placed_status [OF placed] by (simp_all add: frame fields)
  have "schema_ok (wdb w')" using checkouts.checkout_run [OF assms(2,1)] by blast
  then have pending: "ord_status row' = OrderStatusPending"
    using order_status_row [of "wdb w'" row'] st(2) by (simp add: os)
  have lines: "lines_of (wdb w') (ord_id row') = item_lines (cr_items req)"
    using order_placed_lines(1) [OF assms(1) placed] by (simp add: frame fields)
  have "line_seats (item_lines (cr_items req)) t \<le> n \<and>
      quota_of (wdb w') t = Some (n - line_seats (item_lines (cr_items req)) t)" if "quota_of (wdb w) t = Some n" for t n
  proof -
    have quota: "quota_of (wdb w') t = Some (n - line_seats (item_lines (cr_items req)) t)"
      using placed that by (simp add: order_placed_def frame)
    then show ?thesis using quota_nonneg [OF ok1, of t] by (simp add: frame)
  qed
  moreover have "ord_number row' = resp_number resp" by (simp add: number fields)
  ultimately show ?thesis
    using valid total others new os its buyer pending st lines by (intro conjI exI [of _ row'] exI [of _ its] exI [of _ ats]) blast+
qed

theorem checkout_places_order_witness:
  "\<exists>resp w'. sample_checkout sample_world = (Inr resp, w') \<and> resp_total resp = 50 \<and>
     ord_total (last (orders (wdb w'))) = 50 \<and> map it_price (drop 2 (order_items (wdb w'))) = [50]"
proof -
  have run: "sample_checkout sample_world = (Inr (projr (fst (sample_checkout sample_world))), snd (sample_checkout sample_world))"
    (is "_ = (Inr ?r, ?w)") 
  proof -
    have "\<not> isl (fst (sample_checkout sample_world))" by code_simp
    then show ?thesis by (simp add: prod_eq_iff)
  qed
  have price: "price_in (wdb sample_world) 2 = 50" by code_simp
  note placed = checkout_places_order [OF sample_world_schema run [unfolded sample_checkout_def], folded sample_checkout_def]
  from placed obtain row its where row: "orders (wdb ?w) = orders (wdb sample_world) @ [row]"
      "ord_total row = total_price (wdb sample_world) (cr_items sample_request)"
    and its: "order_items (wdb ?w) = order_items (wdb sample_world) @ its"
      "map (\<lambda>r. (it_order r, it_type r, it_qty r, it_price r)) its = map (\<lambda>i. (ord_id row, ci_type i,
         sint (ci_quantity i), price_in (wdb sample_world) (ci_type i))) (cr_items sample_request)" by blast
  from its(2) [THEN arg_cong [where f = "map (\<lambda>(_, _, _, p). p)"]] have "map it_price its = [50]"
    by (simp add: comp_def sample_request_def price)
  moreover have "length (order_items (wdb sample_world)) = 2" by (simp add: sample_world_def sample_db_def)
  moreover have total: "total_price (wdb sample_world) (cr_items sample_request) = 50" by code_simp
  ultimately have "ord_total (last (orders (wdb ?w))) = 50 \<and> map it_price (drop 2 (order_items (wdb ?w))) = [50]"
    by (simp add: row its(1))
  moreover have "resp_total ?r = 50" using placed total by simp
  ultimately show ?thesis using run by (intro exI [of _ ?r] exI [of _ ?w] conjI) simp_all
qed

text \<open>
  C12: A checkout that answers an error other than the payment failure has written nothing. When it
  answers the payment failure, either nothing is left of the order but a cancelled record, all its
  seats being back, or the order is still there, pending, with its seats.
\<close>

theorem checkout_refused:
  assumes "schema_ok (wdb w)"
    and "Checkout P iter eventProviderAdapter (gatewayAdapter (midtransGateway env g)) req w = (Inl e, w')"
  shows "wdb w' = wdb w \<or>
    (\<exists>err msg i. e = Wrap err 502 CodePaymentInitiationFailed msg \<and> order_status (wdb w) i = None \<and>
       (order_status (wdb w') = (order_status (wdb w))(i \<mapsto> OrderStatusCancelled) \<and> quota_of (wdb w') = quota_of (wdb w) \<or>
        order_status (wdb w') = (order_status (wdb w))(i \<mapsto> OrderStatusPending) \<and>
          lines_of (wdb w') i = item_lines (cr_items req)))"
  using assms
proof (cases rule: checkout_outcome)
  case (stuck row d1 err msg)
  then show ?thesis
    using order_placed_status [OF stuck(2)] order_placed_lines(1) [OF assms(1) stuck(2)] by blast
next
  case (undone row d1 err msg)
  have "quota_of (wdb w') t = quota_of (wdb w) t" for t
    using undone(2,5) order_placed_lines(1) [OF assms(1) undone(2)]
    by (cases "quota_of (wdb w) t") (simp_all add: order_released_def order_placed_def)
  moreover have "order_status (wdb w') = (order_status (wdb w))(ord_id row \<mapsto> OrderStatusCancelled)"
    using undone(5) order_placed_status [OF undone(2)] by (simp add: order_released_def)
  ultimately show ?thesis using undone(1) order_placed_status [OF undone(2)] by blast
qed simp_all

definition refusing_checkout :: "OrderResponse go" where
  "refusing_checkout = Checkout (\<lambda>_. True) (\<lambda>m. m) eventProviderAdapter
     (gatewayAdapter (midtransGateway (sample_env\<lparr>env_call := \<lambda>_ _ _ _. Inl (DriverError ''net'')\<rparr>) sample_gateway))
     sample_request"

theorem checkout_refused_witness:
  "\<exists>e w'. refusing_checkout sample_world = (Inl e, w') \<and> quota_of (wdb w') 2 = Some 10 \<and>
     (wdb w' = sample_db \<or> (\<exists>err msg. e = Wrap err 502 CodePaymentInitiationFailed msg))"
proof -
  let ?e = "projl (fst (refusing_checkout sample_world))" and ?w = "snd (refusing_checkout sample_world)"
  have "isl (fst (refusing_checkout sample_world))" by code_simp
  then have run: "refusing_checkout sample_world = (Inl ?e, ?w)" by (simp add: prod_eq_iff)
  moreover have "quota_of (wdb ?w) 2 = Some 10" by code_simp
  moreover have "wdb sample_world = sample_db" by (simp add: sample_world_def)
  moreover note checkout_refused [OF sample_world_schema run [unfolded refusing_checkout_def], folded refusing_checkout_def]
  ultimately show ?thesis by metis
qed

end
